(* ===== verification/Prelude.thy ===== *)
theory Prelude
  imports Main "HOL-Library.Word" "HOL-Library.Finite_Map" "HOL-Library.Signed_Division"
begin

text \<open>
  The prelude of the development: the machine integers and the standard-library
  vocabulary the components share.

  Integers keep their Rust width. An \<open>uN\<close> and an \<open>iN\<close> are both an \<open>N word\<close>; unsigned
  code reads it with \<open>unat\<close> and compares with \<open><\<close>, signed code reads it with \<open>sint\<close> and
  compares with \<open><s\<close>. Additions, subtractions and multiplications are those of the
  release profile (two's complement wrap-around; \<open>debug_assert!\<close> is compiled out).
  Out-of-range array indices and failed \<open>assert!\<close>s panic in every profile and are
  values of type \<open>fault\<close>.

  A \<open>HashMap\<close> is a finite map (\<open>fmap\<close>). Its iteration order is unspecified in Rust, so
  every operation whose result depends on it takes the enumeration of the keys as an
  argument, constrained by \<open>enumerates\<close>.
\<close>

unbundle bit_operations_syntax

section \<open>Types\<close>

type_synonym u8 = "8 word"
type_synonym i8 = "8 word"
type_synonym u16 = "16 word"
type_synonym u32 = "32 word"
type_synonym u64 = "64 word"
type_synonym i64 = "64 word"
type_synonym usize = "64 word"

text \<open>
  Faults: the panics of the source and the reads of uninitialised memory its unsafe
  blocks would make. A fallible operation returns \<open>fault + 'a\<close>.
\<close>

datatype fault = Index_Out_Of_Bounds | Assertion_Failed | Uninit_Read | Division_Panic

type_synonym 'a outcome = "fault + 'a"

named_theorems script_defs \<open>evaluation of socket calls on a scripted socket\<close>

section \<open>Saturating and signed arithmetic of the standard library\<close>

definition saturating_sub :: "'a::len word \<Rightarrow> 'a word \<Rightarrow> 'a word" where
  "saturating_sub a b = (if a < b then 0 else a - b)"

definition saturating_add :: "'a::len word \<Rightarrow> 'a word \<Rightarrow> 'a word" where
  "saturating_add a b = (if unat a + unat b < 2 ^ LENGTH('a) then a + b else - 1)"

text \<open>\<open>i64::abs\<close>, \<open>i64::min\<close> and the truncating \<open>i64\<close> division (release profile: \<open>abs\<close> of
  the least value wraps to itself).\<close>

definition sabs :: "'a::len word \<Rightarrow> 'a word" where
  "sabs a = (if a <s 0 then - a else a)"

definition smin :: "'a::len word \<Rightarrow> 'a word \<Rightarrow> 'a word" where
  "smin a b = (if b <s a then b else a)"

definition smax :: "'a::len word \<Rightarrow> 'a word \<Rightarrow> 'a word" where
  "smax a b = (if b <s a then a else b)"

definition trunc_div :: "'a::len word \<Rightarrow> 'a word \<Rightarrow> 'a word" where
  "trunc_div a b = word_of_int (sint a sdiv sint b)"

text \<open>The \<open>i64\<close> division operator panics on a zero divisor and on the one quotient that does not
  fit, in every profile.\<close>

definition i64_div :: "i64 \<Rightarrow> i64 \<Rightarrow> i64 outcome" where
  "i64_div a b = (if b = 0 \<or> (sint a = - (2 ^ 63) \<and> b = - 1) then Inl Division_Panic else Inr (trunc_div a b))"

text \<open>\<open>fits_i64 z\<close>: the integer \<open>z\<close> is representable in 64 signed bits.\<close>

definition fits_i64 :: "int \<Rightarrow> bool" where
  "fits_i64 z \<longleftrightarrow> - (2 ^ 63) \<le> z \<and> z < 2 ^ 63"

lemma unat_saturating_sub [simp]: "unat (saturating_sub a b) = unat a - unat b"
  by (simp add: saturating_sub_def word_less_nat_alt unat_sub_if_size)

lemma unat_saturating_add:
  "unat (saturating_add (a :: 'a::len word) b) = min (unat a + unat b) (2 ^ LENGTH('a) - 1)"
proof -
  have "unat (- 1 :: 'a word) = 2 ^ LENGTH('a) - 1"
    by (simp add: unsigned_minus_1_eq_mask mask_eq_exp_minus_1)
  then show ?thesis
    by (auto simp: saturating_add_def unat_word_ariths min_def)
qed

lemma fits_i64_sint [simp]: "fits_i64 (sint (w :: i64))"
  using sint_greater_eq [of w] sint_less [of w] by (simp add: fits_i64_def)

lemma signed_take_bit_fits: "fits_i64 z \<Longrightarrow> signed_take_bit 63 z = z"
  by (simp add: fits_i64_def signed_take_bit_int_eq_self)

lemma sint_of_int_i64: "fits_i64 z \<Longrightarrow> sint (word_of_int z :: i64) = z"
  by (simp add: sint_sbintrunc' signed_take_bit_fits)

lemma sint_add_i64: "fits_i64 (sint a + sint b) \<Longrightarrow> sint (a + b :: i64) = sint a + sint b"
  by (simp add: sint_word_ariths signed_take_bit_fits)

lemma sint_diff_i64: "fits_i64 (sint a - sint b) \<Longrightarrow> sint (a - b :: i64) = sint a - sint b"
  by (simp add: sint_word_ariths signed_take_bit_fits)

lemma sint_mult_i64: "fits_i64 (sint a * sint b) \<Longrightarrow> sint (a * b :: i64) = sint a * sint b"
  by (simp add: sint_word_ariths signed_take_bit_fits)

lemma sint_uminus_i64: "fits_i64 (- sint a) \<Longrightarrow> sint (- a :: i64) = - sint a"
  by (simp add: sint_word_ariths signed_take_bit_fits)

lemma sint_sabs_i64:
  "fits_i64 (- sint a) \<Longrightarrow> sint (sabs a :: i64) = \<bar>sint a\<bar>"
  by (auto simp: sabs_def word_sless_alt sint_uminus_i64)

lemma sint_smin [simp]: "sint (smin a b) = min (sint a) (sint b)"
  by (auto simp: smin_def word_sless_alt)

lemma sint_smax [simp]: "sint (smax a b) = max (sint a) (sint b)"
  by (auto simp: smax_def word_sless_alt)

text \<open>The truncated average of two numbers lies between them.\<close>

lemma sint_average:
  fixes a b :: i64
  assumes "fits_i64 (sint a + sint b)"
  shows "min (sint a) (sint b) \<le> sint (trunc_div (a + b) 2)" "sint (trunc_div (a + b) 2) \<le> max (sint a) (sint b)"
proof -
  let ?A = "sint a" and ?B = "sint b"
  have "(?A + ?B) sdiv 2 = (if 0 \<le> ?A + ?B then (?A + ?B) div 2 else - (- (?A + ?B) div 2))"
    by (auto simp: signed_divide_int_def sgn_if)
  then have bounds: "min ?A ?B \<le> (?A + ?B) sdiv 2" "(?A + ?B) sdiv 2 \<le> max ?A ?B" by auto
  moreover have "fits_i64 (min ?A ?B)" "fits_i64 (max ?A ?B)" by (auto simp: min_def max_def)
  ultimately have "fits_i64 ((?A + ?B) sdiv 2)" unfolding fits_i64_def by linarith
  then have "sint (trunc_div (a + b) 2) = (?A + ?B) sdiv 2"
    using assms by (simp add: trunc_div_def sint_add_i64 sint_of_int_i64)
  with bounds show "min ?A ?B \<le> sint (trunc_div (a + b) 2)" "sint (trunc_div (a + b) 2) \<le> max ?A ?B" by simp_all
qed

text \<open>\<open>qty as i64\<close>: zero extension of a \<open>u32\<close>, never negative and below \<open>2 ^ 32\<close>.\<close>

lemma uint_u32_bounds: "uint (q :: u32) < 4294967296" "0 \<le> uint q"
  using uint_lt2p [of q] by simp_all

lemma sint_ucast_u32_i64 [simp]: "sint (ucast (q :: u32) :: i64) = uint q"
proof -
  note b = uint_u32_bounds [of q]
  have "uint (ucast q :: i64) = uint q"
    by (simp add: unsigned_ucast_eq take_bit_int_eq_self_iff) (use b in linarith)
  then have "sint (ucast q :: i64) = signed_take_bit 63 (uint q)"
    by (simp add: sint_uint)
  also have "\<dots> = uint q"
  proof (rule signed_take_bit_int_eq_self)
    show "- (2 ^ 63) \<le> uint q" by (rule order_trans [of _ 0]) simp_all
    show "uint q < 2 ^ 63" using b by simp
  qed
  finally show ?thesis .
qed

lemma of_nat_eq_0_u64: "n < 2 ^ 64 \<Longrightarrow> (of_nat n :: u64) = 0 \<longleftrightarrow> n = 0"
  using nat_dvd_not_less [of n "2 ^ 64"] by (auto simp: word_of_nat_eq_0_iff)

section \<open>Hash maps\<close>

abbreviation hm_len :: "('k, 'v) fmap \<Rightarrow> nat" where
  "hm_len m \<equiv> fcard (fmdom m)"

abbreviation contains_key :: "('k, 'v) fmap \<Rightarrow> 'k \<Rightarrow> bool" where
  "contains_key m k \<equiv> fmlookup m k \<noteq> None"

text \<open>\<open>entry(k).or_insert(v)\<close>: the value the entry refers to.\<close>

definition get_or :: "('k, 'v) fmap \<Rightarrow> 'k \<Rightarrow> 'v \<Rightarrow> 'v" where
  "get_or m k v = (case fmlookup m k of Some x \<Rightarrow> x | None \<Rightarrow> v)"

lemma get_or_simps [simp]:
  "fmlookup m k = Some x \<Longrightarrow> get_or m k v = x"
  "fmlookup m k = None \<Longrightarrow> get_or m k v = v"
  by (simp_all add: get_or_def)

text \<open>\<open>ks\<close> is one of the orders in which an iteration over \<open>m\<close> may visit its keys.\<close>

definition enumerates :: "'k list \<Rightarrow> ('k, 'v) fmap \<Rightarrow> bool" where
  "enumerates ks m \<longleftrightarrow> distinct ks \<and> fset_of_list ks = fmdom m"

lemma enumerates_iff: "enumerates ks m \<longleftrightarrow> distinct ks \<and> set ks = fmdom' m"
  by (auto simp: enumerates_def fset_of_list.rep_eq fmdom'_alt_def simp flip: fset_inject)

lemma hm_len_fmupd_new: "fmlookup m k = None \<Longrightarrow> hm_len (fmupd k v m) = Suc (hm_len m)"
  by (simp add: fcard_finsert_disjoint fmdom_notI)

lemma hm_len_fmdrop: "fmlookup m k = Some v \<Longrightarrow> Suc (hm_len (fmdrop k m)) = hm_len m"
proof -
  assume "fmlookup m k = Some v"
  then have "k |\<in>| fmdom m" by (rule fmdomI)
  then have "Suc (fcard (fmdom m |-| {|k|})) = fcard (fmdom m)" by (rule fcard_Suc_fminus1)
  then show ?thesis by (simp add: fmdom_drop)
qed

lemma fmlookup_fold_fmdrop:
  "fmlookup (fold fmdrop ks m) k = (if k \<in> set ks then None else fmlookup m k)"
  by (induction ks arbitrary: m) auto

lemma fMax_eq_Max: "A \<noteq> {||} \<Longrightarrow> fMax A = Max (fset A)"
  and fMin_eq_Min: "A \<noteq> {||} \<Longrightarrow> fMin A = Min (fset A)"
  using bot_fset.rep_eq fset_inject
  by (metis Max_ge Max_in fMax_eqI finite_fset, metis Min_le Min_in fMin_eqI finite_fset)

section \<open>Lists\<close>

lemma nth_list_update_if: "j < length xs \<Longrightarrow> xs[i := x] ! j = (if i = j then x else xs ! j)"
  by simp

lemma distinct_remove_nth:
  assumes "distinct xs" "k < length xs"
  shows "distinct (take k xs @ drop (Suc k) xs)"
    and "set (take k xs @ drop (Suc k) xs) = set xs - {xs ! k}"
proof -
  have xs: "xs = take k xs @ xs ! k # drop (Suc k) xs" using assms(2) by (rule id_take_nth_drop)
  with assms(1) have d: "distinct (take k xs @ xs ! k # drop (Suc k) xs)" by simp
  then show "distinct (take k xs @ drop (Suc k) xs)" by simp
  have "set xs = insert (xs ! k) (set (take k xs @ drop (Suc k) xs))" by (subst xs) simp
  with d show "set (take k xs @ drop (Suc k) xs) = set xs - {xs ! k}" by auto
qed

section \<open>Decimal numerals\<close>

text \<open>The digits of a number, as \<open>Display\<close> prints it.\<close>

fun show_nat :: "nat \<Rightarrow> string" where
  "show_nat n = (if n < 10 then [char_of (48 + n)] else show_nat (n div 10) @ [char_of (48 + n mod 10)])"

declare show_nat.simps [simp del]

text \<open>A computation that does not panic and whose result satisfies an assertion.\<close>

definition passes :: "'a outcome \<Rightarrow> ('a \<Rightarrow> bool) \<Rightarrow> bool" where
  "passes r P = (case r of Inl _ \<Rightarrow> False | Inr a \<Rightarrow> P a)"

section \<open>Runs and their refinement\<close>

text \<open>
  A component processes a list of inputs one after the other; a fault ends the run. A
  specification does the same on abstract states and never faults. The contract
  \<open>simulation\<close> lifts the refinement of single steps to runs.
\<close>

fun run_outcome :: "('i \<Rightarrow> 's \<Rightarrow> ('o \<times> 's) outcome) \<Rightarrow> 'i list \<Rightarrow> 's \<Rightarrow> ('o list \<times> 's) outcome" where
  "run_outcome step [] s = Inr ([], s)"
| "run_outcome step (i # is) s =
     (case step i s of
        Inl f \<Rightarrow> Inl f
      | Inr (out, s) \<Rightarrow> map_sum id (\<lambda>(outs, s). (out # outs, s)) (run_outcome step is s))"

fun run_spec :: "('i \<Rightarrow> 'a \<Rightarrow> 'o \<times> 'a) \<Rightarrow> 'i list \<Rightarrow> 'a \<Rightarrow> 'o list \<times> 'a" where
  "run_spec step [] a = ([], a)"
| "run_spec step (i # is) a =
     (let (out, a) = step i a; (outs, a) = run_spec step is a in (out # outs, a))"

lemma run_outcome_Cons_Inr:
  "run_outcome step (i # is) s = Inr (outs, s') \<longleftrightarrow>
     (\<exists>out s1 outs1. step i s = Inr (out, s1) \<and> run_outcome step is s1 = Inr (outs1, s') \<and> outs = out # outs1)"
proof (cases "step i s")
  case (Inr p)
  obtain out s1 where "p = (out, s1)" by force
  with Inr show ?thesis by (cases "run_outcome step is s1") auto
qed simp

lemma length_run_outcome: "run_outcome step is s = Inr (outs, s') \<Longrightarrow> length outs = length is"
  by (induction "is" arbitrary: s outs) (auto simp: run_outcome_Cons_Inr simp del: run_outcome.simps(2))

lemma run_spec_Cons_eq:
  "run_spec step (i # is) a =
     (fst (step i a) # fst (run_spec step is (snd (step i a))), snd (run_spec step is (snd (step i a))))"
  by (simp add: split_beta Let_def)

lemma run_spec_append:
  "run_spec step (xs @ ys) a =
     (fst (run_spec step xs a) @ fst (run_spec step ys (snd (run_spec step xs a))),
      snd (run_spec step ys (snd (run_spec step xs a))))"
  by (induction xs arbitrary: a) (simp_all add: run_spec_Cons_eq del: run_spec.simps(2))

lemma length_run_spec: "length (fst (run_spec step is a)) = length is"
  by (induction "is" arbitrary: a) (simp_all add: run_spec_Cons_eq del: run_spec.simps(2))

lemma run_spec_invariant:
  assumes "I a" "\<And>i a. I a \<Longrightarrow> I (snd (step i a))"
  shows "I (snd (run_spec step is a))"
  using assms by (induction "is" arbitrary: a) (simp_all add: run_spec_Cons_eq del: run_spec.simps(2))

locale simulation =
  fixes step :: "'i \<Rightarrow> 's \<Rightarrow> ('o \<times> 's) outcome"
    and astep :: "'i \<Rightarrow> 'a \<Rightarrow> 'o \<times> 'a"
    and abs :: "'s \<Rightarrow> 'a"
    and ok :: "'s \<Rightarrow> bool"
  assumes step_refines: "ok s \<Longrightarrow> \<exists>out s'. step i s = Inr (out, s') \<and> ok s' \<and> astep i (abs s) = (out, abs s')"
begin

lemma run_refines:
  assumes "ok s"
  shows "\<exists>outs s'. run_outcome step is s = Inr (outs, s') \<and> ok s' \<and> run_spec astep is (abs s) = (outs, abs s')"
  using assms
proof (induction "is" arbitrary: s)
  case (Cons i "is")
  obtain out s' where 1: "step i s = Inr (out, s')" "ok s'" "astep i (abs s) = (out, abs s')"
    using step_refines [OF Cons.prems] by blast
  obtain outs s'' where "run_outcome step is s' = Inr (outs, s'')" "ok s''"
      "run_spec astep is (abs s') = (outs, abs s'')"
    using Cons.IH [OF 1(2)] by blast
  with 1 show ?case by simp
qed simp

end

end
