(* ===== verification/LFQueue.thy ===== *)
theory LFQueue
  imports Prelude
begin

text \<open>
  The lock-free ring buffer of \<open>common/src/lf_queue.rs\<close>, called from one thread at a
  time. The record is the struct: the buffer of \<open>N\<close> possibly uninitialised slots and the
  two free-running 64-bit indices. \<open>lf_list\<close> reads the queue content; the operations are
  shown to implement a bounded FIFO queue of capacity \<open>N\<close> over the whole range of the
  indices, wrap-around included. The interleaved execution of a producer and a consumer
  is the subject of the theory \<open>SPSC\<close>.
\<close>

section \<open>The model\<close>

record 'a lfqueue =
  lf_buffer :: "'a option list"
  lf_tail :: usize
  lf_head :: usize

text \<open>\<open>usize::is_power_of_two\<close>.\<close>

fun is_power_of_two :: "nat \<Rightarrow> bool" where
  "is_power_of_two n =
     (if n = 0 then False else if n = 1 then True
      else even n \<and> is_power_of_two (n div 2))"

declare is_power_of_two.simps [simp del]

text \<open>The capacity \<open>N\<close>, a const generic, is the length of the buffer.\<close>

definition lf_N :: "'a lfqueue \<Rightarrow> usize" where
  "lf_N q = of_nat (length (lf_buffer q))"

definition lf_MASK :: "'a lfqueue \<Rightarrow> usize" where
  "lf_MASK q = lf_N q - 1"

definition lf_new :: "nat \<Rightarrow> 'a lfqueue outcome" where
  "lf_new n =
     (if 0 < n \<and> is_power_of_two n
      then Inr \<lparr>lf_buffer = replicate n None, lf_tail = 0, lf_head = 0\<rparr>
      else Inl Assertion_Failed)"

definition lf_default :: "nat \<Rightarrow> 'a lfqueue outcome" where
  "lf_default n = lf_new n"

definition lf_push :: "'a lfqueue \<Rightarrow> 'a \<Rightarrow> ('a + unit) \<times> 'a lfqueue" where
  "lf_push q item =
     (let tail = lf_tail q; head = lf_head q in
      if lf_N q \<le> tail - head then (Inl item, q)
      else let index = unat (tail AND lf_MASK q) in
        (Inr (), q\<lparr>lf_buffer := (lf_buffer q)[index := Some item], lf_tail := tail + 1\<rparr>))"

definition lf_pop :: "'a lfqueue \<Rightarrow> ('a option \<times> 'a lfqueue) outcome" where
  "lf_pop q =
     (let head = lf_head q; tail = lf_tail q in
      if head = tail then Inr (None, q)
      else let index = unat (head AND lf_MASK q) in
        (case lf_buffer q ! index of
           None \<Rightarrow> Inl Uninit_Read
         | Some item \<Rightarrow> Inr (Some item, q\<lparr>lf_head := head + 1\<rparr>)))"

definition lf_len :: "'a lfqueue \<Rightarrow> usize" where
  "lf_len q = lf_tail q - lf_head q"

definition lf_is_empty :: "'a lfqueue \<Rightarrow> bool" where
  "lf_is_empty q \<longleftrightarrow> lf_len q = 0"

definition lf_is_full :: "'a lfqueue \<Rightarrow> bool" where
  "lf_is_full q \<longleftrightarrow> lf_N q \<le> lf_len q"

definition lf_capacity :: "'a lfqueue \<Rightarrow> usize" where
  "lf_capacity q = lf_N q"

text \<open>\<open>Drop::drop\<close> pops until the queue is empty; the items it drops are accumulated.\<close>

partial_function (option) lf_drop :: "'a lfqueue \<Rightarrow> 'a list \<Rightarrow> ('a list \<times> 'a lfqueue) outcome option" where
  "lf_drop q dropped =
     (case lf_pop q of
        Inl f \<Rightarrow> Some (Inl f)
      | Inr (None, q') \<Rightarrow> Some (Inr (dropped, q'))
      | Inr (Some x, q') \<Rightarrow> lf_drop q' (dropped @ [x]))"

section \<open>Masked indices\<close>

lemma is_power_of_two_exp: "is_power_of_two (2 ^ k)"
proof (induction k)
  case 0
  then show ?case by (simp add: is_power_of_two.simps)
next
  case (Suc k)
  then show ?case by (subst is_power_of_two.simps) simp
qed

lemma is_power_of_twoD: "is_power_of_two n \<Longrightarrow> \<exists>k. n = 2 ^ k"
proof (induction n rule: is_power_of_two.induct)
  case (1 n)
  show ?case
  proof (cases "n = 1")
    case True
    then show ?thesis by (metis power_0)
  next
    case False
    with "1.prems" have n: "n \<noteq> 0" "even n" "is_power_of_two (n div 2)"
      by (simp_all add: is_power_of_two.simps [of n] split: if_splits)
    with False "1.IH" obtain k where "n div 2 = 2 ^ k" by blast
    with n have "n = 2 ^ Suc k" by (auto elim!: evenE)
    then show ?thesis by blast
  qed
qed

text \<open>Masking with \<open>2 ^ k - 1\<close> is reduction modulo \<open>2 ^ k\<close>.\<close>

lemma unat_and_mask:
  assumes "k < 64"
  shows "unat ((w :: usize) AND (of_nat (2 ^ k) - 1)) = unat w mod 2 ^ k"
proof -
  have "(of_nat (2 ^ k) - 1 :: usize) = mask k" by (simp add: mask_eq_exp_minus_1)
  then have "w AND (of_nat (2 ^ k) - 1) = take_bit k w" by (simp add: take_bit_eq_mask)
  then have "unat (w AND (of_nat (2 ^ k) - 1)) = unat (take_bit k w)" by (simp only:)
  also have "\<dots> = take_bit k (unat w)" by (rule unsigned_take_bit_eq)
  finally show ?thesis by (simp add: take_bit_eq_mod)
qed

lemma unat_add_mod_exp:
  assumes "k < 64"
  shows "unat ((w :: usize) + of_nat i) mod 2 ^ k = (unat w + i) mod 2 ^ k"
proof -
  have d: "(2 :: nat) ^ k dvd 2 ^ 64" using assms by (intro le_imp_power_dvd) simp
  have "unat (w + of_nat i) = (unat w + i) mod 2 ^ 64"
    by (simp add: unat_word_ariths unat_of_nat mod_simps)
  then show ?thesis using d by (simp add: mod_mod_cancel)
qed

lemma mod_add_cancel_bound:
  assumes "(h + i) mod n = (h + j) mod (n::nat)" "i < n" "j < n"
  shows "i = j"
proof -
  from assms(1) obtain a b where "h + i + n * a = h + j + n * b"
    by (auto simp: nat_mod_eq_iff)
  then have "i + n * a = j + n * b" by simp
  then have "i mod n = j mod n" by (metis mod_mult_self2)
  with assms show ?thesis by simp
qed

section \<open>The queue as a list\<close>

definition lf_ok :: "'a lfqueue \<Rightarrow> bool" where
  "lf_ok q \<longleftrightarrow>
     is_power_of_two (length (lf_buffer q)) \<and> length (lf_buffer q) < 2 ^ 64 \<and>
     unat (lf_tail q - lf_head q) \<le> length (lf_buffer q) \<and>
     (\<forall>i < unat (lf_tail q - lf_head q).
        lf_buffer q ! ((unat (lf_head q) + i) mod length (lf_buffer q)) \<noteq> None)"

definition lf_list :: "'a lfqueue \<Rightarrow> 'a list" where
  "lf_list q =
     map (\<lambda>i. the (lf_buffer q ! ((unat (lf_head q) + i) mod length (lf_buffer q))))
       [0..<unat (lf_tail q - lf_head q)]"

lemma lf_okE:
  assumes "lf_ok q"
  obtains k where "k < 64" "length (lf_buffer q) = 2 ^ k"
    "unat (lf_N q) = 2 ^ k"
    "\<And>w. unat (w AND lf_MASK q) = unat w mod 2 ^ k"
proof -
  from assms obtain k where k: "length (lf_buffer q) = 2 ^ k" and "length (lf_buffer q) < 2 ^ 64"
    by (auto simp: lf_ok_def dest: is_power_of_twoD)
  then have "(2::nat) ^ k < 2 ^ 64" by simp
  then have lt: "k < 64" by (rule power_less_imp_less_exp [rotated]) simp
  show ?thesis
  proof (rule that [OF lt k])
    have N: "lf_N q = of_nat (2 ^ k)" by (simp add: lf_N_def k)
    show "unat (lf_N q) = 2 ^ k"
      using \<open>(2::nat) ^ k < 2 ^ 64\<close> unfolding N by (subst unat_of_nat) simp
    show "unat (w AND lf_MASK q) = unat w mod 2 ^ k" for w
      unfolding lf_MASK_def N by (rule unat_and_mask [OF lt])
  qed
qed

lemma length_lf_list [simp]: "length (lf_list q) = unat (lf_len q)"
  by (simp add: lf_list_def lf_len_def)

text \<open>A slot beyond the content is free: writing it leaves the content alone.\<close>

lemma lf_push_ok:
  assumes ok: "lf_ok q" and room: "length (lf_list q) < length (lf_buffer q)"
  shows "\<exists>q'. lf_push q x = (Inr (), q') \<and> lf_ok q' \<and> lf_list q' = lf_list q @ [x] \<and>
    length (lf_buffer q') = length (lf_buffer q)"
proof -
  obtain k where k: "k < 64" "length (lf_buffer q) = 2 ^ k" and N: "unat (lf_N q) = 2 ^ k"
    and idx: "\<And>w. unat (w AND lf_MASK q) = unat w mod 2 ^ k"
    using lf_okE [OF ok] by metis
  define n h where "n = unat (lf_tail q - lf_head q)" and "h = unat (lf_head q)"
  have n: "n < 2 ^ k" using room by (simp add: lf_len_def n_def k)
  have tail: "lf_tail q = lf_head q + of_nat n" by (simp add: n_def)
  have slot: "unat (lf_tail q AND lf_MASK q) = (h + n) mod 2 ^ k"
    by (simp add: idx tail h_def unat_add_mod_exp [OF k(1)] del: of_nat_add)
  let ?b = "(lf_buffer q)[(h + n) mod 2 ^ k := Some x]"
  let ?q = "q\<lparr>lf_buffer := ?b, lf_tail := lf_tail q + 1\<rparr>"
  have push: "lf_push q x = (Inr (), ?q)"
    using n by (simp add: lf_push_def Let_def word_le_nat_alt N slot n_def)
  have "(2::nat) ^ k < 2 ^ 64" using k(1) by (rule power_strict_increasing) simp
  then have "Suc n < 2 ^ 64" using n by linarith
  moreover have "lf_tail q + 1 - lf_head q = of_nat (Suc n)" by (simp add: n_def)
  ultimately have len: "unat (lf_tail q + 1 - lf_head q) = Suc n"
    by (simp only: unat_of_nat) simp
  have get: "?b ! ((h + i) mod 2 ^ k) = (if i = n then Some x else lf_buffer q ! ((h + i) mod 2 ^ k))"
    if "i < Suc n" for i
    using that n k(2) mod_add_cancel_bound [of h i "2 ^ k" n] by (auto simp: nth_list_update)
  have "lf_ok ?q"
    using ok n len get by (auto simp: lf_ok_def k(2) h_def n_def less_Suc_eq)
  moreover have "lf_list ?q = lf_list q @ [x]"
    using len get by (simp add: lf_list_def k(2) h_def n_def)
  ultimately show ?thesis using push by auto
qed

lemma lf_push_full:
  assumes ok: "lf_ok q" and full: "length (lf_list q) = length (lf_buffer q)"
  shows "lf_push q x = (Inl x, q)"
proof -
  obtain k where "length (lf_buffer q) = 2 ^ k" and N: "unat (lf_N q) = 2 ^ k"
    using lf_okE [OF ok] by metis
  with full show ?thesis by (simp add: lf_push_def Let_def word_le_nat_alt lf_len_def)
qed

lemma lf_pop_empty: "lf_list q = [] \<Longrightarrow> lf_pop q = Inr (None, q)"
  by (simp add: lf_pop_def lf_list_def unat_eq_0)

lemma lf_pop_ok:
  assumes ok: "lf_ok q" and l: "lf_list q = x # xs"
  shows "\<exists>q'. lf_pop q = Inr (Some x, q') \<and> lf_ok q' \<and> lf_list q' = xs \<and>
    length (lf_buffer q') = length (lf_buffer q)"
proof -
  obtain k where k: "k < 64" "length (lf_buffer q) = 2 ^ k" and "unat (lf_N q) = 2 ^ k"
    and idx: "\<And>w. unat (w AND lf_MASK q) = unat w mod 2 ^ k"
    using lf_okE [OF ok] by metis
  define n h where "n = unat (lf_tail q - lf_head q)" and "h = unat (lf_head q)"
  obtain m where m: "n = Suc m" using l by (cases n) (simp_all add: lf_list_def n_def)
  have full: "[0..<n] = 0 # map Suc [0..<m]" by (simp add: m map_Suc_upt upt_conv_Cons)
  let ?at = "\<lambda>i. lf_buffer q ! ((h + i) mod 2 ^ k)"
  have ne: "?at i \<noteq> None" if "i < n" for i
    using ok that by (simp add: lf_ok_def k(2) h_def n_def)
  have x: "?at 0 = Some x" and xs: "xs = map (\<lambda>i. the (?at (Suc i))) [0..<m]"
    using l ne [of 0] m full by (auto simp: lf_list_def k(2) h_def n_def o_def)
  let ?q = "q\<lparr>lf_head := lf_head q + 1\<rparr>"
  have "lf_head q \<noteq> lf_tail q" using m by (auto simp: n_def)
  then have pop: "lf_pop q = Inr (Some x, ?q)"
    using x by (simp add: lf_pop_def Let_def idx h_def)
  have "lf_tail q - (lf_head q + 1) = of_nat n - 1" by (simp add: n_def)
  then have "lf_tail q - (lf_head q + 1) = of_nat m" by (simp add: m)
  moreover have "m < 2 ^ 64" using m unsigned_less [of "lf_tail q - lf_head q", where 'a = nat]
    by (simp add: n_def)
  ultimately have len: "unat (lf_tail q - (lf_head q + 1)) = m" by (simp add: unat_of_nat)
  have shift: "(unat (lf_head q + 1) + i) mod 2 ^ k = (h + Suc i) mod 2 ^ k" for i
  proof -
    have "unat (lf_head q + 1) mod 2 ^ k = (h + 1) mod 2 ^ k"
      using unat_add_mod_exp [OF k(1), of "lf_head q" 1] by (simp add: h_def)
    then have "(unat (lf_head q + 1) + i) mod 2 ^ k = (h + 1 + i) mod 2 ^ k"
      by (rule mod_add_cong) simp
    then show ?thesis by simp
  qed
  have "?at (Suc i) \<noteq> None" if "i < m" for i
    by (rule ne) (simp add: m that)
  then have "lf_ok ?q"
    using ok len m by (simp add: lf_ok_def k(2) shift n_def)
  moreover have "lf_list ?q = xs"
    using len xs by (simp add: lf_list_def k(2) shift)
  ultimately show ?thesis using pop by auto
qed

lemma lf_new_ok:
  assumes "lf_new n = Inr q" "n < 2 ^ 64"
  shows "lf_ok q" "lf_list q = []" "length (lf_buffer q) = n"
  using assms by (auto simp: lf_new_def lf_ok_def lf_list_def split: if_splits)

section \<open>The bounded FIFO contract\<close>

text \<open>
  What a client of the queue may rely on: a push appends unless the queue holds \<open>cap\<close>
  items, in which case it hands the item back; a pop takes the oldest item; neither
  faults. The reference run \<open>spec_ops\<close> executes a sequence of calls on a list.
\<close>

datatype 'a qop = Push 'a | Pop
datatype 'a qres = Pushed | Rejected 'a | Popped "'a option"

fun spec_ops :: "nat \<Rightarrow> 'a qop list \<Rightarrow> 'a list \<Rightarrow> 'a qres list \<times> 'a list" where
  "spec_ops cap [] xs = ([], xs)"
| "spec_ops cap (Push x # ops) xs =
     (if length xs < cap
      then (case spec_ops cap ops (xs @ [x]) of (rs, ys) \<Rightarrow> (Pushed # rs, ys))
      else (case spec_ops cap ops xs of (rs, ys) \<Rightarrow> (Rejected x # rs, ys)))"
| "spec_ops cap (Pop # ops) xs =
     (case xs of
        [] \<Rightarrow> (case spec_ops cap ops [] of (rs, ys) \<Rightarrow> (Popped None # rs, ys))
      | y # ys \<Rightarrow> (case spec_ops cap ops ys of (rs, zs) \<Rightarrow> (Popped (Some y) # rs, zs)))"

fun run_ops :: "('q \<Rightarrow> 'a \<Rightarrow> ('a + unit) \<times> 'q) \<Rightarrow> ('q \<Rightarrow> ('a option \<times> 'q) outcome) \<Rightarrow>
    'a qop list \<Rightarrow> 'q \<Rightarrow> ('a qres list \<times> 'q) outcome" where
  "run_ops push pop [] q = Inr ([], q)"
| "run_ops push pop (Push x # ops) q =
     (case push q x of (r, q') \<Rightarrow>
        (case run_ops push pop ops q' of
           Inl f \<Rightarrow> Inl f
         | Inr (rs, q'') \<Rightarrow>
             Inr ((case r of Inl y \<Rightarrow> Rejected y | Inr _ \<Rightarrow> Pushed) # rs, q'')))"
| "run_ops push pop (Pop # ops) q =
     (case pop q of
        Inl f \<Rightarrow> Inl f
      | Inr (r, q') \<Rightarrow>
          (case run_ops push pop ops q' of
             Inl f \<Rightarrow> Inl f
           | Inr (rs, q'') \<Rightarrow> Inr (Popped r # rs, q'')))"

locale bounded_fifo =
  fixes push :: "'q \<Rightarrow> 'a \<Rightarrow> ('a + unit) \<times> 'q"
    and pop :: "'q \<Rightarrow> ('a option \<times> 'q) outcome"
    and content :: "'q \<Rightarrow> 'a list"
    and ok :: "'q \<Rightarrow> bool"
    and cap :: "'q \<Rightarrow> nat"
  assumes push_room: "ok q \<Longrightarrow> length (content q) < cap q \<Longrightarrow>
      \<exists>q'. push q x = (Inr (), q') \<and> ok q' \<and> content q' = content q @ [x] \<and> cap q' = cap q"
    and push_full: "ok q \<Longrightarrow> length (content q) = cap q \<Longrightarrow> push q x = (Inl x, q)"
    and within_cap: "ok q \<Longrightarrow> length (content q) \<le> cap q"
    and pop_empty: "content q = [] \<Longrightarrow> pop q = Inr (None, q)"
    and pop_cons: "ok q \<Longrightarrow> content q = x # xs \<Longrightarrow>
      \<exists>q'. pop q = Inr (Some x, q') \<and> ok q' \<and> content q' = xs \<and> cap q' = cap q"
begin

lemma run_refines_spec:
  "ok q \<Longrightarrow> \<exists>q'. run_ops push pop ops q = Inr (fst (spec_ops (cap q) ops (content q)), q') \<and>
     ok q' \<and> content q' = snd (spec_ops (cap q) ops (content q)) \<and> cap q' = cap q"
proof (induction ops arbitrary: q)
  case (Cons op ops)
  show ?case
  proof (cases op)
    case (Push x)
    consider "length (content q) < cap q" | "length (content q) = cap q"
      using within_cap [OF \<open>ok q\<close>] by linarith
    then show ?thesis
    proof cases
      case 1
      with push_room [OF \<open>ok q\<close>] obtain q' where q': "push q x = (Inr (), q')" "ok q'"
        and c: "content q' = content q @ [x]" "cap q' = cap q" by blast
      from Cons.IH [OF q'(2)] obtain q'' where
        "run_ops push pop ops q' = Inr (fst (spec_ops (cap q) ops (content q @ [x])), q'')"
        "ok q''" "content q'' = snd (spec_ops (cap q) ops (content q @ [x]))" "cap q'' = cap q"
        unfolding c by blast
      with 1 q'(1) show ?thesis by (simp add: Push split_beta)
    next
      case 2
      from Cons.IH [OF \<open>ok q\<close>] 2 push_full [OF \<open>ok q\<close>, of x]
      show ?thesis by (auto simp: Push split_beta)
    qed
  next
    case Pop
    show ?thesis
    proof (cases "content q")
      case Nil
      with Cons.IH [OF \<open>ok q\<close>] pop_empty [of q] show ?thesis by (auto simp: Pop split_beta)
    next
      case c0: (Cons y ys)
      with pop_cons [OF \<open>ok q\<close>] obtain q' where q': "pop q = Inr (Some y, q')" "ok q'"
        and c: "content q' = ys" "cap q' = cap q" by blast
      from Cons.IH [OF q'(2)] obtain q'' where
        "run_ops push pop ops q' = Inr (fst (spec_ops (cap q) ops ys), q'')"
        "ok q''" "content q'' = snd (spec_ops (cap q) ops ys)" "cap q'' = cap q"
        unfolding c by blast
      with c0 q'(1) show ?thesis by (simp add: Pop split_beta)
    qed
  qed
qed simp

text \<open>Filling then draining returns the items in the order they were pushed.\<close>

lemma fill_drain:
  assumes "ok q" "content q = []" "length xs \<le> cap q"
  shows "\<exists>q'. run_ops push pop (map Push xs @ replicate (length xs) Pop) q =
    Inr (replicate (length xs) Pushed @ map (\<lambda>x. Popped (Some x)) xs, q')"
proof -
  have drain: "spec_ops c (replicate (length ys) Pop) ys = (map (\<lambda>x. Popped (Some x)) ys, [])"
    for c and ys :: "'a list"
    by (induction ys) simp_all
  have fill: "spec_ops c (map Push ys @ ops) zs =
      (replicate (length ys) Pushed @ fst (spec_ops c ops (zs @ ys)), snd (spec_ops c ops (zs @ ys)))"
    if "length zs + length ys \<le> c" for c ops and ys zs :: "'a list"
    using that by (induction ys arbitrary: zs) (auto simp: split_beta)
  show ?thesis
    using run_refines_spec [OF assms(1), of "map Push xs @ replicate (length xs) Pop"] assms
    by (auto simp: fill drain)
qed

end

lemma lf_within_cap: "lf_ok q \<Longrightarrow> length (lf_list q) \<le> length (lf_buffer q)"
  by (simp add: lf_ok_def lf_len_def)

interpretation lfq: bounded_fifo lf_push lf_pop lf_list lf_ok "\<lambda>q. length (lf_buffer q)"
  by unfold_locales (fact lf_push_ok lf_push_full lf_within_cap lf_pop_empty lf_pop_ok)+

section \<open>Properties\<close>

text \<open>C28: a queue in a well-formed state, at any position of its wrapping 64-bit indices,
  answers every sequence of \<open>push\<close> and \<open>pop\<close> calls exactly as a FIFO list of capacity \<open>N\<close>
  does: pushes are rejected with their item precisely when \<open>N\<close> items are stored, pops
  return the oldest item, no slot is read uninitialised, and the state stays well formed.\<close>

theorem lf_refines_fifo:
  assumes "lf_ok q"
  shows "\<exists>q'. run_ops lf_push lf_pop ops q =
      Inr (fst (spec_ops (length (lf_buffer q)) ops (lf_list q)), q') \<and> lf_ok q' \<and>
      lf_list q' = snd (spec_ops (length (lf_buffer q)) ops (lf_list q))"
  using lfq.run_refines_spec [OF assms] by blast

theorem lf_refines_fifo_witness:
  "\<exists>q'. run_ops lf_push lf_pop [Push 7, Push (8::nat), Push 9, Pop]
      \<lparr>lf_buffer = [None, None], lf_tail = - 1, lf_head = - 1\<rparr>
      = Inr ([Pushed, Pushed, Rejected 9, Popped (Some 7)], q')"
proof -
  let ?q = "\<lparr>lf_buffer = [None, None], lf_tail = - 1, lf_head = - 1\<rparr> :: nat lfqueue"
  have "lf_ok ?q" by (simp add: lf_ok_def is_power_of_two.simps)
  from lf_refines_fifo [OF this, of "[Push 7, Push 8, Push 9, Pop]"] show ?thesis
    by (auto simp: lf_list_def)
qed

text \<open>Dropping a well-formed queue terminates; it drops every remaining item once, in
  queue order, and leaves the queue empty.\<close>

lemma lf_drop_all:
  assumes "lf_ok q"
  shows "\<exists>q'. lf_drop q acc = Some (Inr (acc @ lf_list q, q')) \<and> lf_list q' = []"
  using assms
proof (induction "lf_list q" arbitrary: q acc)
  case Nil
  then show ?case by (subst lf_drop.simps) (simp add: lf_pop_empty)
next
  case (Cons x xs)
  then obtain q' where q': "lf_pop q = Inr (Some x, q')" "lf_ok q'" "lf_list q' = xs"
    using lf_pop_ok by metis
  with Cons(1) [of q' "acc @ [x]"] Cons(2) show ?case by (subst lf_drop.simps) force
qed

lemma lf_drop_all_witness:
  "\<exists>q'. lf_drop \<lparr>lf_buffer = [Some 5, Some (4::nat)], lf_tail = 1, lf_head = - 1\<rparr> [] =
     Some (Inr ([4, 5], q')) \<and> lf_list q' = []"
proof -
  let ?q = "\<lparr>lf_buffer = [Some 5, Some 4], lf_tail = 1, lf_head = - 1\<rparr> :: nat lfqueue"
  have m1: "unat (- 1 :: usize) = 18446744073709551615"
    by (simp add: unsigned_minus_1_eq_mask mask_eq_exp_minus_1)
  have ok: "lf_ok ?q"
    by (simp add: lf_ok_def is_power_of_two.simps less_2_cases_iff m1 all_conj_distrib
        flip: numeral_2_eq_2)
  have "lf_list ?q = [4, 5]" by (simp add: lf_list_def m1 upt_rec flip: numeral_2_eq_2)
  with lf_drop_all [OF ok, of "[]"] show ?thesis by simp
qed

end
