(* ===== verification/SPSC.thy ===== *)
theory SPSC
  imports LFQueue
begin

text \<open>
  Interleaved execution of the queue of \<open>common/src/lf_queue.rs\<close> by one producer and one
  consumer thread. Each step of the relation is one atomic access of the source: the
  loads of the two indices, the write or the read of the slot and the publishing store
  of the own index; between its accesses a thread holds the values it loaded in its
  program counter, so a loaded index of the other thread may be stale. Every load returns
  the latest store; \<open>AcqRel\<close> has the executions the memory orderings of the source allow, of
  which these are a part. Ghost fields record the items whose push completed and the slot
  contents that pops returned.
\<close>

section \<open>The model\<close>

datatype 'a producer =
    P_Idle
  | P_Tail 'a usize        \<comment> \<open>own tail loaded\<close>
  | P_Head 'a usize usize  \<comment> \<open>consumer's head loaded\<close>
  | P_Written 'a usize     \<comment> \<open>slot written, tail not yet published\<close>

datatype 'a consumer =
    C_Idle
  | C_Head usize             \<comment> \<open>own head loaded\<close>
  | C_Tail usize usize       \<comment> \<open>producer's tail loaded\<close>
  | C_Read "'a option" usize \<comment> \<open>slot read, head not yet published\<close>

record 'a spsc =
  queue :: "'a lfqueue"
  p_pc :: "'a producer"
  c_pc :: "'a consumer"
  pushed :: "'a list"
  popped :: "'a option list"

definition slot :: "'a lfqueue \<Rightarrow> usize \<Rightarrow> nat" where
  "slot q w = unat (w AND lf_MASK q)"

inductive spsc_step :: "'a spsc \<Rightarrow> 'a spsc \<Rightarrow> bool" where
  push_load_tail: "p_pc s = P_Idle \<Longrightarrow>
    spsc_step s (s\<lparr>p_pc := P_Tail x (lf_tail (queue s))\<rparr>)"
| push_load_head: "p_pc s = P_Tail x t \<Longrightarrow>
    spsc_step s (s\<lparr>p_pc := P_Head x t (lf_head (queue s))\<rparr>)"
| push_err: "p_pc s = P_Head x t h \<Longrightarrow> lf_N (queue s) \<le> t - h \<Longrightarrow>
    spsc_step s (s\<lparr>p_pc := P_Idle\<rparr>)"
| push_write: "p_pc s = P_Head x t h \<Longrightarrow> \<not> lf_N (queue s) \<le> t - h \<Longrightarrow>
    spsc_step s (s\<lparr>p_pc := P_Written x t,
      queue := (queue s)\<lparr>lf_buffer := (lf_buffer (queue s))[slot (queue s) t := Some x]\<rparr>\<rparr>)"
| push_publish: "p_pc s = P_Written x t \<Longrightarrow>
    spsc_step s (s\<lparr>p_pc := P_Idle, queue := (queue s)\<lparr>lf_tail := t + 1\<rparr>,
      pushed := pushed s @ [x]\<rparr>)"
| pop_load_head: "c_pc s = C_Idle \<Longrightarrow>
    spsc_step s (s\<lparr>c_pc := C_Head (lf_head (queue s))\<rparr>)"
| pop_load_tail: "c_pc s = C_Head h \<Longrightarrow>
    spsc_step s (s\<lparr>c_pc := C_Tail h (lf_tail (queue s))\<rparr>)"
| pop_none: "c_pc s = C_Tail h t \<Longrightarrow> h = t \<Longrightarrow>
    spsc_step s (s\<lparr>c_pc := C_Idle\<rparr>)"
| pop_read: "c_pc s = C_Tail h t \<Longrightarrow> h \<noteq> t \<Longrightarrow>
    spsc_step s (s\<lparr>c_pc := C_Read (lf_buffer (queue s) ! slot (queue s) h) h\<rparr>)"
| pop_publish: "c_pc s = C_Read v h \<Longrightarrow>
    spsc_step s (s\<lparr>c_pc := C_Idle, queue := (queue s)\<lparr>lf_head := h + 1\<rparr>,
      popped := popped s @ [v]\<rparr>)"

definition spsc_init :: "'a lfqueue \<Rightarrow> 'a spsc" where
  "spsc_init q = \<lparr>queue = q, p_pc = P_Idle, c_pc = C_Idle, pushed = [], popped = []\<rparr>"

inductive spsc_reachable :: "nat \<Rightarrow> 'a spsc \<Rightarrow> bool" for n where
  start: "lf_new n = Inr q \<Longrightarrow> spsc_reachable n (spsc_init q)"
| step: "spsc_reachable n s \<Longrightarrow> spsc_step s t \<Longrightarrow> spsc_reachable n t"

section \<open>The ownership invariant\<close>

text \<open>
  With \<open>p\<close> completed pushes and \<open>c\<close> completed pops, the indices are \<open>p\<close> and \<open>c\<close> modulo
  \<open>2 ^ 64\<close>, the slots of the items \<open>c, \<dots>, p - 1\<close> hold them, and whatever a thread has
  loaded is an older value of the other's counter.
\<close>

fun prod_inv :: "nat \<Rightarrow> nat \<Rightarrow> nat \<Rightarrow> 'a option list \<Rightarrow> 'a producer \<Rightarrow> bool" where
  "prod_inv n p c b P_Idle = True"
| "prod_inv n p c b (P_Tail x t) = (t = of_nat p)"
| "prod_inv n p c b (P_Head x t h) = (t = of_nat p \<and> (\<exists>c' \<le> c. h = of_nat c' \<and> p \<le> c' + n))"
| "prod_inv n p c b (P_Written x t) = (t = of_nat p \<and> p < c + n \<and> b ! (p mod n) = Some x)"

fun cons_inv :: "nat \<Rightarrow> nat \<Rightarrow> 'a list \<Rightarrow> 'a consumer \<Rightarrow> bool" where
  "cons_inv p c xs C_Idle = True"
| "cons_inv p c xs (C_Head h) = (h = of_nat c)"
| "cons_inv p c xs (C_Tail h t) = (h = of_nat c \<and> (\<exists>p' \<le> p. c \<le> p' \<and> t = of_nat p'))"
| "cons_inv p c xs (C_Read v h) = (h = of_nat c \<and> c < p \<and> v = Some (xs ! c))"

definition spsc_inv :: "nat \<Rightarrow> 'a spsc \<Rightarrow> bool" where
  "spsc_inv k s \<longleftrightarrow>
     (let q = queue s; p = length (pushed s); c = length (popped s) in
      k < 64 \<and> length (lf_buffer q) = 2 ^ k \<and>
      lf_tail q = of_nat p \<and> lf_head q = of_nat c \<and> c \<le> p \<and> p \<le> c + 2 ^ k \<and>
      popped s = map Some (take c (pushed s)) \<and>
      (\<forall>j. c \<le> j \<and> j < p \<longrightarrow> lf_buffer q ! (j mod 2 ^ k) = Some (pushed s ! j)) \<and>
      prod_inv (2 ^ k) p c (lf_buffer q) (p_pc s) \<and> cons_inv p c (pushed s) (c_pc s))"

text \<open>A step of one thread keeps what the other has loaded valid.\<close>

lemma prod_inv_pop: "prod_inv n p c b pc \<Longrightarrow> prod_inv n p (Suc c) b pc"
proof (cases pc)
  case (P_Head x t h)
  assume "prod_inv n p c b pc"
  with P_Head obtain c' where "t = of_nat p" "c' \<le> c" "h = of_nat c'" "p \<le> c' + n" by auto
  then have "c' \<le> Suc c \<and> h = of_nat c' \<and> p \<le> c' + n" by simp
  with \<open>t = of_nat p\<close> P_Head show ?thesis by (simp only: prod_inv.simps) blast
qed simp_all

lemma cons_inv_push: "cons_inv p c xs pc \<Longrightarrow> p = length xs \<Longrightarrow> cons_inv (Suc p) c (xs @ [x]) pc"
proof (cases pc)
  case (C_Tail h t)
  assume "cons_inv p c xs pc"
  with C_Tail obtain p' where "h = of_nat c" "p' \<le> p" "c \<le> p'" "t = of_nat p'" by auto
  then have "p' \<le> Suc p \<and> c \<le> p' \<and> t = of_nat p'" by simp
  with \<open>h = of_nat c\<close> C_Tail show ?thesis by (simp only: cons_inv.simps) blast
qed (simp_all add: nth_append)

lemma slot_of_nat:
  assumes "k < 64" "length (lf_buffer q) = 2 ^ k"
  shows "slot q (of_nat j) = j mod 2 ^ k"
  using unat_and_mask [OF assms(1), of "of_nat j"] unat_add_mod_exp [OF assms(1), of 0 j]
  by (simp add: slot_def lf_MASK_def lf_N_def assms(2))

lemma of_nat_diff_u64:
  assumes "a \<le> b" "b \<le> a + 2 ^ k" "k < 64"
  shows "unat (of_nat b - of_nat a :: usize) = b - a"
proof -
  have "b - a \<le> 2 ^ k" using assms by simp
  moreover have "(2::nat) ^ k < 2 ^ 64" using assms(3) by (rule power_strict_increasing) simp
  ultimately have "b - a < 2 ^ 64" by linarith
  moreover have "(of_nat b - of_nat a :: usize) = of_nat (b - a)" using assms(1) by (simp add: of_nat_diff)
  ultimately show ?thesis by (simp add: unat_of_nat)
qed

lemma mod_window:
  assumes "a < b" "b < a + n"
  shows "a mod n \<noteq> b mod (n::nat)"
proof
  assume "a mod n = b mod n"
  then have "(a + 0) mod n = (a + (b - a)) mod n" using assms by simp
  moreover have "0 < n" "b - a < n" using assms by linarith+
  ultimately have "0 = b - a" by (rule mod_add_cancel_bound)
  then show False using assms by simp
qed

lemma spsc_not_full:
  assumes inv: "spsc_inv k s" and p: "p_pc s = P_Head x t h" and "\<not> lf_N (queue s) \<le> t - h"
  shows "t = of_nat (length (pushed s))" "length (pushed s) < length (popped s) + 2 ^ k"
proof -
  let ?p = "length (pushed s)" and ?c = "length (popped s)"
  from inv p obtain c' where h: "t = of_nat ?p" "c' \<le> ?c" "h = of_nat c'" "?p \<le> c' + 2 ^ k"
    and k: "k < 64" "length (lf_buffer (queue s)) = 2 ^ k" "?c \<le> ?p"
    by (auto simp: spsc_inv_def Let_def)
  then have "unat (t - h) = ?p - c'" using of_nat_diff_u64 [of c' ?p k] by simp
  moreover have "unat (lf_N (queue s)) = 2 ^ k"
  proof -
    have "(2::nat) ^ k < 2 ^ 64" using k(1) by (rule power_strict_increasing) simp
    then show ?thesis unfolding lf_N_def k(2) by (subst unat_of_nat) simp
  qed
  ultimately have "?p - c' < 2 ^ k" using assms(3) by (simp add: word_le_nat_alt)
  with h show "t = of_nat ?p" "?p < ?c + 2 ^ k" by simp_all
qed

lemma spsc_not_empty:
  assumes inv: "spsc_inv k s" and c: "c_pc s = C_Tail h t" and "h \<noteq> t"
  shows "h = of_nat (length (popped s))" "length (popped s) < length (pushed s)"
proof -
  from inv c obtain p' where "h = of_nat (length (popped s))" "length (popped s) \<le> p'"
    "p' \<le> length (pushed s)" "t = of_nat p'"
    by (auto simp: spsc_inv_def Let_def)
  moreover from this \<open>h \<noteq> t\<close> have "p' \<noteq> length (popped s)" by auto
  ultimately show "h = of_nat (length (popped s))" "length (popped s) < length (pushed s)"
    by simp_all
qed

lemma spsc_inv_init:
  assumes "lf_new n = Inr q" "n < 2 ^ 64"
  shows "\<exists>k. n = 2 ^ k \<and> spsc_inv k (spsc_init q)"
proof -
  have "lf_ok q" "length (lf_buffer q) = n" using lf_new_ok [OF assms] by auto
  then obtain k where "k < 64" "n = 2 ^ k" using lf_okE [of q] by metis
  with assms show ?thesis
    by (auto simp: spsc_inv_def spsc_init_def lf_new_def Let_def split: if_splits)
qed

lemma spsc_inv_step: "spsc_step s t \<Longrightarrow> spsc_inv k s \<Longrightarrow> spsc_inv k t"
proof (induction rule: spsc_step.induct)
  case (push_load_tail s x)
  then show ?case by (simp add: spsc_inv_def Let_def)
next
  case (push_load_head s x t)
  then show ?case by (auto simp: spsc_inv_def Let_def)
next
  case (push_err s x t h)
  then show ?case by (simp add: spsc_inv_def Let_def)
next
  case (push_write s x t h)
  then have t: "t = of_nat (length (pushed s))"
    and room: "length (pushed s) < length (popped s) + 2 ^ k" by (auto dest: spsc_not_full)
  from push_write have k: "k < 64" "length (lf_buffer (queue s)) = 2 ^ k"
    by (auto simp: spsc_inv_def Let_def)
  have "length (pushed s) mod 2 ^ k \<noteq> j mod 2 ^ k"
    if "length (popped s) \<le> j" "j < length (pushed s)" for j
    using mod_window [of j "length (pushed s)" "2 ^ k"] that room by auto
  with push_write t room show ?case
    by (auto simp: spsc_inv_def Let_def slot_of_nat [OF k])
next
  case (push_publish s x t)
  then show ?case
    by (auto simp: spsc_inv_def Let_def nth_append less_Suc_eq intro: cons_inv_push)
next
  case (pop_load_head s)
  then show ?case by (simp add: spsc_inv_def Let_def)
next
  case (pop_load_tail s h)
  then show ?case by (auto simp: spsc_inv_def Let_def)
next
  case (pop_none s h t)
  then show ?case by (simp add: spsc_inv_def Let_def)
next
  case (pop_read s h t)
  then have h: "h = of_nat (length (popped s))" and ne: "length (popped s) < length (pushed s)"
    by (auto dest: spsc_not_empty)
  from pop_read have k: "k < 64" "length (lf_buffer (queue s)) = 2 ^ k"
    by (auto simp: spsc_inv_def Let_def)
  with pop_read h ne show ?case
    by (auto simp: spsc_inv_def Let_def slot_of_nat [OF k])
next
  case (pop_publish s v h)
  then show ?case
    by (auto simp: spsc_inv_def Let_def take_Suc_conv_app_nth intro: prod_inv_pop)
qed

lemma spsc_reachable_inv:
  "spsc_reachable n s \<Longrightarrow> n < 2 ^ 64 \<Longrightarrow> \<exists>k. n = 2 ^ k \<and> spsc_inv k s"
  by (induction rule: spsc_reachable.induct) (auto dest: spsc_inv_init intro: spsc_inv_step)

text \<open>
  The two models agree: an undisturbed call of the interleaved model is one call of the
  sequential one.
\<close>

lemma spsc_push_call:
  assumes r: "spsc_reachable n s" and i: "p_pc s = P_Idle"
    and call: "lf_push (queue s) x = (Inr (), q')"
  shows "spsc_reachable n (s\<lparr>queue := q', pushed := pushed s @ [x]\<rparr>)"
proof -
  let ?t = "lf_tail (queue s)" and ?h = "lf_head (queue s)"
  have room: "\<not> lf_N (queue s) \<le> ?t - ?h"
    and q': "q' = (queue s)\<lparr>lf_buffer := (lf_buffer (queue s))[slot (queue s) ?t := Some x],
      lf_tail := ?t + 1\<rparr>"
    using call by (auto simp: lf_push_def Let_def slot_def split: if_splits)
  let ?s1 = "s\<lparr>p_pc := P_Tail x ?t\<rparr>" and ?s2 = "s\<lparr>p_pc := P_Head x ?t ?h\<rparr>"
  let ?s3 = "s\<lparr>p_pc := P_Written x ?t, queue := (queue s)
    \<lparr>lf_buffer := (lf_buffer (queue s))[slot (queue s) ?t := Some x]\<rparr>\<rparr>"
  have "spsc_step s ?s1" using spsc_step.push_load_tail [OF i, of x] .
  moreover have "spsc_step ?s1 ?s2" using spsc_step.push_load_head [of ?s1 x ?t] by simp
  moreover have "spsc_step ?s2 ?s3" using spsc_step.push_write [of ?s2 x ?t ?h] room by simp
  moreover have "spsc_step ?s3 (s\<lparr>queue := q', pushed := pushed s @ [x]\<rparr>)"
    using spsc_step.push_publish [of ?s3 x ?t] i q' by (cases s) simp
  ultimately show ?thesis using r by (blast intro: spsc_reachable.step)
qed

lemma spsc_pop_call:
  assumes r: "spsc_reachable n s" and i: "c_pc s = C_Idle"
    and call: "lf_pop (queue s) = Inr (Some x, q')"
  shows "spsc_reachable n (s\<lparr>queue := q', popped := popped s @ [Some x]\<rparr>)"
proof -
  let ?t = "lf_tail (queue s)" and ?h = "lf_head (queue s)"
  have ne: "?h \<noteq> ?t" and x: "lf_buffer (queue s) ! slot (queue s) ?h = Some x"
    and q': "q' = (queue s)\<lparr>lf_head := ?h + 1\<rparr>"
    using call by (auto simp: lf_pop_def Let_def slot_def split: if_splits option.splits)
  let ?s1 = "s\<lparr>c_pc := C_Head ?h\<rparr>" and ?s2 = "s\<lparr>c_pc := C_Tail ?h ?t\<rparr>"
  let ?s3 = "s\<lparr>c_pc := C_Read (Some x) ?h\<rparr>"
  have "spsc_step s ?s1" using spsc_step.pop_load_head [OF i] .
  moreover have "spsc_step ?s1 ?s2" using spsc_step.pop_load_tail [of ?s1 ?h] by simp
  moreover have "spsc_step ?s2 ?s3" using spsc_step.pop_read [of ?s2 ?h ?t] ne x by simp
  moreover have "spsc_step ?s3 (s\<lparr>queue := q', popped := popped s @ [Some x]\<rparr>)"
    using spsc_step.pop_publish [of ?s3 "Some x" ?h] i q' by (cases s) simp
  ultimately show ?thesis using r by (blast intro: spsc_reachable.step)
qed

section \<open>Properties\<close>

text \<open>In every interleaving of one producer and one consumer, the consumer has received
  exactly the first items the producer completed pushing, in order, without loss,
  duplication or a read of an uninitialised slot; and at most \<open>N\<close> items are in flight.\<close>

theorem spsc_fifo:
  assumes "spsc_reachable n s" "n < 2 ^ 64"
  shows "popped s = map Some (take (length (popped s)) (pushed s)) \<and>
    length (popped s) \<le> length (pushed s) \<and> length (pushed s) \<le> length (popped s) + n"
  using spsc_reachable_inv [OF assms] by (auto simp: spsc_inv_def Let_def)

theorem spsc_fifo_witness:
  "\<exists>s. spsc_reachable 2 s \<and> pushed s = [4, 6::nat] \<and> popped s = [Some 4] \<and>
    popped s = map Some (take (length (popped s)) (pushed s))"
proof -
  let ?q0 = "\<lparr>lf_buffer = [None, None], lf_tail = 0, lf_head = 0\<rparr> :: nat lfqueue"
  let ?q1 = "?q0\<lparr>lf_buffer := [Some 4, None], lf_tail := 1\<rparr>"
  let ?q2 = "?q1\<lparr>lf_buffer := [Some 4, Some 6], lf_tail := 2\<rparr>"
  let ?q3 = "?q2\<lparr>lf_head := 1\<rparr>"
  note ev = lf_push_def lf_pop_def lf_N_def lf_MASK_def Let_def word_le_nat_alt
  have "lf_new 2 = Inr ?q0" by (simp add: lf_new_def is_power_of_two.simps numeral_2_eq_2)
  then have r0: "spsc_reachable 2 (spsc_init ?q0)" by (rule spsc_reachable.start)
  have r1: "spsc_reachable 2 ((spsc_init ?q0)\<lparr>queue := ?q1, pushed := [4]\<rparr>)"
    using spsc_push_call [OF r0, of 4 ?q1] by (simp add: spsc_init_def ev)
  have r2: "spsc_reachable 2 ((spsc_init ?q0)\<lparr>queue := ?q2, pushed := [4, 6]\<rparr>)"
    using spsc_push_call [OF r1, of 6 ?q2] by (simp add: spsc_init_def ev)
  have r3: "spsc_reachable 2 ((spsc_init ?q0)\<lparr>queue := ?q3, pushed := [4, 6], popped := [Some 4]\<rparr>)"
    using spsc_pop_call [OF r2, of 4 ?q3] by (simp add: spsc_init_def ev)
  from spsc_fifo [OF r3] r3 show ?thesis by (intro exI conjI) auto
qed

text \<open>The unsynchronised slot accesses never race: whenever the producer is about to
  write a slot while the consumer is about to read one, they are different slots, and the
  slot about to be read holds the next item in order.\<close>

theorem spsc_race_free:
  assumes "spsc_reachable n s" "n < 2 ^ 64"
    and "p_pc s = P_Head x t h" "\<not> lf_N (queue s) \<le> t - h"
    and "c_pc s = C_Tail h' t'" "h' \<noteq> t'"
  shows "slot (queue s) t \<noteq> slot (queue s) h' \<and>
    lf_buffer (queue s) ! slot (queue s) h' = Some (pushed s ! length (popped s))"
proof -
  obtain k where inv: "spsc_inv k s" using spsc_reachable_inv [OF assms(1,2)] by blast
  then have k: "k < 64" "length (lf_buffer (queue s)) = 2 ^ k"
    by (auto simp: spsc_inv_def Let_def)
  note nf = spsc_not_full [OF inv assms(3,4)] and ne = spsc_not_empty [OF inv assms(5,6)]
  have "length (popped s) mod 2 ^ k \<noteq> length (pushed s) mod 2 ^ k"
    using nf(2) ne(2) by (intro mod_window)
  moreover have "lf_buffer (queue s) ! (length (popped s) mod 2 ^ k) = Some (pushed s ! length (popped s))"
    using inv ne(2) by (simp add: spsc_inv_def Let_def)
  ultimately show ?thesis
    unfolding nf(1) ne(1) slot_of_nat [OF k] by simp
qed

theorem spsc_race_free_witness:
  "\<exists>s x t h h' t'. spsc_reachable 2 s \<and> p_pc s = P_Head (x::nat) t h \<and>
    c_pc s = C_Tail h' t' \<and> slot (queue s) t \<noteq> slot (queue s) h'"
proof -
  let ?q0 = "\<lparr>lf_buffer = [None, None], lf_tail = 0, lf_head = 0\<rparr> :: nat lfqueue"
  let ?q1 = "?q0\<lparr>lf_buffer := [Some 4, None], lf_tail := 1\<rparr>"
  let ?s1 = "(spsc_init ?q0)\<lparr>queue := ?q1, pushed := [4]\<rparr>"
  let ?s2 = "?s1\<lparr>p_pc := P_Tail 5 1\<rparr>" and ?s3 = "?s1\<lparr>p_pc := P_Head 5 1 0\<rparr>"
  let ?s4 = "?s3\<lparr>c_pc := C_Head 0\<rparr>" and ?s5 = "?s3\<lparr>c_pc := C_Tail 0 1\<rparr>"
  note ev = lf_push_def lf_pop_def lf_N_def lf_MASK_def Let_def word_le_nat_alt
  have "lf_new 2 = Inr ?q0" by (simp add: lf_new_def is_power_of_two.simps numeral_2_eq_2)
  then have r0: "spsc_reachable 2 (spsc_init ?q0)" by (rule spsc_reachable.start)
  have "spsc_reachable 2 ?s1"
    using spsc_push_call [OF r0, of 4 ?q1] by (simp add: spsc_init_def ev)
  moreover have "spsc_step ?s1 ?s2"
    using spsc_step.push_load_tail [of ?s1 5] by (simp add: spsc_init_def)
  moreover have "spsc_step ?s2 ?s3"
    using spsc_step.push_load_head [of ?s2 5 1] by (simp add: spsc_init_def)
  moreover have "spsc_step ?s3 ?s4"
    using spsc_step.pop_load_head [of ?s3] by (simp add: spsc_init_def)
  moreover have "spsc_step ?s4 ?s5"
    using spsc_step.pop_load_tail [of ?s4 0] by (simp add: spsc_init_def)
  ultimately have r5: "spsc_reachable 2 ?s5" by (blast intro: spsc_reachable.step)
  have "slot (queue ?s5) 1 \<noteq> slot (queue ?s5) 0 \<and>
      lf_buffer (queue ?s5) ! slot (queue ?s5) 0 = Some (pushed ?s5 ! length (popped ?s5))"
    by (rule spsc_race_free [OF r5, of 5 1 0 0 1]) (simp_all add: lf_N_def word_le_nat_alt)
  with r5 show ?thesis by (intro exI [of _ ?s5] exI conjI) auto
qed

end
