(* ===== verification/AcqRel.thy ===== *)
theory AcqRel
  imports SPSC
begin

text \<open>
  The queue of \<open>common/src/lf_queue.rs\<close> under the memory orderings the source writes down. The
  memory is that of release/acquire atomics with views: an atomic location keeps the history of its
  stores, a load may return any entry not older than the last one its thread has seen, a release
  store attaches what its thread knows, and an acquire load of that entry learns it. The slots of the
  buffer are plain memory: every access is stamped, and an access that is not ordered after the
  conflicting ones by what its thread knows is a data race, which the state records. Every index has
  one writer, so a store always comes last in the history. The step relation takes the orderings as
  an argument; \<open>code_orderings\<close> are those of the source.
\<close>

section \<open>Views, atomics and plain cells\<close>

datatype thread = Producer | Consumer

datatype atomic = Tail | Head

datatype ordering = Relaxed | Acquire | Release

text \<open>What a thread knows: how many plain accesses of each thread happened before, and how far it has
  seen each location's history.\<close>

record view =
  v_clock :: "thread \<Rightarrow> nat"
  v_pos :: "atomic \<Rightarrow> nat"

definition view_join :: "view \<Rightarrow> view \<Rightarrow> view" where
  "view_join a b =
     \<lparr>v_clock = (\<lambda>th. max (v_clock a th) (v_clock b th)), v_pos = (\<lambda>l. max (v_pos a l) (v_pos b l))\<rparr>"

definition view_bot :: view where
  "view_bot = \<lparr>v_clock = (\<lambda>_. 0), v_pos = (\<lambda>_. 0)\<rparr>"

record message =
  m_val :: usize
  m_view :: view

text \<open>The stamp of the last write of a cell and, for each thread, of its last read (0 for none).\<close>

record 'a cell =
  c_val :: "'a option"
  c_write :: "(thread \<times> nat) option"
  c_reads :: "thread \<Rightarrow> nat"

record 'a memory =
  m_hist :: "atomic \<Rightarrow> message list"
  m_cells :: "'a cell list"
  m_views :: "thread \<Rightarrow> view"
  m_race :: bool

definition atomic_load :: "thread \<Rightarrow> atomic \<Rightarrow> ordering \<Rightarrow> nat \<Rightarrow> 'a memory \<Rightarrow> (usize \<times> 'a memory) option" where
  "atomic_load th l ord i m =
     (let v = m_views m th in
      if v_pos v l \<le> i \<and> i < length (m_hist m l)
      then let msg = m_hist m l ! i;
               v = v\<lparr>v_pos := (v_pos v)(l := i)\<rparr>;
               v = (if ord = Acquire then view_join v (m_view msg) else v)
           in Some (m_val msg, m\<lparr>m_views := (m_views m)(th := v)\<rparr>)
      else None)"

definition atomic_store :: "thread \<Rightarrow> atomic \<Rightarrow> ordering \<Rightarrow> usize \<Rightarrow> 'a memory \<Rightarrow> 'a memory" where
  "atomic_store th l ord w m =
     (let v = m_views m th; n = length (m_hist m l);
          v = v\<lparr>v_pos := (v_pos v)(l := n)\<rparr>;
          known = (if ord = Release then v else view_bot\<lparr>v_pos := (v_pos view_bot)(l := n)\<rparr>)
      in m\<lparr>m_hist := (m_hist m)(l := m_hist m l @ [\<lparr>m_val = w, m_view = known\<rparr>]),
           m_views := (m_views m)(th := v)\<rparr>)"

definition write_seen :: "view \<Rightarrow> 'a cell \<Rightarrow> bool" where
  "write_seen v c \<longleftrightarrow> (case c_write c of None \<Rightarrow> True | Some (th, n) \<Rightarrow> n \<le> v_clock v th)"

definition reads_seen :: "view \<Rightarrow> 'a cell \<Rightarrow> bool" where
  "reads_seen v c \<longleftrightarrow> c_reads c Producer \<le> v_clock v Producer \<and> c_reads c Consumer \<le> v_clock v Consumer"

text \<open>Every plain access ticks the clock of its thread.\<close>

definition tick :: "thread \<Rightarrow> view \<Rightarrow> view" where
  "tick th v = v\<lparr>v_clock := (v_clock v)(th := Suc (v_clock v th))\<rparr>"

definition cell_write :: "thread \<Rightarrow> nat \<Rightarrow> 'a \<Rightarrow> 'a memory \<Rightarrow> 'a memory" where
  "cell_write th i x m =
     (let v = m_views m th; c = m_cells m ! i in
      m\<lparr>m_cells := (m_cells m)[i := c\<lparr>c_val := Some x, c_write := Some (th, v_clock (tick th v) th)\<rparr>],
        m_views := (m_views m)(th := tick th v),
        m_race := (m_race m \<or> \<not> (write_seen v c \<and> reads_seen v c))\<rparr>)"

definition cell_read :: "thread \<Rightarrow> nat \<Rightarrow> 'a memory \<Rightarrow> 'a option \<times> 'a memory" where
  "cell_read th i m =
     (let v = m_views m th; c = m_cells m ! i in
      (c_val c,
       m\<lparr>m_cells := (m_cells m)[i := c\<lparr>c_reads := (c_reads c)(th := v_clock (tick th v) th)\<rparr>],
         m_views := (m_views m)(th := tick th v),
         m_race := (m_race m \<or> \<not> write_seen v c)\<rparr>))"

section \<open>The queue\<close>

record orderings =
  o_push_tail :: ordering
  o_push_head :: ordering
  o_push_publish :: ordering
  o_pop_head :: ordering
  o_pop_tail :: ordering
  o_pop_publish :: ordering

definition code_orderings :: orderings where
  "code_orderings =
     \<lparr>o_push_tail = Relaxed, o_push_head = Acquire, o_push_publish = Release,
      o_pop_head = Relaxed, o_pop_tail = Acquire, o_pop_publish = Release\<rparr>"

record 'a aqueue =
  a_mem :: "'a memory"
  a_prod :: "'a producer"
  a_cons :: "'a consumer"
  a_pushed :: "'a list"
  a_popped :: "'a option list"

definition a_N :: "'a aqueue \<Rightarrow> usize" where
  "a_N s = of_nat (length (m_cells (a_mem s)))"

definition a_slot :: "'a aqueue \<Rightarrow> usize \<Rightarrow> nat" where
  "a_slot s w = unat (w AND (a_N s - 1))"

inductive ra_step :: "orderings \<Rightarrow> 'a aqueue \<Rightarrow> 'a aqueue \<Rightarrow> bool" for ord where
  push_load_tail: "a_prod s = P_Idle \<Longrightarrow> atomic_load Producer Tail (o_push_tail ord) i (a_mem s) = Some (t, m) \<Longrightarrow>
    ra_step ord s (s\<lparr>a_mem := m, a_prod := P_Tail x t\<rparr>)"
| push_load_head: "a_prod s = P_Tail x t \<Longrightarrow> atomic_load Producer Head (o_push_head ord) i (a_mem s) = Some (h, m) \<Longrightarrow>
    ra_step ord s (s\<lparr>a_mem := m, a_prod := P_Head x t h\<rparr>)"
| push_err: "a_prod s = P_Head x t h \<Longrightarrow> a_N s \<le> t - h \<Longrightarrow> ra_step ord s (s\<lparr>a_prod := P_Idle\<rparr>)"
| push_write: "a_prod s = P_Head x t h \<Longrightarrow> \<not> a_N s \<le> t - h \<Longrightarrow>
    ra_step ord s (s\<lparr>a_mem := cell_write Producer (a_slot s t) x (a_mem s), a_prod := P_Written x t\<rparr>)"
| push_publish: "a_prod s = P_Written x t \<Longrightarrow>
    ra_step ord s (s\<lparr>a_mem := atomic_store Producer Tail (o_push_publish ord) (t + 1) (a_mem s), a_prod := P_Idle,
      a_pushed := a_pushed s @ [x]\<rparr>)"
| pop_load_head: "a_cons s = C_Idle \<Longrightarrow> atomic_load Consumer Head (o_pop_head ord) i (a_mem s) = Some (h, m) \<Longrightarrow>
    ra_step ord s (s\<lparr>a_mem := m, a_cons := C_Head h\<rparr>)"
| pop_load_tail: "a_cons s = C_Head h \<Longrightarrow> atomic_load Consumer Tail (o_pop_tail ord) i (a_mem s) = Some (t, m) \<Longrightarrow>
    ra_step ord s (s\<lparr>a_mem := m, a_cons := C_Tail h t\<rparr>)"
| pop_none: "a_cons s = C_Tail h t \<Longrightarrow> h = t \<Longrightarrow> ra_step ord s (s\<lparr>a_cons := C_Idle\<rparr>)"
| pop_read: "a_cons s = C_Tail h t \<Longrightarrow> h \<noteq> t \<Longrightarrow> cell_read Consumer (a_slot s h) (a_mem s) = (v, m) \<Longrightarrow>
    ra_step ord s (s\<lparr>a_mem := m, a_cons := C_Read v h\<rparr>)"
| pop_publish: "a_cons s = C_Read v h \<Longrightarrow>
    ra_step ord s (s\<lparr>a_mem := atomic_store Consumer Head (o_pop_publish ord) (h + 1) (a_mem s), a_cons := C_Idle,
      a_popped := a_popped s @ [v]\<rparr>)"

text \<open>A new queue: no slot was written, both indices were initialised to zero before any thread ran.\<close>

definition empty_cell :: "'a cell" where
  "empty_cell = \<lparr>c_val = None, c_write = None, c_reads = (\<lambda>_. 0)\<rparr>"

definition ra_init :: "'a lfqueue \<Rightarrow> 'a aqueue" where
  "ra_init q =
     \<lparr>a_mem = \<lparr>m_hist = (\<lambda>l. [\<lparr>m_val = (case l of Tail \<Rightarrow> lf_tail q | Head \<Rightarrow> lf_head q), m_view = view_bot\<rparr>]),
               m_cells = replicate (length (lf_buffer q)) empty_cell, m_views = (\<lambda>_. view_bot), m_race = False\<rparr>,
      a_prod = P_Idle, a_cons = C_Idle, a_pushed = [], a_popped = []\<rparr>"

inductive ra_reachable :: "orderings \<Rightarrow> nat \<Rightarrow> 'a aqueue \<Rightarrow> bool" for ord n where
  start: "lf_new n = Inr q \<Longrightarrow> ra_reachable ord n (ra_init q)"
| step: "ra_reachable ord n s \<Longrightarrow> ra_step ord s t \<Longrightarrow> ra_reachable ord n t"

section \<open>The invariant\<close>

text \<open>
  With \<open>w\<close> slot writes, \<open>r\<close> slot reads, \<open>p\<close> completed pushes and \<open>c\<close> completed pops: nobody knows
  more than happened, and who has seen an index has also seen the accesses it stands for.
\<close>

definition view_ok :: "nat \<Rightarrow> nat \<Rightarrow> nat \<Rightarrow> nat \<Rightarrow> view \<Rightarrow> bool" where
  "view_ok w r p c v \<longleftrightarrow>
     v_clock v Producer \<le> w \<and> v_clock v Consumer \<le> r \<and> v_pos v Tail \<le> p \<and> v_pos v Head \<le> c \<and>
     v_pos v Tail \<le> v_clock v Producer \<and> v_pos v Head \<le> v_clock v Consumer"

definition hist_ok :: "nat \<Rightarrow> nat \<Rightarrow> nat \<Rightarrow> nat \<Rightarrow> atomic \<Rightarrow> nat \<Rightarrow> message list \<Rightarrow> bool" where
  "hist_ok w r p c l n h \<longleftrightarrow>
     length h = Suc n \<and>
     (\<forall>i \<le> n. m_val (h ! i) = of_nat i \<and> v_pos (m_view (h ! i)) l = i \<and> view_ok w r p c (m_view (h ! i)))"

definition stamp_ok :: "nat \<Rightarrow> nat \<Rightarrow> nat \<Rightarrow> nat \<Rightarrow> 'a cell \<Rightarrow> bool" where
  "stamp_ok N w r i c \<longleftrightarrow>
     (\<forall>th n. c_write c = Some (th, n) \<longrightarrow> th = Producer \<and> (\<exists>j < w. j mod N = i \<and> n = Suc j)) \<and>
     c_reads c Producer = 0 \<and> (c_reads c Consumer = 0 \<or> (\<exists>j < r. j mod N = i \<and> c_reads c Consumer = Suc j))"

definition writes :: "'a aqueue \<Rightarrow> nat" where
  "writes s = length (a_pushed s) + (case a_prod s of P_Written _ _ \<Rightarrow> 1 | _ \<Rightarrow> 0)"

definition reads :: "'a aqueue \<Rightarrow> nat" where
  "reads s = length (a_popped s) + (case a_cons s of C_Read _ _ \<Rightarrow> 1 | _ \<Rightarrow> 0)"

fun a_prod_ok :: "nat \<Rightarrow> nat \<Rightarrow> nat \<Rightarrow> 'a cell list \<Rightarrow> 'a producer \<Rightarrow> bool" where
  "a_prod_ok N p seen cells P_Idle = True"
| "a_prod_ok N p seen cells (P_Tail x t) = (t = of_nat p)"
| "a_prod_ok N p seen cells (P_Head x t h) = (t = of_nat p \<and> h = of_nat seen)"
| "a_prod_ok N p seen cells (P_Written x t) = (t = of_nat p \<and> p < seen + N \<and> c_val (cells ! (p mod N)) = Some x)"

fun a_cons_ok :: "nat \<Rightarrow> nat \<Rightarrow> 'a list \<Rightarrow> 'a consumer \<Rightarrow> bool" where
  "a_cons_ok c seen xs C_Idle = True"
| "a_cons_ok c seen xs (C_Head h) = (h = of_nat c)"
| "a_cons_ok c seen xs (C_Tail h t) = (h = of_nat c \<and> t = of_nat seen)"
| "a_cons_ok c seen xs (C_Read v h) = (h = of_nat c \<and> c < seen \<and> v = Some (xs ! c))"

text \<open>The part about the memory, for given counters, and the part about the threads.\<close>

definition mem_ok :: "nat \<Rightarrow> nat \<Rightarrow> nat \<Rightarrow> 'a list \<Rightarrow> nat \<Rightarrow> 'a memory \<Rightarrow> bool" where
  "mem_ok N w r xs c m \<longleftrightarrow>
     (let p = length xs; vp = m_views m Producer; vc = m_views m Consumer in
      length (m_cells m) = N \<and> \<not> m_race m \<and>
      hist_ok w r p c Tail p (m_hist m Tail) \<and> hist_ok w r p c Head c (m_hist m Head) \<and>
      view_ok w r p c vp \<and> v_clock vp Producer = w \<and> v_pos vp Tail = p \<and> p \<le> v_pos vp Head + N \<and>
      view_ok w r p c vc \<and> v_clock vc Consumer = r \<and> v_pos vc Head = c \<and> c \<le> v_pos vc Tail \<and>
      (\<forall>j. c \<le> j \<and> j < p \<longrightarrow> c_val (m_cells m ! (j mod N)) = Some (xs ! j)) \<and>
      (\<forall>i < N. stamp_ok N w r i (m_cells m ! i)))"

definition ra_inv :: "nat \<Rightarrow> 'a aqueue \<Rightarrow> bool" where
  "ra_inv k s \<longleftrightarrow>
     (let p = length (a_pushed s); c = length (a_popped s); m = a_mem s in
      k < 64 \<and> mem_ok (2 ^ k) (writes s) (reads s) (a_pushed s) c m \<and>
      a_popped s = map Some (take c (a_pushed s)) \<and>
      a_prod_ok (2 ^ k) p (v_pos (m_views m Producer) Head) (m_cells m) (a_prod s) \<and>
      a_cons_ok c (v_pos (m_views m Consumer) Tail) (a_pushed s) (a_cons s))"

subsection \<open>The accesses keep the memory in order\<close>

lemma view_ok_mono:
  "view_ok w r p c v \<Longrightarrow> w \<le> w' \<Longrightarrow> r \<le> r' \<Longrightarrow> p \<le> p' \<Longrightarrow> c \<le> c' \<Longrightarrow> view_ok w' r' p' c' v"
  by (auto simp: view_ok_def)

lemma view_ok_join: "view_ok w r p c a \<Longrightarrow> view_ok w r p c b \<Longrightarrow> view_ok w r p c (view_join a b)"
  by (auto simp: view_ok_def view_join_def)

lemma hist_ok_mono:
  "hist_ok w r p c l n h \<Longrightarrow> w \<le> w' \<Longrightarrow> r \<le> r' \<Longrightarrow> p \<le> p' \<Longrightarrow> c \<le> c' \<Longrightarrow> hist_ok w' r' p' c' l n h"
  by (auto simp: hist_ok_def intro: view_ok_mono)

lemma hist_ok_snoc:
  assumes "hist_ok w r p c l n h" "view_ok w r p c v" "v_pos v l = Suc n"
  shows "hist_ok w r p c l (Suc n) (h @ [\<lparr>m_val = of_nat (Suc n), m_view = v\<rparr>])"
  using assms by (auto simp: hist_ok_def nth_append le_Suc_eq)

lemma stamp_ok_mono: "stamp_ok N w r i c \<Longrightarrow> w \<le> w' \<Longrightarrow> r \<le> r' \<Longrightarrow> stamp_ok N w' r' i c"
  by (fastforce simp: stamp_ok_def)

lemmas mono_rules = view_ok_mono hist_ok_mono stamp_ok_mono

lemma load_own_tail:
  assumes "mem_ok N w r xs c m" "atomic_load Producer Tail Relaxed i m = Some (t, m')"
  shows "t = of_nat (length xs) \<and> m' = m"
  using assms by (auto simp: mem_ok_def atomic_load_def hist_ok_def Let_def less_Suc_eq_le fun_upd_idem split: if_splits)

lemma load_own_head:
  assumes "mem_ok N w r xs c m" "atomic_load Consumer Head Relaxed i m = Some (h, m')"
  shows "h = of_nat c \<and> m' = m"
  using assms by (auto simp: mem_ok_def atomic_load_def hist_ok_def Let_def less_Suc_eq_le fun_upd_idem split: if_splits)

text \<open>An acquire load moves the own view to the entry it read.\<close>

lemma acquire_view:
  assumes "hist_ok w r p c l n h" "view_ok w r p c v" "v_pos v l \<le> i" "i \<le> n"
    and "v' = view_join (v\<lparr>v_pos := (v_pos v)(l := i)\<rparr>) (m_view (h ! i))"
  shows "view_ok w r p c v'" "v_pos v' l = i" "\<And>l'. v_pos v l' \<le> v_pos v' l'" "\<And>th. v_clock v th \<le> v_clock v' th"
proof -
  have m: "view_ok w r p c (m_view (h ! i))" "v_pos (m_view (h ! i)) l = i" using assms(1,4) by (auto simp: hist_ok_def)
  then show "v_pos v' l = i" "\<And>l'. v_pos v l' \<le> v_pos v' l'" "\<And>th. v_clock v th \<le> v_clock v' th"
    using assms(3) by (auto simp: assms(5) view_join_def)
  show "view_ok w r p c v'"
    using m assms(2) by (cases l) (auto simp: assms(5) view_ok_def view_join_def)
qed

lemma load_head:
  assumes ok: "mem_ok N w r xs c m" and load: "atomic_load Producer Head Acquire i m = Some (h, m')"
  shows "h = of_nat i" "m_cells m' = m_cells m" "m_views m' Consumer = m_views m Consumer"
    "v_pos (m_views m' Producer) Head = i" "mem_ok N w r xs c m'"
proof -
  let ?v = "m_views m Producer" and ?v' = "m_views m' Producer"
  have i: "v_pos ?v Head \<le> i" "i \<le> c" and h: "h = m_val (m_hist m Head ! i)"
    and m': "m' = m\<lparr>m_views := (m_views m)(Producer := ?v')\<rparr>"
    and v': "?v' = view_join (?v\<lparr>v_pos := (v_pos ?v)(Head := i)\<rparr>) (m_view (m_hist m Head ! i))"
    using ok load by (auto simp: atomic_load_def mem_ok_def hist_ok_def Let_def split: if_splits)
  have hist: "hist_ok w r (length xs) c Head c (m_hist m Head)" and v: "view_ok w r (length xs) c ?v"
    using ok by (simp_all add: mem_ok_def Let_def)
  note A = acquire_view [OF hist v i v']
  show "h = of_nat i" using hist i h by (simp add: hist_ok_def)
  show "m_cells m' = m_cells m" "m_views m' Consumer = m_views m Consumer" by (subst m'; simp)+
  show "v_pos ?v' Head = i" by (rule A(2))
  have "v_clock ?v' Producer = w" "v_pos ?v' Tail = length xs"
    using A(1) A(3) [of Tail] A(4) [of Producer] ok by (auto simp: mem_ok_def view_ok_def Let_def intro: le_antisym)
  with A i ok show "mem_ok N w r xs c m'" by (subst m') (auto simp: mem_ok_def Let_def)
qed

lemma load_tail:
  assumes ok: "mem_ok N w r xs c m" and load: "atomic_load Consumer Tail Acquire i m = Some (t, m')"
  shows "t = of_nat i" "m_cells m' = m_cells m" "m_views m' Producer = m_views m Producer"
    "v_pos (m_views m' Consumer) Tail = i" "mem_ok N w r xs c m'"
proof -
  let ?v = "m_views m Consumer" and ?v' = "m_views m' Consumer"
  have i: "v_pos ?v Tail \<le> i" "i \<le> length xs" and t: "t = m_val (m_hist m Tail ! i)"
    and m': "m' = m\<lparr>m_views := (m_views m)(Consumer := ?v')\<rparr>"
    and v': "?v' = view_join (?v\<lparr>v_pos := (v_pos ?v)(Tail := i)\<rparr>) (m_view (m_hist m Tail ! i))"
    using ok load by (auto simp: atomic_load_def mem_ok_def hist_ok_def Let_def split: if_splits)
  have hist: "hist_ok w r (length xs) c Tail (length xs) (m_hist m Tail)" and v: "view_ok w r (length xs) c ?v"
    using ok by (simp_all add: mem_ok_def Let_def)
  note A = acquire_view [OF hist v i v']
  show "t = of_nat i" using hist i t by (simp add: hist_ok_def)
  show "m_cells m' = m_cells m" "m_views m' Producer = m_views m Producer" by (subst m'; simp)+
  show "v_pos ?v' Tail = i" by (rule A(2))
  have "v_clock ?v' Consumer = r" "v_pos ?v' Head = c"
    using A(1) A(3) [of Head] A(4) [of Consumer] ok by (auto simp: mem_ok_def view_ok_def Let_def intro: le_antisym)
  with A i ok show "mem_ok N w r xs c m'" by (subst m') (auto simp: mem_ok_def Let_def)
qed

text \<open>Two accesses to one slot are a whole number of rounds apart.\<close>

lemma same_slot: "i mod N = j mod N \<Longrightarrow> i < j \<Longrightarrow> i + N \<le> j" for N :: nat
  using mod_window [of i j N] by (meson not_less)

lemma write_ordered:
  assumes "stamp_ok N p r (p mod N) c" "view_ok p r' p c' v" "v_clock v Producer = p" "p < v_pos v Head + N" "r \<le> p"
  shows "write_seen v c" "reads_seen v c"
proof -
  show "write_seen v c"
    using assms(1,3) by (auto simp: stamp_ok_def write_seen_def split: option.splits)
  have "Suc j \<le> v_clock v Consumer" if "j < r" "j mod N = p mod N" for j
  proof -
    have "j + N \<le> p" using same_slot [of j N p] that assms(5) by simp
    then show ?thesis using assms(2,4) by (simp add: view_ok_def)
  qed
  then show "reads_seen v c" using assms(1) by (auto simp: stamp_ok_def reads_seen_def)
qed

lemma read_ordered:
  assumes "stamp_ok N w r (c mod N) cell" "view_ok w r' p c' v" "c < v_pos v Tail" "w \<le> c + N"
  shows "write_seen v cell"
proof -
  have "Suc j \<le> v_clock v Producer" if "j < w" "j mod N = c mod N" for j
  proof -
    have "\<not> c < j" using same_slot [of c N j] that assms(4) by auto
    then show ?thesis using assms(2,3) by (simp add: view_ok_def)
  qed
  then show ?thesis using assms(1) by (auto simp: stamp_ok_def write_seen_def split: option.splits)
qed

lemma stamp_ok_written:
  "stamp_ok N w r (w mod N) c \<Longrightarrow> stamp_ok N (Suc w) r (w mod N) (c\<lparr>c_val := v, c_write := Some (Producer, Suc w)\<rparr>)"
  by (auto simp: stamp_ok_def)

lemma stamp_ok_been_read:
  "stamp_ok N w r (r mod N) c \<Longrightarrow> stamp_ok N w (Suc r) (r mod N) (c\<lparr>c_reads := (c_reads c)(Consumer := Suc r)\<rparr>)"
  by (auto simp: stamp_ok_def)

lemma mem_okD:
  assumes "mem_ok N w r xs c m"
  shows "c \<le> length xs" "length xs \<le> c + N" "length (m_cells m) = N" "\<not> m_race m"
  using assms by (auto simp: mem_ok_def view_ok_def Let_def)

lemma mem_ok_write:
  assumes ok: "mem_ok N (length xs) r xs c m" and room: "length xs < v_pos (m_views m Producer) Head + N" "0 < N"
    and "r \<le> length xs"
  shows "mem_ok N (Suc (length xs)) r xs c (cell_write Producer (length xs mod N) x m)"
proof -
  let ?p = "length xs" and ?v = "m_views m Producer"
  let ?m = "cell_write Producer (?p mod N) x m"
  have l: "?p mod N < N" using room(2) by simp
  have v: "v_clock ?v Producer = ?p" "view_ok ?p r ?p c ?v" "stamp_ok N ?p r (?p mod N) (m_cells m ! (?p mod N))"
    using ok l by (simp_all add: mem_ok_def Let_def)
  note seen = write_ordered [OF v(3,2,1) room(1) assms(4)]
  have views: "m_views ?m Producer = tick Producer ?v" "m_views ?m Consumer = m_views m Consumer" "m_hist ?m = m_hist m"
    "m_race ?m = m_race m"
    using seen by (simp_all add: cell_write_def Let_def)
  have cells: "m_cells ?m ! i = (if i = ?p mod N then (m_cells m ! i)\<lparr>c_val := Some x, c_write := Some (Producer, Suc ?p)\<rparr>
      else m_cells m ! i)" "length (m_cells ?m) = N" if "i < N" for i
    using that ok v(1) by (simp_all add: cell_write_def mem_ok_def tick_def Let_def)
  have "j mod N \<noteq> ?p mod N" if "c \<le> j" "j < ?p" for j
    using same_slot [of j N ?p] that room(1) ok by (auto simp: mem_ok_def view_ok_def Let_def)
  then have vals: "\<forall>j. c \<le> j \<and> j < ?p \<longrightarrow> c_val (m_cells ?m ! (j mod N)) = Some (xs ! j)"
    using ok room(2) by (auto simp: cells mem_ok_def Let_def)
  have stamps: "\<forall>i < N. stamp_ok N (Suc ?p) r i (m_cells ?m ! i)"
    using ok by (auto simp: cells mem_ok_def Let_def intro: stamp_ok_written stamp_ok_mono)
  have "view_ok (Suc ?p) r ?p c (tick Producer ?v)" using v by (auto simp: view_ok_def tick_def)
  then show ?thesis
    using ok vals stamps cells(2) [OF l] unfolding mem_ok_def Let_def views
    by (auto simp: v(1) tick_def intro: mono_rules)
qed

lemma mem_ok_read:
  assumes ok: "mem_ok N w c xs c m" and item: "c < v_pos (m_views m Consumer) Tail" "0 < N" "w \<le> c + N"
    and m': "cell_read Consumer (c mod N) m = (v, m')"
  shows "v = Some (xs ! c)" "mem_ok N w (Suc c) xs c m'" "m_views m' Producer = m_views m Producer"
    "v_pos (m_views m' Consumer) = v_pos (m_views m Consumer)" "map c_val (m_cells m') = map c_val (m_cells m)"
proof -
  let ?v = "m_views m Consumer"
  have l: "c mod N < N" using item(2) by simp
  have vc: "v_clock ?v Consumer = c" "view_ok w c (length xs) c ?v" "stamp_ok N w c (c mod N) (m_cells m ! (c mod N))"
    using ok l by (simp_all add: mem_ok_def Let_def)
  note seen = read_ordered [OF vc(3,2) item(1,3)]
  have views: "m_views m' Consumer = tick Consumer ?v" "m_views m' Producer = m_views m Producer" "m_hist m' = m_hist m"
    "m_race m' = m_race m"
    using seen m' by (auto simp: cell_read_def Let_def)
  have cells: "m_cells m' ! i = (if i = c mod N then (m_cells m ! i)\<lparr>c_reads := (c_reads (m_cells m ! i))(Consumer := Suc c)\<rparr>
      else m_cells m ! i)" "length (m_cells m') = N" if "i < N" for i
    using that ok m' vc(1) by (auto simp: cell_read_def mem_ok_def tick_def Let_def)
  have "c < length xs" using item(1) vc(2) by (simp add: view_ok_def)
  then show "v = Some (xs ! c)" using ok m' by (auto simp: cell_read_def mem_ok_def Let_def)
  show "m_views m' Producer = m_views m Producer" "v_pos (m_views m' Consumer) = v_pos ?v"
    by (simp_all add: views tick_def)
  show vals: "map c_val (m_cells m') = map c_val (m_cells m)"
    using ok cells l by (intro nth_equalityI) (auto simp: mem_ok_def Let_def)
  have "c_val (m_cells m' ! i) = c_val (m_cells m ! i)" if "i < N" for i using cells that by simp
  then have contents: "\<forall>j. c \<le> j \<and> j < length xs \<longrightarrow> c_val (m_cells m' ! (j mod N)) = Some (xs ! j)"
    using ok item(2) by (simp add: mem_ok_def Let_def)
  have stamps: "\<forall>i < N. stamp_ok N w (Suc c) i (m_cells m' ! i)"
    using ok by (auto simp: cells mem_ok_def Let_def intro: stamp_ok_been_read stamp_ok_mono)
  have "view_ok w (Suc c) (length xs) c (tick Consumer ?v)" using vc by (auto simp: view_ok_def tick_def)
  then show "mem_ok N w (Suc c) xs c m'"
    using ok contents stamps cells(2) [OF l] unfolding mem_ok_def Let_def views
    by (auto simp: vc(1) tick_def intro: mono_rules)
qed

lemma mem_ok_publish_tail:
  assumes ok: "mem_ok N (Suc (length xs)) r xs c m" and room: "length xs < v_pos (m_views m Producer) Head + N"
    and x: "c_val (m_cells m ! (length xs mod N)) = Some x"
  shows "mem_ok N (Suc (length xs)) r (xs @ [x]) c (atomic_store Producer Tail Release (of_nat (length xs) + 1) m)"
proof -
  let ?p = "length xs" and ?v = "m_views m Producer"
  let ?v' = "?v\<lparr>v_pos := (v_pos ?v)(Tail := Suc ?p)\<rparr>"
  have v: "view_ok (Suc ?p) r (Suc ?p) c ?v'" using ok by (auto simp: mem_ok_def view_ok_def Let_def)
  have h: "hist_ok (Suc ?p) r (Suc ?p) c Tail ?p (m_hist m Tail)" "length (m_hist m Tail) = Suc ?p"
    using ok by (auto simp: mem_ok_def Let_def hist_ok_def intro: view_ok_mono)
  have tail: "hist_ok (Suc ?p) r (Suc ?p) c Tail (Suc ?p) (m_hist m Tail @ [\<lparr>m_val = of_nat ?p + 1, m_view = ?v'\<rparr>])"
    using hist_ok_snoc [OF h(1) v] by (simp add: add.commute)
  have vals: "\<forall>j. c \<le> j \<and> j < Suc ?p \<longrightarrow> c_val (m_cells m ! (j mod N)) = Some ((xs @ [x]) ! j)"
    using ok x by (auto simp: mem_ok_def Let_def nth_append less_Suc_eq)
  show ?thesis
    using ok v tail vals room unfolding mem_ok_def Let_def atomic_store_def
    by (auto simp: h(2) intro: mono_rules)
qed

lemma mem_ok_publish_head:
  assumes ok: "mem_ok N w (Suc c) xs c m" and item: "c < v_pos (m_views m Consumer) Tail"
  shows "mem_ok N w (Suc c) xs (Suc c) (atomic_store Consumer Head Release (of_nat c + 1) m)"
proof -
  let ?p = "length xs" and ?v = "m_views m Consumer"
  let ?v' = "?v\<lparr>v_pos := (v_pos ?v)(Head := Suc c)\<rparr>"
  have v: "view_ok w (Suc c) ?p (Suc c) ?v'" using ok by (auto simp: mem_ok_def view_ok_def Let_def)
  have h: "hist_ok w (Suc c) ?p (Suc c) Head c (m_hist m Head)" "length (m_hist m Head) = Suc c"
    using ok by (auto simp: mem_ok_def Let_def hist_ok_def intro: view_ok_mono)
  have head: "hist_ok w (Suc c) ?p (Suc c) Head (Suc c) (m_hist m Head @ [\<lparr>m_val = of_nat c + 1, m_view = ?v'\<rparr>])"
    using hist_ok_snoc [OF h(1) v] by (simp add: add.commute)
  show ?thesis
    using ok v head item unfolding mem_ok_def Let_def atomic_store_def
    by (auto simp: h(2) intro: mono_rules)
qed

subsection \<open>The threads\<close>

lemma a_slot_of_nat:
  assumes "ra_inv k s"
  shows "a_slot s (of_nat j) = j mod 2 ^ k"
proof -
  have k: "k < 64" "length (m_cells (a_mem s)) = 2 ^ k" using assms by (auto simp: ra_inv_def mem_ok_def Let_def)
  then show ?thesis
    using unat_and_mask [OF k(1), of "of_nat j"] unat_add_mod_exp [OF k(1), of 0 j] by (simp add: a_slot_def a_N_def)
qed

text \<open>The check for a full queue is exact for the head the producer has seen.\<close>

lemma full_iff:
  assumes "ra_inv k s" "a_prod s = P_Head x t h"
  shows "a_N s \<le> t - h \<longleftrightarrow> v_pos (m_views (a_mem s) Producer) Head + 2 ^ k \<le> length (a_pushed s)"
proof -
  let ?p = "length (a_pushed s)" and ?c = "v_pos (m_views (a_mem s) Producer) Head"
  have k: "k < 64" "length (m_cells (a_mem s)) = 2 ^ k" and th: "t = of_nat ?p" "h = of_nat ?c"
    and c: "?c \<le> ?p" "?p \<le> ?c + 2 ^ k"
    using assms mem_okD(1) by (auto simp: ra_inv_def mem_ok_def view_ok_def Let_def)
  have "unat (t - h) = ?p - ?c" using of_nat_diff_u64 [OF c k(1)] th by simp
  moreover have "(2::nat) ^ k < 2 ^ 64" using k(1) by (rule power_strict_increasing) simp
  then have "unat (a_N s) = 2 ^ k" unfolding a_N_def k(2) by (subst unat_of_nat) simp
  ultimately show ?thesis using c by (auto simp: word_le_nat_alt)
qed

lemma pending_accesses:
  assumes "ra_inv k s"
  shows "writes s \<le> length (a_popped s) + 2 ^ k" "reads s \<le> length (a_pushed s)"
proof -
  let ?c = "length (a_popped s)"
  have b: "?c \<le> length (a_pushed s)" "length (a_pushed s) \<le> ?c + 2 ^ k"
    "v_pos (m_views (a_mem s) Producer) Head \<le> ?c" "v_pos (m_views (a_mem s) Consumer) Tail \<le> length (a_pushed s)"
    using assms mem_okD(1,2) by (auto simp: ra_inv_def mem_ok_def view_ok_def Let_def)
  show "writes s \<le> ?c + 2 ^ k" using assms b by (cases "a_prod s") (auto simp: writes_def ra_inv_def Let_def)
  show "reads s \<le> length (a_pushed s)" using assms b by (cases "a_cons s") (auto simp: reads_def ra_inv_def Let_def)
qed

lemma a_cons_ok_snoc:
  "a_cons_ok c seen xs pc \<Longrightarrow> seen \<le> length xs \<Longrightarrow> a_cons_ok c seen (xs @ [x]) pc"
  by (cases pc) (auto simp: nth_append)

lemma a_prod_ok_cells:
  "a_prod_ok N p seen cells pc \<Longrightarrow> length cells = N \<Longrightarrow> 0 < N \<Longrightarrow> map c_val cells' = map c_val cells \<Longrightarrow>
    a_prod_ok N p seen cells' pc"
  by (cases pc) (auto simp: list_eq_iff_nth_eq)

lemma ra_inv_step: "ra_step code_orderings s s' \<Longrightarrow> ra_inv k s \<Longrightarrow> ra_inv k s'"
proof (induction rule: ra_step.induct)
  case (push_load_tail s i t m x)
  then show ?case using load_own_tail
    by (fastforce simp: ra_inv_def Let_def code_orderings_def writes_def reads_def)
next
  case (push_load_head s x t i h m)
  then have "mem_ok (2 ^ k) (writes s) (reads s) (a_pushed s) (length (a_popped s)) (a_mem s)"
    "atomic_load Producer Head Acquire i (a_mem s) = Some (h, m)"
    by (simp_all add: ra_inv_def Let_def code_orderings_def)
  note L = load_head [OF this]
  from push_load_head L show ?case by (auto simp: ra_inv_def Let_def writes_def reads_def)
next
  case (push_err s x t h)
  then show ?case by (simp add: ra_inv_def Let_def writes_def reads_def)
next
  case (push_write s x t h)
  let ?p = "length (a_pushed s)"
  have room: "?p < v_pos (m_views (a_mem s) Producer) Head + 2 ^ k"
    using full_iff [OF push_write(3,1)] push_write(2) by simp
  have t: "t = of_nat ?p" "writes s = ?p" using push_write by (auto simp: ra_inv_def Let_def writes_def)
  have ok: "mem_ok (2 ^ k) ?p (reads s) (a_pushed s) (length (a_popped s)) (a_mem s)"
    using push_write t by (simp add: ra_inv_def Let_def)
  note W = mem_ok_write [OF ok room _ pending_accesses(2) [OF push_write(3)], of x]
  have l: "?p mod 2 ^ k < length (m_cells (a_mem s))" using mem_okD(3) [OF ok] by simp
  show ?case
    using push_write(1,3) W room l unfolding t(1) a_slot_of_nat [OF push_write(3)]
    by (auto simp: ra_inv_def Let_def writes_def reads_def) (simp_all add: cell_write_def tick_def Let_def)
next
  case (push_publish s x t)
  let ?p = "length (a_pushed s)"
  have t: "t = of_nat ?p" "?p < v_pos (m_views (a_mem s) Producer) Head + 2 ^ k"
    "c_val (m_cells (a_mem s) ! (?p mod 2 ^ k)) = Some x" "writes s = Suc ?p"
    using push_publish by (auto simp: ra_inv_def Let_def writes_def)
  have ok: "mem_ok (2 ^ k) (Suc ?p) (reads s) (a_pushed s) (length (a_popped s)) (a_mem s)"
    using push_publish t by (simp add: ra_inv_def Let_def)
  have "v_pos (m_views (a_mem s) Consumer) Tail \<le> ?p" "length (a_popped s) \<le> ?p"
    using ok mem_okD(1) [OF ok] by (auto simp: mem_ok_def view_ok_def Let_def)
  with push_publish(2) mem_ok_publish_tail [OF ok t(2,3)] show ?case
    by (auto simp: ra_inv_def Let_def writes_def reads_def code_orderings_def t(1) atomic_store_def intro: a_cons_ok_snoc)
next
  case (pop_load_head s i h m)
  then show ?case using load_own_head
    by (fastforce simp: ra_inv_def Let_def code_orderings_def writes_def reads_def)
next
  case (pop_load_tail s h i t m)
  then have "mem_ok (2 ^ k) (writes s) (reads s) (a_pushed s) (length (a_popped s)) (a_mem s)"
    "atomic_load Consumer Tail Acquire i (a_mem s) = Some (t, m)"
    by (simp_all add: ra_inv_def Let_def code_orderings_def)
  note L = load_tail [OF this]
  from pop_load_tail L show ?case by (auto simp: ra_inv_def Let_def writes_def reads_def)
next
  case (pop_none s h t)
  then show ?case by (simp add: ra_inv_def Let_def writes_def reads_def)
next
  case (pop_read s h t v m)
  let ?c = "length (a_popped s)" and ?q = "v_pos (m_views (a_mem s) Consumer) Tail"
  have h: "h = of_nat ?c" "t = of_nat ?q" "reads s = ?c" using pop_read by (auto simp: ra_inv_def Let_def reads_def)
  have ok: "mem_ok (2 ^ k) (writes s) ?c (a_pushed s) ?c (a_mem s)" using pop_read h by (simp add: ra_inv_def Let_def)
  have "?c \<noteq> ?q" using pop_read(2) h by auto
  then have item: "?c < ?q" using ok by (simp add: mem_ok_def Let_def)
  have m: "cell_read Consumer (?c mod 2 ^ k) (a_mem s) = (v, m)"
    using pop_read(3) unfolding h(1) a_slot_of_nat [OF pop_read(4)] .
  have pos: "0 < (2 :: nat) ^ k" by simp
  note R = mem_ok_read [OF ok item pos pending_accesses(1) [OF pop_read(4)] m]
  have "a_prod_ok (2 ^ k) (length (a_pushed s)) (v_pos (m_views (a_mem s) Producer) Head) (m_cells (a_mem s)) (a_prod s)"
    using pop_read(4) by (simp add: ra_inv_def Let_def)
  note a_prod_ok_cells [OF this mem_okD(3) [OF ok] pos R(5)]
  with pop_read(1,4) R item h show ?case by (auto simp: ra_inv_def Let_def writes_def reads_def)
next
  case (pop_publish s v h)
  let ?c = "length (a_popped s)" and ?q = "v_pos (m_views (a_mem s) Consumer) Tail"
  have h: "h = of_nat ?c" "?c < ?q" "v = Some (a_pushed s ! ?c)" "reads s = Suc ?c"
    using pop_publish by (auto simp: ra_inv_def Let_def reads_def)
  have ok: "mem_ok (2 ^ k) (writes s) (Suc ?c) (a_pushed s) ?c (a_mem s)" using pop_publish h by (simp add: ra_inv_def Let_def)
  have "?c < length (a_pushed s)" using ok h(2) by (simp add: mem_ok_def view_ok_def Let_def)
  with pop_publish(2) mem_ok_publish_head [OF ok h(2)] h show ?case
    by (auto simp: ra_inv_def Let_def writes_def reads_def code_orderings_def atomic_store_def take_Suc_conv_app_nth)
qed

lemma ra_inv_init:
  assumes "lf_new n = Inr q" "n < 2 ^ 64"
  shows "\<exists>k. n = 2 ^ k \<and> ra_inv k (ra_init q)"
proof -
  have "lf_ok q" "length (lf_buffer q) = n" using lf_new_ok [OF assms] by auto
  then obtain k where "k < 64" "n = 2 ^ k" using lf_okE [of q] by metis
  with assms show ?thesis
    by (auto simp: ra_inv_def ra_init_def mem_ok_def hist_ok_def view_ok_def stamp_ok_def view_bot_def empty_cell_def
        writes_def reads_def lf_new_def Let_def split: if_splits)
qed

lemma ra_reachable_inv:
  "ra_reachable code_orderings n s \<Longrightarrow> n < 2 ^ 64 \<Longrightarrow> \<exists>k. n = 2 ^ k \<and> ra_inv k s"
  by (induction rule: ra_reachable.induct) (auto dest: ra_inv_init intro: ra_inv_step)

section \<open>Executions\<close>

text \<open>The next step of a thread as a function: \<open>i\<close> is the history entry a load takes, \<open>x\<close> the item
  of a call that begins.\<close>

datatype 'a act = Prod 'a nat | Cons nat

definition prod_act :: "orderings \<Rightarrow> 'a \<Rightarrow> nat \<Rightarrow> 'a aqueue \<Rightarrow> 'a aqueue option" where
  "prod_act ord x i s =
     (case a_prod s of
        P_Idle \<Rightarrow>
          map_option (\<lambda>(t, m). s\<lparr>a_mem := m, a_prod := P_Tail x t\<rparr>)
            (atomic_load Producer Tail (o_push_tail ord) i (a_mem s))
      | P_Tail x t \<Rightarrow>
          map_option (\<lambda>(h, m). s\<lparr>a_mem := m, a_prod := P_Head x t h\<rparr>)
            (atomic_load Producer Head (o_push_head ord) i (a_mem s))
      | P_Head x t h \<Rightarrow>
          Some (if a_N s \<le> t - h then s\<lparr>a_prod := P_Idle\<rparr>
                else s\<lparr>a_mem := cell_write Producer (a_slot s t) x (a_mem s), a_prod := P_Written x t\<rparr>)
      | P_Written x t \<Rightarrow>
          Some (s\<lparr>a_mem := atomic_store Producer Tail (o_push_publish ord) (t + 1) (a_mem s), a_prod := P_Idle,
                  a_pushed := a_pushed s @ [x]\<rparr>))"

definition cons_act :: "orderings \<Rightarrow> nat \<Rightarrow> 'a aqueue \<Rightarrow> 'a aqueue option" where
  "cons_act ord i s =
     (case a_cons s of
        C_Idle \<Rightarrow>
          map_option (\<lambda>(h, m). s\<lparr>a_mem := m, a_cons := C_Head h\<rparr>)
            (atomic_load Consumer Head (o_pop_head ord) i (a_mem s))
      | C_Head h \<Rightarrow>
          map_option (\<lambda>(t, m). s\<lparr>a_mem := m, a_cons := C_Tail h t\<rparr>)
            (atomic_load Consumer Tail (o_pop_tail ord) i (a_mem s))
      | C_Tail h t \<Rightarrow>
          Some (if h = t then s\<lparr>a_cons := C_Idle\<rparr>
                else case cell_read Consumer (a_slot s h) (a_mem s) of (v, m) \<Rightarrow> s\<lparr>a_mem := m, a_cons := C_Read v h\<rparr>)
      | C_Read v h \<Rightarrow>
          Some (s\<lparr>a_mem := atomic_store Consumer Head (o_pop_publish ord) (h + 1) (a_mem s), a_cons := C_Idle,
                  a_popped := a_popped s @ [v]\<rparr>))"

fun ra_run :: "orderings \<Rightarrow> 'a act list \<Rightarrow> 'a aqueue \<Rightarrow> 'a aqueue option" where
  "ra_run ord [] s = Some s"
| "ra_run ord (Prod x i # as) s = (case prod_act ord x i s of None \<Rightarrow> None | Some s \<Rightarrow> ra_run ord as s)"
| "ra_run ord (Cons i # as) s = (case cons_act ord i s of None \<Rightarrow> None | Some s \<Rightarrow> ra_run ord as s)"

lemma prod_act_step: "prod_act ord x i s = Some s' \<Longrightarrow> ra_step ord s s'"
  by (auto simp: prod_act_def intro: ra_step.intros split: producer.splits if_splits)

lemma cons_act_step: "cons_act ord i s = Some s' \<Longrightarrow> ra_step ord s s'"
  by (auto simp: cons_act_def intro: ra_step.intros split: consumer.splits if_splits prod.splits)

lemma ra_run_reachable: "ra_run ord as s = Some s' \<Longrightarrow> ra_reachable ord n s \<Longrightarrow> ra_reachable ord n s'"
  by (induction ord as s rule: ra_run.induct)
    (auto split: option.splits dest: prod_act_step cons_act_step intro: ra_reachable.step)

definition execution :: "orderings \<Rightarrow> nat \<Rightarrow> 'a act list \<Rightarrow> 'a aqueue option" where
  "execution ord n as = (case lf_new n of Inl _ \<Rightarrow> None | Inr q \<Rightarrow> ra_run ord as (ra_init q))"

lemma execution_reachable: "execution ord n as = Some s \<Longrightarrow> ra_reachable ord n s"
  by (auto simp: execution_def intro: ra_run_reachable ra_reachable.start split: sum.splits)

lemma execution_shows:
  assumes "map_option f (execution ord n as) = Some y"
  shows "\<exists>s. ra_reachable ord n s \<and> f s = y"
  using assms execution_reachable by blast

text \<open>A complete push, and a complete pop of the item published as entry \<open>i\<close>.\<close>

definition push_acts :: "'a \<Rightarrow> nat \<Rightarrow> nat \<Rightarrow> 'a act list" where
  "push_acts x p c = [Prod x p, Prod x c, Prod x 0, Prod x 0]"

definition pop_acts :: "nat \<Rightarrow> nat \<Rightarrow> 'a act list" where
  "pop_acts c p = [Cons c, Cons p, Cons 0, Cons 0]"

text \<open>
  Each of the four synchronising orderings of the source is needed: with any one of them relaxed,
  some execution of a queue with one slot has a data race.
\<close>

lemma every_ordering_needed:
  "\<exists>s :: nat aqueue. ra_reachable (code_orderings\<lparr>o_push_publish := Relaxed\<rparr>) 1 s \<and> m_race (a_mem s)"
  "\<exists>s :: nat aqueue. ra_reachable (code_orderings\<lparr>o_pop_tail := Relaxed\<rparr>) 1 s \<and> m_race (a_mem s)"
  "\<exists>s :: nat aqueue. ra_reachable (code_orderings\<lparr>o_pop_publish := Relaxed\<rparr>) 1 s \<and> m_race (a_mem s)"
  "\<exists>s :: nat aqueue. ra_reachable (code_orderings\<lparr>o_push_head := Relaxed\<rparr>) 1 s \<and> m_race (a_mem s)"
proof -
  let ?pop = "push_acts 7 0 0 @ pop_acts 0 1" and ?push = "push_acts 7 0 0 @ pop_acts 0 1 @ push_acts 8 1 1"
  have e: "map_option (m_race \<circ> a_mem) (execution (code_orderings\<lparr>o_push_publish := Relaxed\<rparr>) 1 ?pop) = Some True"
    "map_option (m_race \<circ> a_mem) (execution (code_orderings\<lparr>o_pop_tail := Relaxed\<rparr>) 1 ?pop) = Some True"
    "map_option (m_race \<circ> a_mem) (execution (code_orderings\<lparr>o_pop_publish := Relaxed\<rparr>) 1 ?push) = Some True"
    "map_option (m_race \<circ> a_mem) (execution (code_orderings\<lparr>o_push_head := Relaxed\<rparr>) 1 ?push) = Some True"
    by code_simp+
  show "\<exists>s :: nat aqueue. ra_reachable (code_orderings\<lparr>o_push_publish := Relaxed\<rparr>) 1 s \<and> m_race (a_mem s)"
    "\<exists>s :: nat aqueue. ra_reachable (code_orderings\<lparr>o_pop_tail := Relaxed\<rparr>) 1 s \<and> m_race (a_mem s)"
    "\<exists>s :: nat aqueue. ra_reachable (code_orderings\<lparr>o_pop_publish := Relaxed\<rparr>) 1 s \<and> m_race (a_mem s)"
    "\<exists>s :: nat aqueue. ra_reachable (code_orderings\<lparr>o_push_head := Relaxed\<rparr>) 1 s \<and> m_race (a_mem s)"
    using e [THEN execution_shows] by simp_all
qed

section \<open>Interleavings are executions\<close>

text \<open>The interleaved model of \<open>SPSC\<close> is the case in which every load takes the newest entry.\<close>

definition latest :: "'a spsc \<Rightarrow> 'a aqueue \<Rightarrow> bool" where
  "latest s a \<longleftrightarrow>
     a_prod a = p_pc s \<and> a_cons a = c_pc s \<and> a_pushed a = pushed s \<and> a_popped a = popped s \<and>
     (let m = a_mem a; q = queue s in
      map c_val (m_cells m) = lf_buffer q \<and> (\<forall>l. m_hist m l \<noteq> []) \<and>
      m_val (last (m_hist m Tail)) = lf_tail q \<and> m_val (last (m_hist m Head)) = lf_head q \<and>
      (\<forall>th l. v_pos (m_views m th) l < length (m_hist m l)) \<and>
      (\<forall>l l'. \<forall>msg \<in> set (m_hist m l). v_pos (m_view msg) l' < length (m_hist m l')))"

lemma latest_index:
  assumes "latest s a"
  shows "length (m_cells (a_mem a)) = length (lf_buffer (queue s))" "a_N a = lf_N (queue s)" "a_slot a w = slot (queue s) w"
proof -
  show l: "length (m_cells (a_mem a)) = length (lf_buffer (queue s))"
    using assms by (auto simp: latest_def Let_def dest: arg_cong [where f = length])
  then show "a_N a = lf_N (queue s)" "a_slot a w = slot (queue s) w"
    by (simp_all add: a_N_def lf_N_def a_slot_def slot_def lf_MASK_def)
qed

lemma load_latest:
  assumes "latest s a" "n = length (m_hist (a_mem a) l) - 1"
  obtains m where "atomic_load th l ord n (a_mem a) = Some (m_val (last (m_hist (a_mem a) l)), m)"
    "latest s (a\<lparr>a_mem := m\<rparr>)"
proof -
  let ?h = "m_hist (a_mem a) l" and ?v = "m_views (a_mem a) th"
  have ne: "?h \<noteq> []" using assms(1) by (simp add: latest_def Let_def)
  then have n: "n < length ?h" "?h ! n = last ?h" using assms(2) by (simp_all add: last_conv_nth)
  have "v_pos ?v l < length ?h" using assms(1) by (simp add: latest_def Let_def)
  then have pos: "v_pos ?v l \<le> n" using assms(2) by linarith
  let ?v' = "?v\<lparr>v_pos := (v_pos ?v)(l := n)\<rparr>"
  let ?w = "if ord = Acquire then view_join ?v' (m_view (last ?h)) else ?v'"
  let ?m = "(a_mem a)\<lparr>m_views := (m_views (a_mem a))(th := ?w)\<rparr>"
  have "\<forall>msg \<in> set ?h. v_pos (m_view msg) l' < length (m_hist (a_mem a) l')" for l'
    using assms(1) by (simp add: latest_def Let_def)
  then have "v_pos (m_view (last ?h)) l' < length (m_hist (a_mem a) l')" for l' using last_in_set [OF ne] by blast
  then have "v_pos ?w l' < length (m_hist (a_mem a) l')" for l'
    using assms(1) n(1) by (auto simp: latest_def Let_def view_join_def)
  then have "latest s (a\<lparr>a_mem := ?m\<rparr>)" using assms(1) n(1) by (auto simp: latest_def Let_def)
  with n pos show thesis by (intro that [of ?m]) (simp_all add: atomic_load_def Let_def)
qed

lemma store_latest:
  assumes "latest s a"
  shows "latest (s\<lparr>queue := (queue s)\<lparr>lf_tail := w\<rparr>\<rparr>) (a\<lparr>a_mem := atomic_store th Tail ord w (a_mem a)\<rparr>)"
    "latest (s\<lparr>queue := (queue s)\<lparr>lf_head := w\<rparr>\<rparr>) (a\<lparr>a_mem := atomic_store th Head ord w (a_mem a)\<rparr>)"
  using assms
  by (auto simp: latest_def atomic_store_def view_bot_def Let_def less_Suc_eq intro: less_SucI)

lemma slot_bound:
  assumes "spsc_inv k s"
  shows "slot (queue s) w < length (lf_buffer (queue s))"
proof -
  have k: "k < 64" "length (lf_buffer (queue s)) = 2 ^ k" using assms by (auto simp: spsc_inv_def Let_def)
  then show ?thesis using unat_and_mask [OF k(1), of w] by (simp add: slot_def lf_MASK_def lf_N_def)
qed

lemma latest_step:
  assumes "spsc_step s s'" "latest s a" "spsc_inv k s"
  shows "\<exists>a'. ra_step ord a a' \<and> latest s' a'"
  using assms
proof (induction rule: spsc_step.induct)
  case (push_load_tail s x)
  then obtain m where m: "atomic_load Producer Tail (o_push_tail ord) (length (m_hist (a_mem a) Tail) - 1) (a_mem a) =
      Some (lf_tail (queue s), m)" "latest s (a\<lparr>a_mem := m\<rparr>)"
    using load_latest [of s a _ Tail Producer "o_push_tail ord"] by (auto simp: latest_def Let_def)
  have "a_prod a = P_Idle" using push_load_tail by (simp add: latest_def)
  from ra_step.push_load_tail [OF this m(1), of x] m(2) show ?case
    by (intro exI conjI) (assumption, simp add: latest_def Let_def)
next
  case (push_load_head s x t)
  then obtain m where m: "atomic_load Producer Head (o_push_head ord) (length (m_hist (a_mem a) Head) - 1) (a_mem a) =
      Some (lf_head (queue s), m)" "latest s (a\<lparr>a_mem := m\<rparr>)"
    using load_latest [of s a _ Head Producer "o_push_head ord"] by (auto simp: latest_def Let_def)
  have "a_prod a = P_Tail x t" using push_load_head by (simp add: latest_def)
  from ra_step.push_load_head [OF this m(1)] m(2) show ?case
    by (intro exI conjI) (assumption, simp add: latest_def Let_def)
next
  case (push_err s x t h)
  then have "a_prod a = P_Head x t h" "a_N a \<le> t - h" by (simp_all add: latest_index(2)) (simp add: latest_def)
  from ra_step.push_err [OF this, of ord] push_err show ?case
    by (intro exI conjI) (assumption, simp add: latest_def Let_def)
next
  case (push_write s x t h)
  then have "a_prod a = P_Head x t h" "\<not> a_N a \<le> t - h" by (simp_all add: latest_index(2)) (simp add: latest_def)
  from ra_step.push_write [OF this, of ord] push_write show ?case
    unfolding latest_index(3) [OF push_write(3)]
    by (intro exI conjI) (assumption, auto simp: latest_def cell_write_def tick_def map_update Let_def)
next
  case (push_publish s x t)
  then have "a_prod a = P_Written x t" by (simp add: latest_def)
  from ra_step.push_publish [OF this, of ord] store_latest(1) [OF push_publish(2), of "t + 1" Producer "o_push_publish ord"] push_publish
  show ?case by (intro exI conjI) (assumption, simp add: latest_def Let_def)
next
  case (pop_load_head s)
  then obtain m where m: "atomic_load Consumer Head (o_pop_head ord) (length (m_hist (a_mem a) Head) - 1) (a_mem a) =
      Some (lf_head (queue s), m)" "latest s (a\<lparr>a_mem := m\<rparr>)"
    using load_latest [of s a _ Head Consumer "o_pop_head ord"] by (auto simp: latest_def Let_def)
  have "a_cons a = C_Idle" using pop_load_head by (simp add: latest_def)
  from ra_step.pop_load_head [OF this m(1)] m(2) show ?case
    by (intro exI conjI) (assumption, simp add: latest_def Let_def)
next
  case (pop_load_tail s h)
  then obtain m where m: "atomic_load Consumer Tail (o_pop_tail ord) (length (m_hist (a_mem a) Tail) - 1) (a_mem a) =
      Some (lf_tail (queue s), m)" "latest s (a\<lparr>a_mem := m\<rparr>)"
    using load_latest [of s a _ Tail Consumer "o_pop_tail ord"] by (auto simp: latest_def Let_def)
  have "a_cons a = C_Head h" using pop_load_tail by (simp add: latest_def)
  from ra_step.pop_load_tail [OF this m(1)] m(2) show ?case
    by (intro exI conjI) (assumption, simp add: latest_def Let_def)
next
  case (pop_none s h t)
  then have "a_cons a = C_Tail h t" by (simp add: latest_def)
  from ra_step.pop_none [OF this, of ord] pop_none show ?case
    by (intro exI conjI) (assumption, simp add: latest_def Let_def)
next
  case (pop_read s h t)
  then have c: "a_cons a = C_Tail h t" by (simp add: latest_def)
  let ?i = "slot (queue s) h"
  obtain v m where m: "cell_read Consumer ?i (a_mem a) = (v, m)" by force
  have i: "?i < length (m_cells (a_mem a))" using slot_bound [OF pop_read(4)] latest_index(1) [OF pop_read(3)] by simp
  have b: "lf_buffer (queue s) = map c_val (m_cells (a_mem a))" using pop_read(3) by (simp add: latest_def Let_def)
  then have v: "v = lf_buffer (queue s) ! ?i" using m i by (auto simp: cell_read_def Let_def)
  have "(map c_val (m_cells (a_mem a)))[?i := c_val (m_cells (a_mem a) ! ?i)] = map c_val (m_cells (a_mem a))"
    using i by (simp add: list_update_same_conv)
  then have v2: "map c_val (m_cells m) = lf_buffer (queue s)" using m b by (auto simp: cell_read_def Let_def map_update)
  have "ra_step ord a (a\<lparr>a_mem := m, a_cons := C_Read v h\<rparr>)"
    using ra_step.pop_read [OF c pop_read(2)] m unfolding latest_index(3) [OF pop_read(3)] by blast
  moreover have "latest (s\<lparr>c_pc := C_Read (lf_buffer (queue s) ! ?i) h\<rparr>) (a\<lparr>a_mem := m, a_cons := C_Read v h\<rparr>)"
    using pop_read(3) m v v2 by (auto simp: latest_def cell_read_def tick_def Let_def)
  ultimately show ?case by blast
next
  case (pop_publish s v h)
  then have "a_cons a = C_Read v h" by (simp add: latest_def)
  from ra_step.pop_publish [OF this, of ord] store_latest(2) [OF pop_publish(2), of "h + 1" Consumer "o_pop_publish ord"] pop_publish
  show ?case by (intro exI conjI) (assumption, simp add: latest_def Let_def)
qed

theorem interleavings_included:
  assumes "spsc_reachable n s" "n < 2 ^ 64"
  shows "\<exists>a. ra_reachable ord n a \<and> latest s a"
  using assms
proof (induction rule: spsc_reachable.induct)
  case (start q)
  then have "latest (spsc_init q) (ra_init q)"
    by (auto simp: latest_def spsc_init_def ra_init_def lf_new_def empty_cell_def view_bot_def Let_def split: if_splits)
  with start show ?case by (blast intro: ra_reachable.start)
next
  case (step s t)
  then obtain a where a: "ra_reachable ord n a" "latest s a" by blast
  obtain k where "spsc_inv k s" using spsc_reachable_inv step by blast
  with a step latest_step show ?case by (blast intro: ra_reachable.step)
qed

section \<open>Properties\<close>

text \<open>C10: under the memory orderings of the source, in every execution with one producer and one
  consumer, however stale the indices they read, the consumer has received exactly the first items
  the producer completed pushing, in order, without loss, duplication or a read of an uninitialised
  slot; at most \<open>N\<close> items are in flight, and a push that is refused has seen \<open>N\<close> of them.\<close>

theorem weak_memory_fifo:
  assumes "ra_reachable code_orderings n s" "n < 2 ^ 64"
  shows "a_popped s = map Some (take (length (a_popped s)) (a_pushed s)) \<and>
    length (a_popped s) \<le> length (a_pushed s) \<and> length (a_pushed s) \<le> length (a_popped s) + n \<and>
    (\<forall>x t h. a_prod s = P_Head x t h \<and> a_N s \<le> t - h \<longrightarrow>
       length (a_pushed s) = v_pos (m_views (a_mem s) Producer) Head + n)"
proof -
  obtain k where k: "n = 2 ^ k" "ra_inv k s" using ra_reachable_inv [OF assms] by blast
  have m: "mem_ok n (writes s) (reads s) (a_pushed s) (length (a_popped s)) (a_mem s)"
    and pop: "a_popped s = map Some (take (length (a_popped s)) (a_pushed s))"
    using k by (simp_all add: ra_inv_def Let_def)
  have "length (a_pushed s) = v_pos (m_views (a_mem s) Producer) Head + n"
    if "a_prod s = P_Head x t h" "a_N s \<le> t - h" for x t h
    using full_iff [OF k(2) that(1)] that(2) m k(1) by (simp add: mem_ok_def Let_def)
  with pop mem_okD(1,2) [OF m] show ?thesis by blast
qed

theorem weak_memory_fifo_witness:
  "\<exists>s :: nat aqueue. ra_reachable code_orderings 2 s \<and> (a_pushed s, a_popped s) = ([4, 6], [Some 4]) \<and>
     length (a_pushed s) \<le> length (a_popped s) + 2"
proof -
  have "map_option (\<lambda>s. (a_pushed s, a_popped s))
      (execution code_orderings 2 (push_acts 4 0 0 @ push_acts 6 1 0 @ pop_acts 0 1)) = Some ([4, 6 :: nat], [Some 4])"
    by code_simp
  from execution_shows [OF this] obtain s :: "nat aqueue" where "ra_reachable code_orderings 2 s" "(a_pushed s, a_popped s) = ([4, 6], [Some 4])"
    by blast
  with weak_memory_fifo [of 2 s] show ?thesis by auto
qed

text \<open>C29: the plain accesses to the slots never race: in every execution under the memory orderings
  of the source, every write of a slot is ordered by happens-before after all earlier accesses to it,
  and every read after all earlier writes.\<close>

theorem weak_memory_race_free:
  assumes "ra_reachable code_orderings n s" "n < 2 ^ 64"
  shows "\<not> m_race (a_mem s)"
  using ra_reachable_inv [OF assms] by (auto simp: ra_inv_def Let_def dest: mem_okD(4))

theorem weak_memory_race_free_witness:
  "\<exists>s :: nat aqueue. ra_reachable code_orderings 1 s \<and> a_pushed s = [7, 8] \<and> \<not> m_race (a_mem s)"
proof -
  have "map_option a_pushed (execution code_orderings 1 (push_acts 7 0 0 @ pop_acts 0 1 @ push_acts 8 1 1)) =
      Some [7, 8 :: nat]" by code_simp
  from execution_shows [OF this] obtain s :: "nat aqueue" where "ra_reachable code_orderings 1 s" "a_pushed s = [7, 8]"
    by blast
  with weak_memory_race_free [of 1 s] show ?thesis by auto
qed

end
