(* ===== verification/Types.thy ===== *)
theory Types
  imports Prelude
begin

text \<open>
  The core types of \<open>common/src/types.rs\<close>: the aliases of the identifiers, prices and
  quantities, the sentinel constants and the side of an order.
\<close>

type_synonym OrderId = u64
type_synonym TickerId = u32
type_synonym ClientId = u32
type_synonym Price = i64
type_synonym Qty = u32
type_synonym Priority = u64

definition INVALID_ORDER_ID :: OrderId where "INVALID_ORDER_ID = 0"
definition INVALID_TICKER_ID :: TickerId where "INVALID_TICKER_ID = 0xFFFFFFFF"
definition INVALID_CLIENT_ID :: ClientId where "INVALID_CLIENT_ID = 0xFFFFFFFF"
definition INVALID_PRICE :: Price where "INVALID_PRICE = 0x7FFFFFFFFFFFFFFF"
definition INVALID_QTY :: Qty where "INVALID_QTY = 0xFFFFFFFF"

datatype Side = Buy | Sell

primrec opposite :: "Side \<Rightarrow> Side" where
  "opposite Buy = Sell"
| "opposite Sell = Buy"

text \<open>\<open>self as i8\<close> reads the discriminant; \<open>as i64\<close> sign-extends it.\<close>

primrec side_i8 :: "Side \<Rightarrow> i8" where
  "side_i8 Buy = 1"
| "side_i8 Sell = - 1"

definition as_sign :: "Side \<Rightarrow> i64" where
  "as_sign s = scast (side_i8 s)"

lemma opposite_opposite [simp]: "opposite (opposite s) = s"
  by (cases s) simp_all

lemma side_i8_inject [simp]: "side_i8 s = side_i8 t \<longleftrightarrow> s = t"
  by (cases s; cases t) simp_all

lemma side_i8_nonzero [simp]: "side_i8 s \<noteq> 0"
  by (cases s) simp_all

lemma side_i8_eq_iff:
  "side_i8 s = 1 \<longleftrightarrow> s = Buy" "side_i8 s = - 1 \<longleftrightarrow> s = Sell"
  "side_i8 s = 255 \<longleftrightarrow> s = Sell"
  by (cases s; simp)+

lemma as_sign_opposite: "as_sign (opposite s) = - as_sign s"
  by (cases s) (simp_all add: as_sign_def)

lemma sint_INVALID_PRICE: "sint INVALID_PRICE = 2 ^ 63 - 1"
  by (simp add: INVALID_PRICE_def)

lemma price_le_INVALID: "p \<le>s INVALID_PRICE"
  using fits_i64_sint [of p] by (simp add: word_sle_eq sint_INVALID_PRICE fits_i64_def)

end
