(* ===== verification/MemPool.thy ===== *)
theory MemPool
  imports Prelude
begin

text \<open>
  The fixed-capacity slot allocator of \<open>common/src/mem_pool.rs\<close>. A \<open>PoolPtr\<close> is the index
  of its slot (its raw pointer always addresses \<open>storage[index]\<close>); a slot holds \<open>None\<close>
  until it is first written, and keeps its value when it is deallocated, as the source
  never drops or clears it. Slot indices are below the capacity \<open>N\<close>, so \<open>usize\<close> is \<open>nat\<close>
  here; array accesses are bounds-checked as in Rust. The contract \<open>slot_pool\<close> is what the
  order book relies on.
\<close>

section \<open>The model\<close>

record 'a mempool =
  storage :: "'a option list"
  free_list :: "nat list"
  free_count :: nat

type_synonym pool_ptr = nat

text \<open>The initialisation loop \<open>while i < N { free_list[i] = i; i += 1; }\<close>.\<close>

function fill_free_list :: "nat \<Rightarrow> nat list \<Rightarrow> nat list" where
  "fill_free_list i fl = (if i < length fl then fill_free_list (Suc i) (fl[i := i]) else fl)"
  by pat_completeness auto
termination by (relation "measure (\<lambda>(i, fl). length fl - i)") auto

declare fill_free_list.simps [simp del]

definition pool_new :: "nat \<Rightarrow> 'a mempool outcome" where
  "pool_new n =
     (if 0 < n
      then Inr \<lparr>storage = replicate n None, free_list = fill_free_list 0 (replicate n 0),
                free_count = n\<rparr>
      else Inl Assertion_Failed)"

text \<open>\<open>new_boxed\<close> allocates zeroed memory, writes \<open>free_count\<close> and fills the free list in
  place; the zeroed storage is \<open>MaybeUninit\<close> and holds no value.\<close>

definition pool_new_boxed :: "nat \<Rightarrow> 'a mempool outcome" where
  "pool_new_boxed n =
     (if 0 < n
      then let zeroed = \<lparr>storage = replicate n None, free_list = replicate n 0, free_count = 0\<rparr>;
               counted = zeroed\<lparr>free_count := n\<rparr>
           in Inr (counted\<lparr>free_list := fold (\<lambda>i fl. fl[i := i]) [0..<n] (free_list counted)\<rparr>)
      else Inl Assertion_Failed)"

definition pool_default :: "nat \<Rightarrow> 'a mempool outcome" where
  "pool_default n = pool_new n"

definition pool_allocate :: "'a mempool \<Rightarrow> (pool_ptr option \<times> 'a mempool) outcome" where
  "pool_allocate p =
     (if free_count p = 0 then Inr (None, p)
      else let fc = free_count p - 1 in
        if length (free_list p) \<le> fc then Inl Index_Out_Of_Bounds
        else let index = free_list p ! fc in
          if length (storage p) \<le> index then Inl Index_Out_Of_Bounds
          else Inr (Some index, p\<lparr>free_count := fc\<rparr>))"

definition pool_deallocate :: "'a mempool \<Rightarrow> pool_ptr \<Rightarrow> 'a mempool outcome" where
  "pool_deallocate p ptr =
     (if length (free_list p) \<le> free_count p then Inl Index_Out_Of_Bounds
      else Inr (p\<lparr>free_list := (free_list p)[free_count p := ptr], free_count := free_count p + 1\<rparr>))"

definition pool_deallocate_by_index :: "'a mempool \<Rightarrow> nat \<Rightarrow> 'a mempool outcome" where
  "pool_deallocate_by_index p index =
     (if length (free_list p) \<le> free_count p then Inl Index_Out_Of_Bounds
      else Inr (p\<lparr>free_list := (free_list p)[free_count p := index], free_count := free_count p + 1\<rparr>))"

text \<open>Reading and writing through a pointer obtained from this pool.\<close>

definition pool_get :: "'a mempool \<Rightarrow> pool_ptr \<Rightarrow> 'a outcome" where
  "pool_get p ptr =
     (if ptr < length (storage p)
      then (case storage p ! ptr of None \<Rightarrow> Inl Uninit_Read | Some v \<Rightarrow> Inr v)
      else Inl Index_Out_Of_Bounds)"

definition pool_write :: "'a mempool \<Rightarrow> pool_ptr \<Rightarrow> 'a \<Rightarrow> 'a mempool" where
  "pool_write p ptr v = p\<lparr>storage := (storage p)[ptr := Some v]\<rparr>"

text \<open>\<open>get_by_index\<close> is bounds-checked, but not against free or unwritten slots.\<close>

definition pool_get_by_index :: "'a mempool \<Rightarrow> nat \<Rightarrow> 'a option outcome" where
  "pool_get_by_index p index =
     (if length (storage p) \<le> index then Inr None
      else (case storage p ! index of None \<Rightarrow> Inl Uninit_Read | Some v \<Rightarrow> Inr (Some v)))"

text \<open>\<open>get_by_index_unchecked\<close> still indexes the array, which is bounds-checked.\<close>

definition pool_get_by_index_unchecked :: "'a mempool \<Rightarrow> nat \<Rightarrow> 'a outcome" where
  "pool_get_by_index_unchecked p index =
     (if length (storage p) \<le> index then Inl Index_Out_Of_Bounds
      else (case storage p ! index of None \<Rightarrow> Inl Uninit_Read | Some v \<Rightarrow> Inr v))"

definition pool_available :: "'a mempool \<Rightarrow> nat" where
  "pool_available p = free_count p"

definition pool_capacity :: "'a mempool \<Rightarrow> nat" where
  "pool_capacity p = length (storage p)"

section \<open>Well-formedness\<close>

definition pool_free :: "'a mempool \<Rightarrow> nat set" where
  "pool_free p = set (take (free_count p) (free_list p))"

definition pool_ok :: "'a mempool \<Rightarrow> bool" where
  "pool_ok p \<longleftrightarrow>
     0 < length (storage p) \<and> length (free_list p) = length (storage p) \<and>
     free_count p \<le> length (storage p) \<and>
     distinct (take (free_count p) (free_list p)) \<and>
     (\<forall>i \<in> set (take (free_count p) (free_list p)). i < length (storage p))"

lemma fill_free_list_eq:
  "fill_free_list i fl = take i fl @ [i..<length fl]"
proof (induction i fl rule: fill_free_list.induct)
  case (1 i fl)
  show ?case
  proof (cases "i < length fl")
    case True
    with 1 show ?thesis
      by (simp add: fill_free_list.simps [of i fl] take_Suc_conv_app_nth upt_conv_Cons)
  next
    case False
    then show ?thesis by (simp add: fill_free_list.simps [of i fl])
  qed
qed

lemma fold_fill: "m \<le> length fl \<Longrightarrow> fold (\<lambda>i fl. fl[i := i]) [0..<m] fl = [0..<m] @ drop m fl"
proof (induction m)
  case (Suc m)
  then have "drop m fl = (fl ! m) # drop (Suc m) fl" by (simp add: Cons_nth_drop_Suc)
  with Suc show ?case by (simp add: list_update_append)
qed simp

lemma pool_new_boxed_eq: "pool_new_boxed n = pool_new n"
  by (simp add: pool_new_boxed_def pool_new_def fill_free_list_eq fold_fill)

lemma pool_new_ok:
  assumes "pool_new n = Inr p"
  shows "pool_ok p" "pool_free p = {..<n}" "pool_capacity p = n"
  using assms
  by (auto simp: pool_new_def pool_ok_def pool_free_def pool_capacity_def fill_free_list_eq
      split: if_splits)

lemma pool_free_bound: "pool_ok p \<Longrightarrow> i \<in> pool_free p \<Longrightarrow> i < pool_capacity p"
  by (auto simp: pool_ok_def pool_free_def pool_capacity_def)

lemma card_pool_free: "pool_ok p \<Longrightarrow> card (pool_free p) = pool_available p"
  by (simp add: pool_ok_def pool_free_def pool_available_def distinct_card)

lemma pool_allocate_none:
  assumes "pool_ok p" "pool_free p = {}"
  shows "pool_allocate p = Inr (None, p)"
  using assms by (auto simp: pool_allocate_def pool_ok_def pool_free_def)

lemma pool_allocate_some:
  assumes ok: "pool_ok p" and free: "pool_free p \<noteq> {}"
  shows "\<exists>i p'. pool_allocate p = Inr (Some i, p') \<and> i \<in> pool_free p \<and>
    pool_free p' = pool_free p - {i} \<and> pool_ok p' \<and> storage p' = storage p"
proof -
  obtain m where m: "free_count p = Suc m"
    using free by (cases "free_count p") (auto simp: pool_free_def)
  let ?i = "free_list p ! m"
  have tk: "take (Suc m) (free_list p) = take m (free_list p) @ [?i]"
    using ok m by (simp add: pool_ok_def take_Suc_conv_app_nth)
  with ok m have "pool_allocate p = Inr (Some ?i, p\<lparr>free_count := m\<rparr>)"
    by (auto simp: pool_allocate_def pool_ok_def Let_def)
  with ok m tk show ?thesis
    by (auto simp: pool_free_def pool_ok_def)
qed

lemma pool_deallocate_some:
  assumes ok: "pool_ok p" and i: "i < pool_capacity p" "i \<notin> pool_free p"
  shows "\<exists>p'. pool_deallocate_by_index p i = Inr p' \<and> pool_free p' = insert i (pool_free p) \<and>
    pool_ok p' \<and> storage p' = storage p \<and> pool_allocate p' = Inr (Some i, p'\<lparr>free_count := free_count p\<rparr>)"
proof -
  have "pool_free p \<subseteq> {..<pool_capacity p} - {i}" using ok i by (auto dest: pool_free_bound)
  then have "card (pool_free p) \<le> card ({..<pool_capacity p} - {i})" by (intro card_mono) auto
  then have room: "free_count p < length (storage p)"
    using i(1) by (simp add: card_pool_free [OF ok] pool_available_def pool_capacity_def)
  let ?fl = "(free_list p)[free_count p := i]"
  have tk: "take (Suc (free_count p)) ?fl = take (free_count p) (free_list p) @ [i]"
    using ok room by (simp add: pool_ok_def take_Suc_conv_app_nth)
  with ok i room show ?thesis
    by (auto simp: pool_deallocate_by_index_def pool_allocate_def pool_free_def pool_ok_def
        pool_capacity_def)
qed

lemma pool_deallocate_eq: "pool_deallocate = pool_deallocate_by_index"
  by (simp add: fun_eq_iff pool_deallocate_def pool_deallocate_by_index_def)

lemma pool_write_simps [simp]:
  "pool_free (pool_write p i v) = pool_free p"
  "pool_capacity (pool_write p i v) = pool_capacity p"
  "pool_ok (pool_write p i v) = pool_ok p"
  "free_count (pool_write p i v) = free_count p"
  "storage (pool_write p i v) = (storage p)[i := Some v]"
  by (simp_all add: pool_write_def pool_free_def pool_capacity_def pool_ok_def)

section \<open>The slot allocator contract\<close>

text \<open>
  A client that frees only what it holds: \<open>pool_run\<close> executes a sequence of allocations
  and of frees of the \<open>k\<close>-th pointer it holds.
\<close>

datatype pool_op = Alloc | Free nat

fun pool_run :: "('p \<Rightarrow> (nat option \<times> 'p) outcome) \<Rightarrow> ('p \<Rightarrow> nat \<Rightarrow> 'p outcome) \<Rightarrow>
    pool_op list \<Rightarrow> nat list \<Rightarrow> 'p \<Rightarrow> (nat list \<times> 'p) outcome" where
  "pool_run alloc dealloc [] live p = Inr (live, p)"
| "pool_run alloc dealloc (Alloc # ops) live p =
     (case alloc p of
        Inl f \<Rightarrow> Inl f
      | Inr (None, p') \<Rightarrow> pool_run alloc dealloc ops live p'
      | Inr (Some i, p') \<Rightarrow> pool_run alloc dealloc ops (i # live) p')"
| "pool_run alloc dealloc (Free k # ops) live p =
     (if k < length live
      then (case dealloc p (live ! k) of
              Inl f \<Rightarrow> Inl f
            | Inr p' \<Rightarrow> pool_run alloc dealloc ops (take k live @ drop (Suc k) live) p')
      else pool_run alloc dealloc ops live p)"

locale slot_pool =
  fixes alloc :: "'p \<Rightarrow> (nat option \<times> 'p) outcome"
    and dealloc :: "'p \<Rightarrow> nat \<Rightarrow> 'p outcome"
    and free :: "'p \<Rightarrow> nat set"
    and cap :: "'p \<Rightarrow> nat"
    and ok :: "'p \<Rightarrow> bool"
  assumes free_bound: "ok p \<Longrightarrow> i \<in> free p \<Longrightarrow> i < cap p"
    and alloc_none: "ok p \<Longrightarrow> free p = {} \<Longrightarrow> alloc p = Inr (None, p)"
    and alloc_some: "ok p \<Longrightarrow> free p \<noteq> {} \<Longrightarrow>
      \<exists>i p'. alloc p = Inr (Some i, p') \<and> i \<in> free p \<and> free p' = free p - {i} \<and> ok p' \<and> cap p' = cap p"
    and dealloc_some: "ok p \<Longrightarrow> i < cap p \<Longrightarrow> i \<notin> free p \<Longrightarrow>
      \<exists>p'. dealloc p i = Inr p' \<and> free p' = insert i (free p) \<and> ok p' \<and> cap p' = cap p"
begin

lemma alloc_fresh:
  assumes "ok p" "alloc p = Inr (Some i, p')"
  shows "i \<in> free p" "i \<notin> free p'" "i < cap p" "ok p'" "cap p' = cap p" "free p = insert i (free p')"
proof -
  have "free p \<noteq> {}" using assms alloc_none by force
  then obtain j q where "alloc p = Inr (Some j, q)" "j \<in> free p" "free q = free p - {j}" "ok q"
    "cap q = cap p" using alloc_some [OF assms(1)] by blast
  with assms show "i \<in> free p" "i \<notin> free p'" "i < cap p" "ok p'" "cap p' = cap p"
    "free p = insert i (free p')"
    by (auto dest: free_bound)
qed

text \<open>Held slots and free slots partition the pool, whatever the sequence of calls.\<close>

lemma run_partition:
  assumes "ok p" "distinct live" "set live = {..<cap p} - free p"
  shows "\<exists>live' p'. pool_run alloc dealloc ops live p = Inr (live', p') \<and> ok p' \<and> cap p' = cap p \<and>
    distinct live' \<and> set live' = {..<cap p} - free p'"
  using assms
proof (induction ops arbitrary: live p)
  case (Cons op ops)
  show ?case
  proof (cases op)
    case Alloc
    show ?thesis
    proof (cases "free p = {}")
      case True
      with Cons show ?thesis by (simp add: Alloc alloc_none)
    next
      case False
      then obtain i p' where a: "alloc p = Inr (Some i, p')" using alloc_some Cons.prems(1) by blast
      note f = alloc_fresh [OF Cons.prems(1) a]
      have "set (i # live) = {..<cap p'} - free p'" using f Cons.prems by auto
      moreover have "distinct (i # live)" using f Cons.prems by auto
      ultimately show ?thesis using Cons.IH [OF f(4)] f(5) by (simp add: Alloc a)
    qed
  next
    case (Free k)
    show ?thesis
    proof (cases "k < length live")
      case True
      let ?i = "live ! k" and ?rest = "take k live @ drop (Suc k) live"
      have i: "?i \<in> set live" using True by simp
      then have "?i < cap p" "?i \<notin> free p" using Cons.prems by auto
      then obtain p' where p': "dealloc p ?i = Inr p'" "free p' = insert ?i (free p)" "ok p'"
        "cap p' = cap p" using dealloc_some [OF Cons.prems(1)] by blast
      note d = distinct_remove_nth [OF Cons.prems(2) True]
      have "set ?rest = {..<cap p'} - free p'" using Cons.prems p' d(2) by auto
      with Cons.IH [OF p'(3) d(1)] p' True show ?thesis by (simp add: Free)
    next
      case False
      with Cons show ?thesis by (simp add: Free)
    qed
  qed
qed simp

end

interpretation mp: slot_pool pool_allocate pool_deallocate_by_index pool_free pool_capacity pool_ok
proof unfold_locales
  fix p :: "'a mempool" and i
  show "pool_ok p \<Longrightarrow> i \<in> pool_free p \<Longrightarrow> i < pool_capacity p" by (rule pool_free_bound)
  show "pool_ok p \<Longrightarrow> pool_free p = {} \<Longrightarrow> pool_allocate p = Inr (None, p)"
    by (rule pool_allocate_none)
  show "pool_ok p \<Longrightarrow> pool_free p \<noteq> {} \<Longrightarrow> \<exists>i p'. pool_allocate p = Inr (Some i, p') \<and>
      i \<in> pool_free p \<and> pool_free p' = pool_free p - {i} \<and> pool_ok p' \<and>
      pool_capacity p' = pool_capacity p"
    using pool_allocate_some [of p] by (auto simp: pool_capacity_def)
  show "pool_ok p \<Longrightarrow> i < pool_capacity p \<Longrightarrow> i \<notin> pool_free p \<Longrightarrow>
      \<exists>p'. pool_deallocate_by_index p i = Inr p' \<and> pool_free p' = insert i (pool_free p) \<and>
      pool_ok p' \<and> pool_capacity p' = pool_capacity p"
    using pool_deallocate_some [of p i] by (auto simp: pool_capacity_def)
qed

section \<open>Properties\<close>

text \<open>C30: starting from a new pool, any sequence of allocations and of frees of pointers the
  client still holds runs without a panic, never hands out a slot twice, and keeps held and
  free slots a partition of the \<open>N\<close> slots: nothing is leaked and an allocation fails only
  when all \<open>N\<close> slots are held.\<close>

theorem pool_partition:
  assumes "pool_new_boxed n = Inr p"
  shows "\<exists>live p'. pool_run pool_allocate pool_deallocate_by_index ops [] p = Inr (live, p') \<and>
    distinct live \<and> set live \<union> pool_free p' = {..<n} \<and> set live \<inter> pool_free p' = {} \<and>
    (pool_free p' = {} \<longleftrightarrow> length live = n)"
proof -
  have new: "pool_ok p" "pool_free p = {..<n}" "pool_capacity p = n"
    using pool_new_ok [of n p] assms by (simp_all add: pool_new_boxed_eq)
  then obtain live p' where r: "pool_run pool_allocate pool_deallocate_by_index ops [] p = Inr (live, p')"
    and ok: "pool_ok p'" "pool_capacity p' = n" and d: "distinct live"
    and s: "set live = {..<n} - pool_free p'"
    using mp.run_partition [of p "[]" ops] by auto
  have b: "pool_free p' \<subseteq> {..<n}" using ok by (auto dest: pool_free_bound)
  have "length live = n - card (pool_free p')"
    using d s b by (simp add: distinct_card [symmetric] card_Diff_subset finite_subset [OF b])
  moreover have "card (pool_free p') \<le> n" using card_mono [OF _ b] by simp
  moreover have "0 < n" using assms by (auto simp: pool_new_boxed_def split: if_splits)
  ultimately have "card (pool_free p') = 0 \<longleftrightarrow> length live = n" by linarith
  then have "pool_free p' = {} \<longleftrightarrow> length live = n" using finite_subset [OF b] by simp
  with r d s b show ?thesis by blast
qed

theorem pool_partition_witness:
  "\<exists>live p'. pool_run pool_allocate pool_deallocate_by_index [Alloc, Alloc, Free 1, Alloc] []
      (\<lparr>storage = [None, None], free_list = [0, 1], free_count = 2\<rparr> :: nat mempool) = Inr (live, p') \<and>
    distinct live \<and> set live \<union> pool_free p' = {..<2}"
proof -
  have "pool_new_boxed 2 = Inr (\<lparr>storage = [None, None], free_list = [0, 1], free_count = 2\<rparr> :: nat mempool)"
    by (simp add: pool_new_boxed_def numeral_2_eq_2)
  from pool_partition [OF this, of "[Alloc, Alloc, Free 1, Alloc]"] show ?thesis by blast
qed

text \<open>The allocator is a stack: freeing a held slot and allocating again returns that very
  slot, with the storage of every slot unchanged.\<close>

lemma pool_lifo_reuse:
  assumes "pool_ok p" "i < pool_capacity p" "i \<notin> pool_free p"
  shows "\<exists>p' p''. pool_deallocate p i = Inr p' \<and> pool_allocate p' = Inr (Some i, p'') \<and>
    pool_free p'' = pool_free p \<and> pool_ok p'' \<and> storage p'' = storage p"
proof -
  obtain p' where d: "pool_deallocate p i = Inr p'" "pool_free p' = insert i (pool_free p)"
    "pool_ok p'" "storage p' = storage p" "pool_allocate p' = Inr (Some i, p'\<lparr>free_count := free_count p\<rparr>)"
    using pool_deallocate_some [OF assms] unfolding pool_deallocate_eq by blast
  note f = mp.alloc_fresh [OF d(3,5)]
  have "pool_free (p'\<lparr>free_count := free_count p\<rparr>) = pool_free p"
    using f(2,6) d(2) assms(3) by auto
  with d f(4) have "pool_deallocate p i = Inr p' \<and> pool_allocate p' = Inr (Some i, p'\<lparr>free_count := free_count p\<rparr>) \<and>
    pool_free (p'\<lparr>free_count := free_count p\<rparr>) = pool_free p \<and>
    pool_ok (p'\<lparr>free_count := free_count p\<rparr>) \<and> storage (p'\<lparr>free_count := free_count p\<rparr>) = storage p"
    by simp
  then show ?thesis by blast
qed

lemma pool_lifo_reuse_witness:
  "\<exists>p' p''. pool_deallocate (\<lparr>storage = [Some 3, None], free_list = [1, 0], free_count = 1\<rparr> :: nat mempool) 0
      = Inr p' \<and> pool_allocate p' = Inr (Some 0, p'') \<and> storage p'' = [Some 3, None]"
proof -
  let ?p = "\<lparr>storage = [Some 3, None], free_list = [1, 0], free_count = 1\<rparr> :: nat mempool"
  have "pool_ok ?p" "0 < pool_capacity ?p" "0 \<notin> pool_free ?p"
    by (simp_all add: pool_ok_def pool_capacity_def pool_free_def)
  from pool_lifo_reuse [OF this] show ?thesis by auto
qed

end
