(* ===== verification/OrderBook.thy ===== *)
theory OrderBook
  imports Types MemPool
begin

text \<open>
  The order book of \<open>exchange/src/order_book.rs\<close>: two maps from price to level, a map from
  order id to pool index, and a pool of orders. Links between orders of a level are pool
  indices. The definitions follow the source statement by statement; the two searches of
  \<open>add_order\<close> that end in \<open>break\<close> without an effect are not repeated, so that, as in the
  source, no order ever gets a successor link.

  \<open>book_view\<close> forgets indices, links and levels: what remains is the map from order ids to
  orders. The invariant \<open>book_ok\<close> states that map, pool and levels agree on it, and the
  operations are shown to implement insertion and removal on it.
\<close>

section \<open>The model\<close>

record Order =
  o_order_id :: OrderId
  o_client_id :: ClientId
  o_ticker_id :: TickerId
  o_side :: Side
  o_price :: Price
  o_qty :: Qty
  o_priority :: Priority
  o_prev_idx :: "nat option"
  o_next_idx :: "nat option"

record PriceLevel =
  lv_price :: Price
  lv_total_qty :: Qty
  lv_head_idx :: "nat option"
  lv_tail_idx :: "nat option"
  lv_order_count :: usize

definition PriceLevel_new :: "Price \<Rightarrow> PriceLevel" where
  "PriceLevel_new price =
     \<lparr>lv_price = price, lv_total_qty = 0, lv_head_idx = None, lv_tail_idx = None,
      lv_order_count = 0\<rparr>"

definition PriceLevel_is_empty :: "PriceLevel \<Rightarrow> bool" where
  "PriceLevel_is_empty l \<longleftrightarrow> lv_order_count l = 0"

record OrderIndex =
  pool_idx :: nat

record OrderBook =
  ob_ticker_id :: TickerId
  ob_bid_levels :: "(Price, PriceLevel) fmap"
  ob_ask_levels :: "(Price, PriceLevel) fmap"
  ob_order_map :: "(OrderId, OrderIndex) fmap"
  ob_order_pool :: "Order mempool"
  ob_next_priority :: Priority

definition ORDER_POOL_SIZE :: nat where
  "ORDER_POOL_SIZE = 65536"

definition OrderBook_of_pool :: "TickerId \<Rightarrow> Order mempool \<Rightarrow> OrderBook" where
  "OrderBook_of_pool ticker_id pool =
     \<lparr>ob_ticker_id = ticker_id, ob_bid_levels = fmempty, ob_ask_levels = fmempty,
      ob_order_map = fmempty, ob_order_pool = pool, ob_next_priority = 1\<rparr>"

definition OrderBook_new :: "TickerId \<Rightarrow> OrderBook outcome" where
  "OrderBook_new ticker_id =
     (case pool_new_boxed ORDER_POOL_SIZE of
        Inl f \<Rightarrow> Inl f
      | Inr pool \<Rightarrow> Inr (OrderBook_of_pool ticker_id pool))"

text \<open>The levels of one side, and their replacement.\<close>

primrec side_levels :: "Side \<Rightarrow> OrderBook \<Rightarrow> (Price, PriceLevel) fmap" where
  "side_levels Buy b = ob_bid_levels b"
| "side_levels Sell b = ob_ask_levels b"

primrec set_side_levels :: "Side \<Rightarrow> (Price, PriceLevel) fmap \<Rightarrow> OrderBook \<Rightarrow> OrderBook" where
  "set_side_levels Buy ls b = b\<lparr>ob_bid_levels := ls\<rparr>"
| "set_side_levels Sell ls b = b\<lparr>ob_ask_levels := ls\<rparr>"

definition add_order ::
  "OrderBook \<Rightarrow> ClientId \<Rightarrow> OrderId \<Rightarrow> Side \<Rightarrow> Price \<Rightarrow> Qty \<Rightarrow> (pool_ptr option \<times> OrderBook) outcome" where
  "add_order b client_id order_id side price qty =
     (if contains_key (ob_order_map b) order_id then Inr (None, b)
      else (case pool_allocate (ob_order_pool b) of
        Inl f \<Rightarrow> Inl f
      | Inr (None, pool) \<Rightarrow> Inr (None, b\<lparr>ob_order_pool := pool\<rparr>)
      | Inr (Some ptr, pool) \<Rightarrow>
          let priority = ob_next_priority b;
              order = \<lparr>o_order_id = order_id, o_client_id = client_id,
                       o_ticker_id = ob_ticker_id b, o_side = side, o_price = price,
                       o_qty = qty, o_priority = priority, o_prev_idx = None, o_next_idx = None\<rparr>;
              pool = pool_write pool ptr order;
              level = get_or (side_levels side b) price (PriceLevel_new price);
              (pool, level) =
                (case lv_tail_idx level of
                   Some tail_idx \<Rightarrow>
                     (pool_write pool ptr (order\<lparr>o_prev_idx := Some tail_idx\<rparr>),
                      level\<lparr>lv_tail_idx := Some ptr\<rparr>)
                 | None \<Rightarrow> (pool, level\<lparr>lv_head_idx := Some ptr, lv_tail_idx := Some ptr\<rparr>));
              level = level\<lparr>lv_total_qty := lv_total_qty level + qty,
                            lv_order_count := lv_order_count level + 1\<rparr>;
              b = set_side_levels side (fmupd price level (side_levels side b)) b
          in Inr (Some ptr,
               b\<lparr>ob_order_pool := pool, ob_next_priority := priority + 1,
                 ob_order_map := fmupd order_id \<lparr>pool_idx = ptr\<rparr> (ob_order_map b)\<rparr>)))"

text \<open>The relinking of a neighbour in \<open>cancel_order\<close>: an index out of the pool's bounds is
  skipped by the source's \<open>if let\<close>.\<close>

definition relink :: "Order mempool \<Rightarrow> nat \<Rightarrow> (Order \<Rightarrow> Order) \<Rightarrow> Order mempool outcome" where
  "relink pool idx f =
     (case pool_get_by_index pool idx of
        Inl e \<Rightarrow> Inl e
      | Inr None \<Rightarrow> Inr pool
      | Inr (Some neighbour) \<Rightarrow> Inr (pool_write pool idx (f neighbour)))"

definition unlink :: "Order mempool \<Rightarrow> PriceLevel \<Rightarrow> Order \<Rightarrow> (Order mempool \<times> PriceLevel) outcome" where
  "unlink pool level order =
     (case (case o_prev_idx order of
              Some prev \<Rightarrow> map_sum id (\<lambda>pool. (pool, level))
                (relink pool prev (\<lambda>n. n\<lparr>o_next_idx := o_next_idx order\<rparr>))
            | None \<Rightarrow> Inr (pool, level\<lparr>lv_head_idx := o_next_idx order\<rparr>)) of
        Inl e \<Rightarrow> Inl e
      | Inr (pool, level) \<Rightarrow>
          (case o_next_idx order of
             Some nxt \<Rightarrow> map_sum id (\<lambda>pool. (pool, level))
               (relink pool nxt (\<lambda>n. n\<lparr>o_prev_idx := o_prev_idx order\<rparr>))
           | None \<Rightarrow> Inr (pool, level\<lparr>lv_tail_idx := o_prev_idx order\<rparr>)))"

definition cancel_order :: "OrderBook \<Rightarrow> OrderId \<Rightarrow> (Order option \<times> OrderBook) outcome" where
  "cancel_order b order_id =
     (case fmlookup (ob_order_map b) order_id of
        None \<Rightarrow> Inr (None, b)
      | Some idx_info \<Rightarrow>
          let b = b\<lparr>ob_order_map := fmdrop order_id (ob_order_map b)\<rparr> in
          (case pool_get_by_index (ob_order_pool b) (pool_idx idx_info) of
             Inl e \<Rightarrow> Inl e
           | Inr None \<Rightarrow> Inr (None, b)
           | Inr (Some order) \<Rightarrow>
               let levels = side_levels (o_side order) b in
               (case fmlookup levels (o_price order) of
                  None \<Rightarrow> Inr (None, b)
                | Some level \<Rightarrow>
                    (case unlink (ob_order_pool b) level order of
                       Inl e \<Rightarrow> Inl e
                     | Inr (pool, level) \<Rightarrow>
                         let level = level\<lparr>lv_order_count := lv_order_count level - 1,
                                           lv_total_qty := lv_total_qty level - o_qty order\<rparr>;
                             levels = (if lv_order_count level = 0 then fmdrop (o_price order) levels
                                       else fmupd (o_price order) level levels)
                         in (case pool_deallocate_by_index pool (pool_idx idx_info) of
                               Inl e \<Rightarrow> Inl e
                             | Inr pool \<Rightarrow>
                                 Inr (Some order,
                                   (set_side_levels (o_side order) levels b)\<lparr>ob_order_pool := pool\<rparr>))))))"

text \<open>\<open>get_order\<close> and \<open>match_order\<close> are stubs of the source: no order is ever returned, and
  nothing is ever matched.\<close>

definition get_order :: "OrderBook \<Rightarrow> OrderId \<Rightarrow> Order option" where
  "get_order b order_id = None"

definition match_order :: "OrderBook \<Rightarrow> Side \<Rightarrow> Price \<Rightarrow> Qty \<Rightarrow> (OrderId \<times> Qty \<times> Price) list \<times> OrderBook" where
  "match_order b side price qty = ([], b)"

definition best_bid :: "OrderBook \<Rightarrow> Price option" where
  "best_bid b =
     (if fmdom (ob_bid_levels b) = {||} then None
      else Some (word_of_int (fMax (sint |`| fmdom (ob_bid_levels b)))))"

definition best_ask :: "OrderBook \<Rightarrow> Price option" where
  "best_ask b =
     (if fmdom (ob_ask_levels b) = {||} then None
      else Some (word_of_int (fMin (sint |`| fmdom (ob_ask_levels b)))))"

definition order_count :: "OrderBook \<Rightarrow> nat" where
  "order_count b = hm_len (ob_order_map b)"

definition bid_level_count :: "OrderBook \<Rightarrow> nat" where
  "bid_level_count b = hm_len (ob_bid_levels b)"

definition ask_level_count :: "OrderBook \<Rightarrow> nat" where
  "ask_level_count b = hm_len (ob_ask_levels b)"

section \<open>The book as a map of orders\<close>

text \<open>\<open>strip\<close> forgets the links; \<open>view\<close> follows the index of each order id.\<close>

definition strip :: "Order \<Rightarrow> Order" where
  "strip ord = ord\<lparr>o_prev_idx := None, o_next_idx := None\<rparr>"

definition view :: "(OrderId, OrderIndex) fmap \<Rightarrow> Order option list \<Rightarrow> OrderId \<Rightarrow> Order option" where
  "view M st k =
     (case fmlookup M k of None \<Rightarrow> None | Some ix \<Rightarrow> map_option strip (st ! pool_idx ix))"

definition book_view :: "OrderBook \<Rightarrow> OrderId \<Rightarrow> Order option" where
  "book_view b = view (ob_order_map b) (storage (ob_order_pool b))"

text \<open>The orders resting at one price of one side.\<close>

definition resting :: "(OrderId \<Rightarrow> Order option) \<Rightarrow> Side \<Rightarrow> Price \<Rightarrow> OrderId set" where
  "resting v sd p = {k. \<exists>ord. v k = Some ord \<and> o_side ord = sd \<and> o_price ord = p}"

text \<open>A side's levels are exactly the prices with resting orders, each with their number and
  their total quantity (modulo \<open>2 ^ 32\<close>).\<close>

definition level_ok :: "(OrderId \<Rightarrow> Order option) \<Rightarrow> Side \<Rightarrow> Price \<Rightarrow> PriceLevel option \<Rightarrow> bool" where
  "level_ok v sd p l \<longleftrightarrow>
     (case l of
        None \<Rightarrow> resting v sd p = {}
      | Some lv \<Rightarrow> resting v sd p \<noteq> {} \<and> lv_price lv = p \<and>
          lv_order_count lv = of_nat (card (resting v sd p)) \<and>
          lv_total_qty lv = (\<Sum>k \<in> resting v sd p. o_qty (the (v k))))"

definition index_ok :: "TickerId \<Rightarrow> Order mempool \<Rightarrow> (OrderId, OrderIndex) fmap \<Rightarrow> bool" where
  "index_ok tid P M \<longleftrightarrow>
     (\<forall>k ix. fmlookup M k = Some ix \<longrightarrow>
        pool_idx ix < pool_capacity P \<and> pool_idx ix \<notin> pool_free P \<and>
        (\<exists>ord. storage P ! pool_idx ix = Some ord \<and> o_order_id ord = k \<and> o_ticker_id ord = tid)) \<and>
     (\<forall>i < pool_capacity P. i \<notin> pool_free P \<longrightarrow> (\<exists>k ix. fmlookup M k = Some ix \<and> pool_idx ix = i))"

text \<open>Links address initialised slots, and successor links are never set.\<close>

definition slot_ok :: "Order option list \<Rightarrow> nat option \<Rightarrow> bool" where
  "slot_ok st l \<longleftrightarrow> (\<forall>i. l = Some i \<longrightarrow> i < length st \<and> st ! i \<noteq> None)"

definition links_ok :: "Order option list \<Rightarrow> bool" where
  "links_ok st \<longleftrightarrow>
     (\<forall>i ord. i < length st \<and> st ! i = Some ord \<longrightarrow> o_next_idx ord = None \<and> slot_ok st (o_prev_idx ord))"

definition book_ok :: "OrderBook \<Rightarrow> bool" where
  "book_ok b \<longleftrightarrow>
     pool_ok (ob_order_pool b) \<and> pool_capacity (ob_order_pool b) < 2 ^ 64 \<and>
     index_ok (ob_ticker_id b) (ob_order_pool b) (ob_order_map b) \<and>
     links_ok (storage (ob_order_pool b)) \<and>
     (\<forall>sd p. level_ok (book_view b) sd p (fmlookup (side_levels sd b) p)) \<and>
     (\<forall>sd p lv. fmlookup (side_levels sd b) p = Some lv \<longrightarrow>
        slot_ok (storage (ob_order_pool b)) (lv_tail_idx lv))"

lemma strip_simps [simp]:
  "o_order_id (strip ord) = o_order_id ord" "o_client_id (strip ord) = o_client_id ord"
  "o_ticker_id (strip ord) = o_ticker_id ord" "o_side (strip ord) = o_side ord"
  "o_price (strip ord) = o_price ord" "o_qty (strip ord) = o_qty ord"
  "o_priority (strip ord) = o_priority ord" "strip (strip ord) = strip ord"
  "strip (ord\<lparr>o_prev_idx := l\<rparr>) = strip ord" "strip (ord\<lparr>o_next_idx := l\<rparr>) = strip ord"
  by (simp_all add: strip_def)

lemma side_levels_simps [simp]:
  "side_levels sd (set_side_levels sd' ls b) = (if sd = sd' then ls else side_levels sd b)"
  "ob_order_map (set_side_levels sd ls b) = ob_order_map b"
  "ob_order_pool (set_side_levels sd ls b) = ob_order_pool b"
  "ob_ticker_id (set_side_levels sd ls b) = ob_ticker_id b"
  "ob_next_priority (set_side_levels sd ls b) = ob_next_priority b"
  "side_levels sd (b\<lparr>ob_order_pool := P\<rparr>) = side_levels sd b"
  "side_levels sd (b\<lparr>ob_order_map := M\<rparr>) = side_levels sd b"
  "side_levels sd (b\<lparr>ob_next_priority := n\<rparr>) = side_levels sd b"
  by (cases sd; cases sd'; simp)+

lemma finite_resting:
  "resting (view M st) sd p \<subseteq> fmdom' M" "finite (resting (view M st) sd p)"
proof -
  show "resting (view M st) sd p \<subseteq> fmdom' M"
    by (auto simp: resting_def view_def fmdom'I split: option.splits)
  then show "finite (resting (view M st) sd p)" by (rule finite_subset) simp
qed

lemma resting_update:
  "v k = None \<Longrightarrow> resting (v(k \<mapsto> ord)) sd p =
     (if o_side ord = sd \<and> o_price ord = p then insert k (resting v sd p) else resting v sd p)"
  by (auto simp: resting_def)

lemma resting_delete: "resting (v(k := None)) sd p = resting v sd p - {k}"
  by (auto simp: resting_def)

lemma resting_iff: "v k = Some ord \<Longrightarrow> k \<in> resting v sd p \<longleftrightarrow> o_side ord = sd \<and> o_price ord = p"
  by (simp add: resting_def)

text \<open>How a level tracks an insertion and a removal.\<close>

lemma level_ok_insert:
  assumes ok: "level_ok v (o_side ord) (o_price ord) l" and k: "v k = None"
    and fin: "finite (resting v (o_side ord) (o_price ord))"
    and lv: "lv_price lv = o_price ord"
      "lv_order_count lv = (case l of None \<Rightarrow> 0 | Some l' \<Rightarrow> lv_order_count l') + 1"
      "lv_total_qty lv = (case l of None \<Rightarrow> 0 | Some l' \<Rightarrow> lv_total_qty l') + o_qty ord"
  shows "level_ok (v(k \<mapsto> ord)) (o_side ord) (o_price ord) (Some lv)"
proof -
  let ?R = "resting v (o_side ord) (o_price ord)"
  have notin: "k \<notin> ?R" using k by (simp add: resting_def)
  have "(\<Sum>j \<in> ?R. o_qty (the ((v(k \<mapsto> ord)) j))) = (\<Sum>j \<in> ?R. o_qty (the (v j)))"
    using notin by (intro sum.cong) auto
  with ok lv fin notin resting_update [of v k ord "o_side ord" "o_price ord"] k show ?thesis
    by (auto simp: level_ok_def algebra_simps split: option.splits)
qed

lemma level_ok_remove:
  assumes ok: "level_ok v (o_side ord) (o_price ord) (Some l)" and k: "v k = Some ord"
    and fin: "finite (resting v (o_side ord) (o_price ord))"
    and small: "card (resting v (o_side ord) (o_price ord)) < 2 ^ 64"
    and lv: "lv_price lv = lv_price l" "lv_order_count lv = lv_order_count l - 1"
      "lv_total_qty lv = lv_total_qty l - o_qty ord"
  shows "level_ok (v(k := None)) (o_side ord) (o_price ord)
    (if lv_order_count lv = 0 then None else Some lv)"
proof -
  let ?R = "resting v (o_side ord) (o_price ord)"
  have R: "resting (v(k := None)) (o_side ord) (o_price ord) = ?R - {k}" by (rule resting_delete)
  have mem: "k \<in> ?R" using k by (simp add: resting_def)
  then have pos: "0 < card ?R" using fin by (auto simp: card_gt_0_iff)
  have c: "card (?R - {k}) = card ?R - 1" using mem by simp
  have cnt: "lv_order_count lv = of_nat (card (?R - {k}))"
    using ok lv(2) pos unfolding c by (simp add: level_ok_def of_nat_diff)
  have "card (?R - {k}) < 2 ^ 64" using small unfolding c by linarith
  then have z: "lv_order_count lv = 0 \<longleftrightarrow> card (?R - {k}) = 0"
    unfolding cnt by (rule of_nat_eq_0_u64)
  have "(\<Sum>j \<in> ?R. o_qty (the (v j))) = o_qty ord + (\<Sum>j \<in> ?R - {k}. o_qty (the (v j)))"
    using sum.remove [OF fin mem, of "\<lambda>j. o_qty (the (v j))"] k by simp
  moreover have "(\<Sum>j \<in> ?R - {k}. o_qty (the (v j))) = (\<Sum>j \<in> ?R - {k}. o_qty (the ((v(k := None)) j)))"
    by (intro sum.cong) auto
  moreover have "lv_total_qty l = (\<Sum>j \<in> ?R. o_qty (the (v j)))" using ok by (simp add: level_ok_def)
  ultimately have qty: "lv_total_qty lv = (\<Sum>j \<in> ?R - {k}. o_qty (the ((v(k := None)) j)))"
    unfolding lv(3) by (simp only: add_diff_cancel_left')
  have emp: "card (?R - {k}) = 0 \<longleftrightarrow> ?R - {k} = {}" using fin by simp
  show ?thesis
  proof (cases "lv_order_count lv = 0")
    case True
    then show ?thesis using z emp by (simp add: level_ok_def R)
  next
    case False
    then show ?thesis using z emp cnt qty lv(1) ok by (simp add: level_ok_def R)
  qed
qed

text \<open>The view under a write to the pool.\<close>

lemma view_write_new:
  assumes "fmlookup M k = None" "i < length st"
    and "\<And>j ix. fmlookup M j = Some ix \<Longrightarrow> i \<noteq> pool_idx ix"
  shows "view (fmupd k \<lparr>pool_idx = i\<rparr> M) (st[i := Some ord]) = (view M st)(k \<mapsto> strip ord)"
proof
  fix j
  show "view (fmupd k \<lparr>pool_idx = i\<rparr> M) (st[i := Some ord]) j = ((view M st)(k \<mapsto> strip ord)) j"
    using assms by (cases "fmlookup M j") (auto simp: view_def)
qed

lemma view_drop: "view (fmdrop k M) st = (view M st)(k := None)"
  by (rule ext) (simp add: view_def)

lemma view_Some_iff: 
  "index_ok tid P M \<Longrightarrow> view M (storage P) k = None \<longleftrightarrow> fmlookup M k = None"
  by (fastforce simp: index_ok_def view_def split: option.splits)

lemma view_None: "fmlookup M k = None \<Longrightarrow> view M st k = None"
  by (simp add: view_def)

text \<open>As successor links are never set, unlinking changes no order: it only overwrites the
  ends of the level.\<close>

lemma unlink_links_ok:
  assumes "links_ok (storage pool)" "i < length (storage pool)" "storage pool ! i = Some ord"
  shows "unlink pool level ord = Inr (pool,
    (case o_prev_idx ord of None \<Rightarrow> level\<lparr>lv_head_idx := None\<rparr> | Some _ \<Rightarrow> level)
      \<lparr>lv_tail_idx := o_prev_idx ord\<rparr>)"
proof -
  have n: "o_next_idx ord = None" and s: "slot_ok (storage pool) (o_prev_idx ord)"
    using assms by (auto simp: links_ok_def)
  show ?thesis
  proof (cases "o_prev_idx ord")
    case None
    with n show ?thesis by (simp add: unlink_def)
  next
    case (Some prev)
    with s obtain o' where p: "prev < length (storage pool)" "storage pool ! prev = Some o'"
      by (auto simp: slot_ok_def)
    then have "o_next_idx o' = None" using assms(1) by (auto simp: links_ok_def)
    then have "o'\<lparr>o_next_idx := None\<rparr> = o'" by simp
    then have "relink pool prev (\<lambda>n. n\<lparr>o_next_idx := None\<rparr>) = Inr pool"
      using p by (simp add: relink_def pool_get_by_index_def pool_write_def list_update_same_conv)
    with Some n show ?thesis by (simp add: unlink_def)
  qed
qed

text \<open>The levels at the other prices do not see the change.\<close>

lemma level_ok_cong:
  assumes "resting v sd p = resting v' sd p" "\<And>k. k \<in> resting v' sd p \<Longrightarrow> v k = v' k"
  shows "level_ok v sd p l = level_ok v' sd p l"
proof -
  have "(\<Sum>k \<in> resting v' sd p. o_qty (the (v k))) = (\<Sum>k \<in> resting v' sd p. o_qty (the (v' k)))"
    using assms(2) by (intro sum.cong) auto
  with assms(1) show ?thesis by (simp add: level_ok_def split: option.split)
qed

lemma level_ok_other:
  assumes "\<not> (o_side ord = sd \<and> o_price ord = p)"
  shows "v k = None \<Longrightarrow> level_ok (v(k \<mapsto> ord)) sd p l = level_ok v sd p l"
    and "v k = Some ord \<Longrightarrow> level_ok (v(k := None)) sd p l = level_ok v sd p l"
proof -
  show "level_ok (v(k \<mapsto> ord)) sd p l = level_ok v sd p l" if "v k = None"
    using assms that by (intro level_ok_cong) (auto simp: resting_update resting_def)
  show "level_ok (v(k := None)) sd p l = level_ok v sd p l" if "v k = Some ord"
    using assms that by (intro level_ok_cong) (auto simp: resting_delete resting_def)
qed

lemma slot_ok_write: "slot_ok st l \<Longrightarrow> slot_ok (st[i := Some ord]) l"
  by (auto simp: slot_ok_def nth_list_update_if)

lemma slot_ok_written: "i < length st \<Longrightarrow> slot_ok (st[i := Some ord]) (Some i)"
  by (simp add: slot_ok_def)

lemma links_ok_write:
  "links_ok st \<Longrightarrow> o_next_idx ord = None \<Longrightarrow> slot_ok st (o_prev_idx ord) \<Longrightarrow> links_ok (st[i := Some ord])"
  by (auto simp: links_ok_def nth_list_update_if slot_ok_write split: if_splits)

lemma index_ok_insert:
  assumes ok: "index_ok tid P M" and k: "fmlookup M k = None"
    and i: "i < pool_capacity P" "i \<notin> pool_free P'" "pool_free P = insert i (pool_free P')"
    and st: "storage P' = (storage P)[i := Some ord]"
    and ord: "o_order_id ord = k" "o_ticker_id ord = tid"
  shows "index_ok tid P' (fmupd k \<lparr>pool_idx = i\<rparr> M)"
proof -
  have cap: "pool_capacity P' = pool_capacity P" using st by (simp add: pool_capacity_def)
  show ?thesis
    using ok k i ord unfolding index_ok_def cap st
    by (auto simp: pool_capacity_def nth_list_update) (metis option.distinct(1))
qed

lemma index_okD:
  assumes "index_ok tid P M" "fmlookup M k = Some ix"
  shows "pool_idx ix < pool_capacity P" "pool_idx ix \<notin> pool_free P"
    "\<exists>ord. storage P ! pool_idx ix = Some ord \<and> o_order_id ord = k \<and> o_ticker_id ord = tid"
  using assms unfolding index_ok_def by simp_all

lemma index_ok_inj:
  assumes ok: "index_ok tid P M" and k: "fmlookup M j = Some ix" "fmlookup M k = Some ix'"
    and eq: "pool_idx ix = pool_idx ix'"
  shows "j = k"
  using index_okD(3) [OF ok k(1)] index_okD(3) [OF ok k(2)] eq by auto

lemma index_ok_remove:
  assumes ok: "index_ok tid P M" and k: "fmlookup M k = Some ix"
    and free: "pool_free P' = insert (pool_idx ix) (pool_free P)" and st: "storage P' = storage P"
  shows "index_ok tid P' (fmdrop k M)"
proof -
  have cap: "pool_capacity P' = pool_capacity P" using st by (simp add: pool_capacity_def)
  have inj: "pool_idx ix' \<noteq> pool_idx ix" if "fmlookup M k' = Some ix'" "k' \<noteq> k" for k' ix'
    using index_ok_inj [OF ok that(1) k] that(2) by blast
  have used: "\<exists>k' ix'. fmlookup (fmdrop k M) k' = Some ix' \<and> pool_idx ix' = i"
    if i: "i < pool_capacity P" "i \<noteq> pool_idx ix" "i \<notin> pool_free P" for i
  proof -
    obtain k' ix' where "fmlookup M k' = Some ix'" "pool_idx ix' = i"
      using ok i unfolding index_ok_def by blast
    moreover from this have "k' \<noteq> k" using k i(2) by auto
    ultimately show ?thesis by auto
  qed
  show ?thesis
    using ok inj used unfolding index_ok_def cap st free by auto
qed

lemma index_ok_card:
  assumes ok: "index_ok tid P M"
  shows "card (fmdom' M) \<le> pool_capacity P"
proof -
  let ?f = "\<lambda>k. pool_idx (the (fmlookup M k))"
  have "inj_on ?f (fmdom' M)"
  proof (rule inj_onI)
    fix j k assume jk: "j \<in> fmdom' M" "k \<in> fmdom' M" "?f j = ?f k"
    then obtain ix ix' where "fmlookup M j = Some ix" "fmlookup M k = Some ix'"
      by (auto simp: fmlookup_dom'_iff)
    with jk(3) show "j = k" using index_ok_inj [OF ok] by auto
  qed
  moreover have "?f ` fmdom' M \<subseteq> {..<pool_capacity P}"
    using ok by (auto simp: index_ok_def fmlookup_dom'_iff)
  ultimately have "card (fmdom' M) \<le> card {..<pool_capacity P}" by (intro card_inj_on_le) auto
  then show ?thesis by simp
qed

section \<open>The operations on the view\<close>

text \<open>The order that \<open>add_order\<close> inserts.\<close>

definition fresh_order :: "OrderBook \<Rightarrow> ClientId \<Rightarrow> OrderId \<Rightarrow> Side \<Rightarrow> Price \<Rightarrow> Qty \<Rightarrow> Order" where
  "fresh_order b client_id order_id side price qty =
     \<lparr>o_order_id = order_id, o_client_id = client_id, o_ticker_id = ob_ticker_id b, o_side = side,
      o_price = price, o_qty = qty, o_priority = ob_next_priority b, o_prev_idx = None,
      o_next_idx = None\<rparr>"

lemma fresh_order_simps [simp]:
  "o_order_id (fresh_order b c k sd p q) = k" "o_client_id (fresh_order b c k sd p q) = c"
  "o_ticker_id (fresh_order b c k sd p q) = ob_ticker_id b" "o_side (fresh_order b c k sd p q) = sd"
  "o_price (fresh_order b c k sd p q) = p" "o_qty (fresh_order b c k sd p q) = q"
  "o_priority (fresh_order b c k sd p q) = ob_next_priority b"
  by (simp_all add: fresh_order_def)

lemma book_okD:
  assumes "book_ok b"
  shows "pool_ok (ob_order_pool b)" "pool_capacity (ob_order_pool b) < 2 ^ 64"
    "index_ok (ob_ticker_id b) (ob_order_pool b) (ob_order_map b)"
    "links_ok (storage (ob_order_pool b))"
    "level_ok (book_view b) sd p (fmlookup (side_levels sd b) p)"
    "fmlookup (side_levels sd b) p = Some lv \<Longrightarrow> slot_ok (storage (ob_order_pool b)) (lv_tail_idx lv)"
  using assms unfolding book_ok_def by auto

lemma book_view_None: "book_ok b \<Longrightarrow> book_view b k = None \<longleftrightarrow> fmlookup (ob_order_map b) k = None"
  unfolding book_view_def using book_okD(3) by (rule view_Some_iff)

lemma levels_ok_insert:
  assumes ok: "\<And>sd p. level_ok v sd p (fmlookup (L sd) p)" and k: "v k = None"
    and fin: "finite (resting v (o_side ord) (o_price ord))"
    and level: "level = get_or (L (o_side ord)) (o_price ord) (PriceLevel_new (o_price ord))"
    and lv: "lv_price lv = lv_price level" "lv_order_count lv = lv_order_count level + 1"
      "lv_total_qty lv = lv_total_qty level + o_qty ord"
  shows "level_ok (v(k \<mapsto> ord)) sd p
    (fmlookup (if sd = o_side ord then fmupd (o_price ord) lv (L (o_side ord)) else L sd) p)"
proof (cases "o_side ord = sd \<and> o_price ord = p")
  case True
  have l: "level_ok v (o_side ord) (o_price ord) (fmlookup (L (o_side ord)) (o_price ord))" by (rule ok)
  then have "lv_price level = o_price ord"
    by (auto simp: level get_or_def PriceLevel_new_def level_ok_def split: option.splits)
  with l have "level_ok (v(k \<mapsto> ord)) (o_side ord) (o_price ord) (Some lv)"
    using lv k fin
    by (intro level_ok_insert) (auto simp: level get_or_def PriceLevel_new_def split: option.splits)
  with True show ?thesis by simp
next
  case False
  then have "level_ok (v(k \<mapsto> ord)) sd p (fmlookup (L sd) p)"
    using ok [of sd p] k by (simp add: level_ok_other(1))
  with False show ?thesis by auto
qed

text \<open>The body of \<open>add_order\<close> after the allocation: the stored order, differing from
  \<open>fresh_order\<close> in its link, and the updated level.\<close>

lemma add_order_unfold:
  assumes new: "fmlookup (ob_order_map b) k = None"
    and alloc: "pool_allocate (ob_order_pool b) = Inr (Some i, P)"
    and level: "level = get_or (side_levels sd b) p (PriceLevel_new p)"
  shows "\<exists>ord lv. add_order b c k sd p q =
      Inr (Some i, (set_side_levels sd (fmupd p lv (side_levels sd b)) b)
        \<lparr>ob_order_pool := pool_write P i ord, ob_next_priority := ob_next_priority b + 1,
         ob_order_map := fmupd k \<lparr>pool_idx = i\<rparr> (ob_order_map b)\<rparr>) \<and>
      strip ord = fresh_order b c k sd p q \<and> o_next_idx ord = None \<and>
      o_prev_idx ord = lv_tail_idx level \<and> lv_price lv = lv_price level \<and>
      lv_tail_idx lv = Some i \<and> lv_order_count lv = lv_order_count level + 1 \<and>
      lv_total_qty lv = lv_total_qty level + q"
proof (cases "lv_tail_idx level")
  case None
  with assms show ?thesis
    by (intro exI [where x = "fresh_order b c k sd p q"]
        exI [where x = "level\<lparr>lv_head_idx := Some i, lv_tail_idx := Some i,
          lv_total_qty := lv_total_qty level + q, lv_order_count := lv_order_count level + 1\<rparr>"])
      (simp add: add_order_def Let_def fresh_order_def strip_def)
next
  case (Some t)
  with assms show ?thesis
    by (intro exI [where x = "(fresh_order b c k sd p q)\<lparr>o_prev_idx := Some t\<rparr>"]
        exI [where x = "level\<lparr>lv_tail_idx := Some i,
          lv_total_qty := lv_total_qty level + q, lv_order_count := lv_order_count level + 1\<rparr>"])
      (simp add: add_order_def Let_def fresh_order_def strip_def pool_write_def)
qed

lemma add_order_some:
  assumes ok: "book_ok b" and new: "fmlookup (ob_order_map b) k = None"
    and room: "pool_free (ob_order_pool b) \<noteq> {}"
  shows "\<exists>i b'. add_order b c k sd p q = Inr (Some i, b') \<and> book_ok b' \<and>
    book_view b' = (book_view b)(k \<mapsto> fresh_order b c k sd p q) \<and>
    fmdom (ob_order_map b') = finsert k (fmdom (ob_order_map b)) \<and>
    ob_ticker_id b' = ob_ticker_id b \<and> ob_next_priority b' = ob_next_priority b + 1 \<and>
    pool_capacity (ob_order_pool b') = pool_capacity (ob_order_pool b) \<and>
    pool_free (ob_order_pool b) = insert i (pool_free (ob_order_pool b')) \<and>
    i \<notin> pool_free (ob_order_pool b')"
proof -
  let ?P0 = "ob_order_pool b" and ?M = "ob_order_map b"
  note okD = book_okD [OF ok]
  obtain i P where alloc: "pool_allocate ?P0 = Inr (Some i, P)" and st: "storage P = storage ?P0"
    using pool_allocate_some [OF okD(1) room] by blast
  note f = mp.alloc_fresh [OF okD(1) alloc]
  define level where "level = get_or (side_levels sd b) p (PriceLevel_new p)"
  obtain ord lv where add: "add_order b c k sd p q =
      Inr (Some i, (set_side_levels sd (fmupd p lv (side_levels sd b)) b)
        \<lparr>ob_order_pool := pool_write P i ord, ob_next_priority := ob_next_priority b + 1,
         ob_order_map := fmupd k \<lparr>pool_idx = i\<rparr> ?M\<rparr>)" (is "_ = Inr (_, ?b)")
    and ord: "strip ord = fresh_order b c k sd p q" "o_next_idx ord = None"
      "o_prev_idx ord = lv_tail_idx level"
    and lv: "lv_price lv = lv_price level" "lv_tail_idx lv = Some i"
      "lv_order_count lv = lv_order_count level + 1" "lv_total_qty lv = lv_total_qty level + q"
    using add_order_unfold [OF new alloc level_def] by blast
  have len: "i < length (storage ?P0)" using f(3) by (simp add: pool_capacity_def)
  have unused: "i \<noteq> pool_idx ix" if "fmlookup ?M j = Some ix" for j ix
    using index_okD(2) [OF okD(3) that] f(1) by blast
  have view: "book_view ?b = (book_view b)(k \<mapsto> fresh_order b c k sd p q)"
    unfolding book_view_def using view_write_new [OF new len unused] ord(1) st by simp
  have tail: "slot_ok (storage ?P0) (lv_tail_idx level)"
    unfolding level_def get_or_def using okD(6) [of sd p]
    by (auto simp: PriceLevel_new_def slot_ok_def split: option.splits)
  have o_fields: "o_order_id ord = k" "o_ticker_id ord = ob_ticker_id b"
    using arg_cong [OF ord(1), of o_order_id] arg_cong [OF ord(1), of o_ticker_id]
    by (simp_all add: fresh_order_def)
  have idx: "index_ok (ob_ticker_id b) (pool_write P i ord) (fmupd k \<lparr>pool_idx = i\<rparr> ?M)"
    by (rule index_ok_insert [OF okD(3) new f(3) _ _ _ o_fields]) (simp_all add: f st)
  have fin: "finite (resting (book_view b) sd p)" unfolding book_view_def by (rule finite_resting)
  have vk: "book_view b k = None" using book_view_None [OF ok] new by simp
  have levels: "side_levels sd' ?b =
      (if sd' = sd then fmupd p lv (side_levels sd b) else side_levels sd' b)" for sd' by simp
  have lvl: "level_ok (book_view ?b) sd' p' (fmlookup (side_levels sd' ?b) p')" for sd' p'
    unfolding view levels
    using levels_ok_insert [of "book_view b" "\<lambda>sd. side_levels sd b" k "fresh_order b c k sd p q"
        level lv sd' p'] okD(5) vk fin lv by (simp only: fresh_order_simps level_def)
  have tails: "slot_ok (storage (ob_order_pool ?b)) (lv_tail_idx lv')"
    if "fmlookup (side_levels sd' ?b) p' = Some lv'" for sd' p' lv'
  proof (cases "sd = sd' \<and> p = p'")
    case True
    with that lv(2) len st show ?thesis by (auto simp: slot_ok_written)
  next
    case False
    with that have "fmlookup (side_levels sd' b) p' = Some lv'" by (auto split: if_splits)
    then show ?thesis using okD(6) st by (auto intro: slot_ok_write)
  qed
  have "book_ok ?b"
    unfolding book_ok_def
    using f okD(2) idx lvl tails links_ok_write [OF okD(4) ord(2)] tail ord(3) st by simp
  with add view f show ?thesis by (intro exI [where x = i] exI [where x = ?b]) simp
qed

lemma levels_ok_remove:
  assumes ok: "\<And>sd p. level_ok v sd p (fmlookup (L sd) p)" and k: "v k = Some ord"
    and l: "fmlookup (L (o_side ord)) (o_price ord) = Some l"
    and fin: "finite (resting v (o_side ord) (o_price ord))"
    and small: "card (resting v (o_side ord) (o_price ord)) < 2 ^ 64"
    and lv: "lv_price lv = lv_price l" "lv_order_count lv = lv_order_count l - 1"
      "lv_total_qty lv = lv_total_qty l - o_qty ord"
  shows "level_ok (v(k := None)) sd p
    (fmlookup (if sd = o_side ord
               then (if lv_order_count lv = 0 then fmdrop (o_price ord) (L (o_side ord))
                     else fmupd (o_price ord) lv (L (o_side ord)))
               else L sd) p)"
proof (cases "o_side ord = sd \<and> o_price ord = p")
  case True
  have "level_ok v (o_side ord) (o_price ord) (Some l)" using ok l by metis
  from level_ok_remove [OF this k fin small lv] True show ?thesis by auto
next
  case False
  then have "level_ok (v(k := None)) sd p (fmlookup (L sd) p)"
    using ok [of sd p] k by (simp add: level_ok_other(2))
  with False show ?thesis by auto
qed

lemma resting_small:
  assumes ok: "book_ok b"
  shows "finite (resting (book_view b) sd p)" "card (resting (book_view b) sd p) < 2 ^ 64"
proof -
  show "finite (resting (book_view b) sd p)" unfolding book_view_def by (rule finite_resting)
  have "card (resting (book_view b) sd p) \<le> card (fmdom' (ob_order_map b))"
    unfolding book_view_def by (rule card_mono [OF _ finite_resting(1)]) simp
  with index_ok_card [OF book_okD(3) [OF ok]] book_okD(2) [OF ok]
  show "card (resting (book_view b) sd p) < 2 ^ 64" by linarith
qed

text \<open>The body of \<open>cancel_order\<close> for an order that is found: the level it leaves behind.\<close>

lemma cancel_order_unfold:
  assumes links: "links_ok (storage (ob_order_pool b))"
    and ix: "fmlookup (ob_order_map b) k = Some ix" "pool_idx ix < length (storage (ob_order_pool b))"
      "storage (ob_order_pool b) ! pool_idx ix = Some ord"
    and l: "fmlookup (side_levels (o_side ord) b) (o_price ord) = Some l"
    and P': "pool_deallocate_by_index (ob_order_pool b) (pool_idx ix) = Inr P'"
  shows "\<exists>lv. cancel_order b k = Inr (Some ord,
      (set_side_levels (o_side ord)
        (if lv_order_count lv = 0 then fmdrop (o_price ord) (side_levels (o_side ord) b)
         else fmupd (o_price ord) lv (side_levels (o_side ord) b))
        (b\<lparr>ob_order_map := fmdrop k (ob_order_map b)\<rparr>))\<lparr>ob_order_pool := P'\<rparr>) \<and>
    lv_price lv = lv_price l \<and> lv_order_count lv = lv_order_count l - 1 \<and>
    lv_total_qty lv = lv_total_qty l - o_qty ord \<and> lv_tail_idx lv = o_prev_idx ord"
proof -
  define l1 where "l1 = (case o_prev_idx ord of None \<Rightarrow> l\<lparr>lv_head_idx := None\<rparr> | Some _ \<Rightarrow> l)
      \<lparr>lv_tail_idx := o_prev_idx ord\<rparr>"
  have l1: "lv_price l1 = lv_price l" "lv_order_count l1 = lv_order_count l"
    "lv_total_qty l1 = lv_total_qty l" "lv_tail_idx l1 = o_prev_idx ord"
    by (simp_all add: l1_def split: option.split)
  have "unlink (ob_order_pool b) l ord = Inr (ob_order_pool b, l1)"
    using unlink_links_ok [OF links ix(2,3)] by (simp add: l1_def)
  with ix l P' l1 show ?thesis
    by (intro exI [where x = "l1\<lparr>lv_order_count := lv_order_count l1 - 1,
          lv_total_qty := lv_total_qty l1 - o_qty ord\<rparr>"])
      (simp add: cancel_order_def Let_def pool_get_by_index_def)
qed

lemma cancel_order_some:
  assumes ok: "book_ok b" and k: "book_view b k = Some vo"
  shows "\<exists>ord b'. cancel_order b k = Inr (Some ord, b') \<and> strip ord = vo \<and> book_ok b' \<and>
    book_view b' = (book_view b)(k := None) \<and>
    fmdom (ob_order_map b') = fmdom (ob_order_map b) |-| {|k|} \<and>
    ob_ticker_id b' = ob_ticker_id b \<and> ob_next_priority b' = ob_next_priority b \<and>
    pool_capacity (ob_order_pool b') = pool_capacity (ob_order_pool b) \<and>
    (\<exists>i. i \<notin> pool_free (ob_order_pool b) \<and>
      pool_free (ob_order_pool b') = insert i (pool_free (ob_order_pool b)))"
proof -
  let ?P = "ob_order_pool b" and ?M = "ob_order_map b"
  note okD = book_okD [OF ok]
  obtain ix where ix: "fmlookup ?M k = Some ix" using k book_view_None [OF ok, of k] by auto
  note i = index_okD [OF okD(3) ix]
  have len: "pool_idx ix < length (storage ?P)" using i(1) by (simp add: pool_capacity_def)
  obtain ord where ord: "storage ?P ! pool_idx ix = Some ord" using i(3) by auto
  have vo: "strip ord = vo" using k ix ord by (simp add: book_view_def view_def)
  have sp: "o_side vo = o_side ord" "o_price vo = o_price ord" "o_qty vo = o_qty ord"
    unfolding vo [symmetric] by simp_all
  obtain l where l: "fmlookup (side_levels (o_side ord) b) (o_price ord) = Some l"
    using okD(5) [of "o_side ord" "o_price ord"] k sp
    by (cases "fmlookup (side_levels (o_side ord) b) (o_price ord)") (auto simp: level_ok_def resting_def)
  obtain P' where P': "pool_deallocate_by_index ?P (pool_idx ix) = Inr P'"
    "pool_free P' = insert (pool_idx ix) (pool_free ?P)" "pool_ok P'" "storage P' = storage ?P"
    using pool_deallocate_some [OF okD(1) i(1,2)] by blast
  obtain lv where cancel: "cancel_order b k = Inr (Some ord,
      (set_side_levels (o_side ord)
        (if lv_order_count lv = 0 then fmdrop (o_price ord) (side_levels (o_side ord) b)
         else fmupd (o_price ord) lv (side_levels (o_side ord) b))
        (b\<lparr>ob_order_map := fmdrop k ?M\<rparr>))\<lparr>ob_order_pool := P'\<rparr>)" (is "_ = Inr (_, ?b')")
    and lv: "lv_price lv = lv_price l" "lv_order_count lv = lv_order_count l - 1"
      "lv_total_qty lv = lv_total_qty l - o_qty ord" "lv_tail_idx lv = o_prev_idx ord"
    using cancel_order_unfold [OF okD(4) ix len ord l P'(1)] by blast
  have view: "book_view ?b' = (book_view b)(k := None)"
    by (simp add: book_view_def P'(4) view_drop)
  have lvl: "level_ok (book_view ?b') sd p (fmlookup (side_levels sd ?b') p)" for sd p
    using levels_ok_remove [OF okD(5) k, unfolded sp, OF l resting_small [OF ok] lv(1-3), of sd p]
    unfolding view by (simp only: side_levels_simps OrderBook.simps)
  have "slot_ok (storage ?P) (lv_tail_idx lv)" using okD(4) len ord lv(4) by (auto simp: links_ok_def)
  then have tails: "slot_ok (storage P') (lv_tail_idx lv')"
    if "fmlookup (side_levels sd ?b') p = Some lv'" for sd p lv'
    using that okD(6) P'(4) by (auto split: if_splits)
  have cap: "pool_capacity P' = pool_capacity ?P" using P'(4) by (simp add: pool_capacity_def)
  have "book_ok ?b'"
    unfolding book_ok_def
    using P'(3,4) cap okD(2,4) index_ok_remove [OF okD(3) ix P'(2,4)] lvl tails by simp
  with cancel vo view cap P'(2) i(2) show ?thesis
    by (intro exI [where x = ord] exI [where x = ?b']) (auto simp: fmdom_drop)
qed

lemma cancel_order_none: "book_ok b \<Longrightarrow> book_view b k = None \<Longrightarrow> cancel_order b k = Inr (None, b)"
  by (simp add: book_view_None cancel_order_def)

lemma add_order_duplicate:
  "book_ok b \<Longrightarrow> book_view b k \<noteq> None \<Longrightarrow> add_order b c k sd p q = Inr (None, b)"
  by (simp add: book_view_None add_order_def)

text \<open>Occupied and free slots: the number of orders and the free slots add up to the capacity.\<close>

lemma order_count_free:
  assumes ok: "book_ok b"
  shows "order_count b + card (pool_free (ob_order_pool b)) = pool_capacity (ob_order_pool b)"
proof -
  let ?P = "ob_order_pool b" and ?M = "ob_order_map b"
  note okD = book_okD [OF ok]
  let ?f = "\<lambda>k. pool_idx (the (fmlookup ?M k))"
  have "bij_betw ?f (fmdom' ?M) ({..<pool_capacity ?P} - pool_free ?P)"
  proof (rule bij_betw_imageI)
    show "inj_on ?f (fmdom' ?M)"
      using index_ok_inj [OF okD(3)] by (auto simp: inj_on_def fmlookup_dom'_iff)
    show "?f ` fmdom' ?M = {..<pool_capacity ?P} - pool_free ?P"
    proof (intro equalityI subsetI)
      fix i assume "i \<in> ?f ` fmdom' ?M"
      then show "i \<in> {..<pool_capacity ?P} - pool_free ?P"
        using index_okD(1,2) [OF okD(3)] by (auto simp: fmlookup_dom'_iff)
    next
      fix i assume "i \<in> {..<pool_capacity ?P} - pool_free ?P"
      then obtain k ix where "fmlookup ?M k = Some ix" "pool_idx ix = i"
        using okD(3) unfolding index_ok_def by blast
      then show "i \<in> ?f ` fmdom' ?M" by (force intro: fmdom'I)
    qed
  qed
  then have "card (fmdom' ?M) = card ({..<pool_capacity ?P} - pool_free ?P)" by (rule bij_betw_same_card)
  moreover have sub: "pool_free ?P \<subseteq> {..<pool_capacity ?P}" using pool_free_bound [OF okD(1)] by auto
  moreover have "card (pool_free ?P) \<le> card {..<pool_capacity ?P}" using sub by (rule card_mono [rotated]) simp
  ultimately show ?thesis
    by (simp add: order_count_def card_Diff_subset finite_subset [OF sub] fcard.rep_eq fmdom'_alt_def)
qed

lemma dom_book_view: "book_ok b \<Longrightarrow> dom (book_view b) = fmdom' (ob_order_map b)"
  using book_view_None [of b] by (auto simp: dom_def fmlookup_dom'_iff)

lemma card_dom_book_view: "book_ok b \<Longrightarrow> card (dom (book_view b)) = order_count b"
  by (simp add: dom_book_view order_count_def fcard.rep_eq fmdom'_alt_def)

lemma book_full_iff:
  "book_ok b \<Longrightarrow> pool_free (ob_order_pool b) = {} \<longleftrightarrow> order_count b = pool_capacity (ob_order_pool b)"
proof -
  assume ok: "book_ok b"
  have "finite (pool_free (ob_order_pool b))" by (simp add: pool_free_def)
  then show ?thesis using order_count_free [OF ok] by auto
qed

lemma add_order_full:
  assumes ok: "book_ok b" and "book_view b k = None" "pool_free (ob_order_pool b) = {}"
  shows "add_order b c k sd p q = Inr (None, b)"
  using assms pool_allocate_none [OF book_okD(1) [OF ok]]
  by (simp add: book_view_None [OF ok] add_order_def)

lemma book_view_of_pool: "book_view (OrderBook_of_pool tid P) = Map.empty"
  by (auto simp: book_view_def view_def OrderBook_of_pool_def)

lemma OrderBook_of_pool_ok:
  assumes P: "pool_new n = Inr P" and n: "n < 2 ^ 64"
  shows "book_ok (OrderBook_of_pool tid P)"
proof -
  have st: "storage P = replicate n None" using P by (auto simp: pool_new_def split: if_splits)
  have "side_levels sd (OrderBook_of_pool tid P) = fmempty" for sd
    by (cases sd) (simp_all add: OrderBook_of_pool_def)
  moreover have "resting Map.empty sd p = {}" for sd p by (simp add: resting_def)
  moreover have "links_ok (storage P)" unfolding st by (auto simp: links_ok_def)
  ultimately show ?thesis
    using pool_new_ok [OF P] n
    by (simp add: book_ok_def book_view_of_pool level_ok_def)
      (simp add: OrderBook_of_pool_def index_ok_def)
qed

section \<open>The contract of an order store\<close>

text \<open>
  The specification of a book with room for \<open>ab_cap\<close> orders: a map, and the priority of the
  next order. It has neither slots nor levels nor links.
\<close>

record abook =
  ab_orders :: "OrderId \<Rightarrow> Order option"
  ab_next :: Priority
  ab_ticker :: TickerId
  ab_cap :: nat

datatype book_op = Add ClientId OrderId Side Price Qty | Cancel OrderId

datatype book_result = Added bool | Cancelled "Order option"

fun abook_step :: "book_op \<Rightarrow> abook \<Rightarrow> book_result \<times> abook" where
  "abook_step (Add c k sd p q) a =
     (if ab_orders a k \<noteq> None \<or> card (dom (ab_orders a)) = ab_cap a then (Added False, a)
      else (Added True, a\<lparr>ab_orders := (ab_orders a)(k \<mapsto>
              \<lparr>o_order_id = k, o_client_id = c, o_ticker_id = ab_ticker a, o_side = sd, o_price = p,
               o_qty = q, o_priority = ab_next a, o_prev_idx = None, o_next_idx = None\<rparr>),
              ab_next := ab_next a + 1\<rparr>))"
| "abook_step (Cancel k) a = (Cancelled (ab_orders a k), a\<lparr>ab_orders := (ab_orders a)(k := None)\<rparr>)"

abbreviation abook_run :: "book_op list \<Rightarrow> abook \<Rightarrow> book_result list \<times> abook" where
  "abook_run \<equiv> run_spec abook_step"

lemma abook_step_fields:
  assumes "abook_step op a = (r, a')"
  shows "ab_ticker a' = ab_ticker a" "ab_cap a' = ab_cap a"
  using assms by (cases op; auto split: if_splits)+

text \<open>The same sequences on an implementation, with the links stripped from what it returns.\<close>

fun book_step :: "('b \<Rightarrow> ClientId \<Rightarrow> OrderId \<Rightarrow> Side \<Rightarrow> Price \<Rightarrow> Qty \<Rightarrow> (pool_ptr option \<times> 'b) outcome) \<Rightarrow>
    ('b \<Rightarrow> OrderId \<Rightarrow> (Order option \<times> 'b) outcome) \<Rightarrow> book_op \<Rightarrow> 'b \<Rightarrow> (book_result \<times> 'b) outcome" where
  "book_step add cancel (Add c k sd p q) b =
     map_sum id (\<lambda>(r, b). (Added (r \<noteq> None), b)) (add b c k sd p q)"
| "book_step add cancel (Cancel k) b =
     map_sum id (\<lambda>(r, b). (Cancelled (map_option strip r), b)) (cancel b k)"

locale order_store =
  fixes add :: "'b \<Rightarrow> ClientId \<Rightarrow> OrderId \<Rightarrow> Side \<Rightarrow> Price \<Rightarrow> Qty \<Rightarrow> (pool_ptr option \<times> 'b) outcome"
    and cancel :: "'b \<Rightarrow> OrderId \<Rightarrow> (Order option \<times> 'b) outcome"
    and abs :: "'b \<Rightarrow> abook"
    and ok :: "'b \<Rightarrow> bool"
  assumes add_refines: "ok b \<Longrightarrow> \<exists>r b'. add b c k sd p q = Inr (r, b') \<and> ok b' \<and>
      (Added (r \<noteq> None), abs b') = abook_step (Add c k sd p q) (abs b)"
    and cancel_refines: "ok b \<Longrightarrow> \<exists>r b'. cancel b k = Inr (r, b') \<and> ok b' \<and>
      (Cancelled (map_option strip r), abs b') = abook_step (Cancel k) (abs b)"
begin

lemma book_step_refines:
  assumes "ok b"
  shows "\<exists>r b'. book_step add cancel op b = Inr (r, b') \<and> ok b' \<and> abook_step op (abs b) = (r, abs b')"
proof (cases op)
  case (Add c k sd p q)
  with add_refines [OF assms, of c k sd p q] show ?thesis by force
next
  case (Cancel k)
  with cancel_refines [OF assms, of k] show ?thesis by force
qed

end

sublocale order_store \<subseteq> sim: simulation "book_step add cancel" abook_step abs ok
  by unfold_locales (rule book_step_refines)

definition book_abs :: "OrderBook \<Rightarrow> abook" where
  "book_abs b = \<lparr>ab_orders = book_view b, ab_next = ob_next_priority b, ab_ticker = ob_ticker_id b,
     ab_cap = pool_capacity (ob_order_pool b)\<rparr>"

interpretation ob: order_store add_order cancel_order book_abs book_ok
proof unfold_locales
  fix b c k sd p q assume ok: "book_ok b"
  note full = book_full_iff [OF ok] card_dom_book_view [OF ok]
  consider "book_view b k \<noteq> None" | "book_view b k = None" "pool_free (ob_order_pool b) = {}"
    | "book_view b k = None" "pool_free (ob_order_pool b) \<noteq> {}" by blast
  then show "\<exists>r b'. add_order b c k sd p q = Inr (r, b') \<and> book_ok b' \<and>
      (Added (r \<noteq> None), book_abs b') = abook_step (Add c k sd p q) (book_abs b)"
  proof cases
    case 1
    then show ?thesis using ok add_order_duplicate [OF ok 1] by (auto simp: book_abs_def)
  next
    case 2
    then show ?thesis using ok add_order_full [OF ok 2] full by (auto simp: book_abs_def)
  next
    case 3
    then have "fmlookup (ob_order_map b) k = None" using book_view_None [OF ok] by simp
    from add_order_some [OF ok this 3(2), of c sd p q] 3 full show ?thesis
      by (auto simp: book_abs_def fresh_order_def)
  qed
next
  fix b k assume ok: "book_ok b"
  show "\<exists>r b'. cancel_order b k = Inr (r, b') \<and> book_ok b' \<and>
      (Cancelled (map_option strip r), book_abs b') = abook_step (Cancel k) (book_abs b)"
  proof (cases "book_view b k")
    case None
    then show ?thesis using ok cancel_order_none [OF ok None]
      by (auto simp: book_abs_def fun_upd_idem)
  next
    case (Some vo)
    from cancel_order_some [OF ok this] Some show ?thesis by (auto simp: book_abs_def)
  qed
qed

section \<open>Runs of a new book\<close>

definition book_exec :: "TickerId \<Rightarrow> book_op list \<Rightarrow> (book_result list \<times> OrderBook) outcome" where
  "book_exec tid ops =
     (case OrderBook_new tid of Inl f \<Rightarrow> Inl f | Inr b \<Rightarrow> run_outcome (book_step add_order cancel_order) ops b)"

definition abook_new :: "TickerId \<Rightarrow> nat \<Rightarrow> abook" where
  "abook_new tid n = \<lparr>ab_orders = Map.empty, ab_next = 1, ab_ticker = tid, ab_cap = n\<rparr>"

lemma OrderBook_new_ok:
  "\<exists>b. OrderBook_new tid = Inr b \<and> book_ok b \<and> book_abs b = abook_new tid ORDER_POOL_SIZE"
proof -
  obtain P :: "Order mempool" where P: "pool_new ORDER_POOL_SIZE = Inr P"
    by (simp add: pool_new_def ORDER_POOL_SIZE_def)
  have "book_ok (OrderBook_of_pool tid P)"
    by (rule OrderBook_of_pool_ok [OF P]) (simp add: ORDER_POOL_SIZE_def)
  moreover have "book_abs (OrderBook_of_pool tid P) = abook_new tid ORDER_POOL_SIZE"
    using pool_new_ok(3) [OF P] unfolding book_abs_def book_view_of_pool
    by (simp add: OrderBook_of_pool_def abook_new_def)
  ultimately show ?thesis by (simp add: OrderBook_new_def pool_new_boxed_eq P)
qed

lemma book_exec_ok:
  "\<exists>rs b. book_exec tid ops = Inr (rs, b) \<and> book_ok b \<and>
     abook_run ops (abook_new tid ORDER_POOL_SIZE) = (rs, book_abs b)"
  using OrderBook_new_ok [of tid] ob.sim.run_refines [of _ ops] unfolding book_exec_def by force

text \<open>Priorities in the specification: fresh ones exceed all earlier ones until the 64-bit
  counter wraps.\<close>

lemma abook_step_priority:
  assumes "\<And>k ord. ab_orders a k = Some ord \<Longrightarrow> o_priority ord < ab_next a"
    and "unat (ab_next a) \<le> m" "m < 2 ^ 64 - 1" "abook_step op a = (r, a')"
  shows "ab_orders a' k = Some ord \<Longrightarrow> o_priority ord < ab_next a'" "unat (ab_next a') \<le> Suc m"
proof -
  have s: "unat (ab_next a + 1) = Suc (unat (ab_next a))"
    using assms(2,3) by (simp add: unat_word_ariths)
  then have lt: "x < ab_next a \<Longrightarrow> x < ab_next a + 1" "ab_next a < ab_next a + 1" for x
    by (simp_all add: word_less_nat_alt)
  show "ab_orders a' k = Some ord \<Longrightarrow> o_priority ord < ab_next a'"
    using assms(1,4) lt by (cases op) (auto split: if_splits)
  show "unat (ab_next a') \<le> Suc m"
    using assms(2,4) s by (cases op) (auto split: if_splits)
qed

lemma abook_run_priority:
  assumes "\<And>k ord. ab_orders a k = Some ord \<Longrightarrow> o_priority ord < ab_next a"
    and "unat (ab_next a) \<le> m" "m + length ops < 2 ^ 64" "abook_run ops a = (rs, a')"
    and "ab_orders a' k = Some ord"
  shows "o_priority ord < ab_next a'"
  using assms
proof (induction ops arbitrary: a m rs)
  case (Cons op ops)
  obtain r a1 where 1: "abook_step op a = (r, a1)" by force
  obtain rs' where 2: "abook_run ops a1 = (rs', a')"
    using Cons.prems(4) 1 by (auto split: prod.splits)
  have m: "m < 2 ^ 64 - 1" "Suc m + length ops < 2 ^ 64" using Cons.prems(3) by simp_all
  note st = abook_step_priority [OF Cons.prems(1,2) m(1) 1]
  show ?case by (rule Cons.IH [OF st(1) st(2) m(2) 2 Cons.prems(5)])
qed auto

lemma ab_cap_run: "ab_cap (snd (abook_run ops a)) = ab_cap a"
  by (rule run_spec_invariant [where I = "\<lambda>a'. ab_cap a' = ab_cap a"])
    (simp, metis abook_step_fields(2) prod.collapse)

text \<open>The prices of the resting orders of a side are those of its levels.\<close>

definition side_prices :: "(OrderId \<Rightarrow> Order option) \<Rightarrow> Side \<Rightarrow> Price set" where
  "side_prices v sd = {p. \<exists>k ord. v k = Some ord \<and> o_side ord = sd \<and> o_price ord = p}"

lemma fmdom_side_levels: "book_ok b \<Longrightarrow> fset (fmdom (side_levels sd b)) = side_prices (book_view b) sd"
proof -
  assume ok: "book_ok b"
  have "p |\<in>| fmdom (side_levels sd b) \<longleftrightarrow> resting (book_view b) sd p \<noteq> {}" for p
    using book_okD(5) [OF ok, of sd p]
    by (cases "fmlookup (side_levels sd b) p") (auto simp: level_ok_def fmdomI fmdom_notI)
  then have "x \<in> fset (fmdom (side_levels sd b)) \<longleftrightarrow> x \<in> side_prices (book_view b) sd" for x
    unfolding side_prices_def resting_def by blast
  then show ?thesis by blast
qed

lemma best_prices:
  assumes ok: "book_ok b"
  shows "map_option sint (best_bid b) =
      (if side_prices (book_view b) Buy = {} then None else Some (Max (sint ` side_prices (book_view b) Buy)))"
    and "map_option sint (best_ask b) =
      (if side_prices (book_view b) Sell = {} then None else Some (Min (sint ` side_prices (book_view b) Sell)))"
proof -
  note S = fmdom_side_levels [OF ok, of Buy] fmdom_side_levels [OF ok, of Sell]
  have ext: "fits_i64 (Max (sint ` fset A))" "fits_i64 (Min (sint ` fset A))" if "A \<noteq> {||}"
    for A :: "Price fset"
  proof -
    have "sint ` fset A \<noteq> {}" using that by auto
    then have "Max (sint ` fset A) \<in> sint ` fset A" "Min (sint ` fset A) \<in> sint ` fset A"
      by (simp_all only: Max_in Min_in finite_imageI finite_fset not_False_eq_True simp_thms)
    then show "fits_i64 (Max (sint ` fset A))" "fits_i64 (Min (sint ` fset A))" by auto
  qed
  have e: "fset A = {} \<longleftrightarrow> A = {||}" for A :: "Price fset" by auto
  show "map_option sint (best_bid b) =
      (if side_prices (book_view b) Buy = {} then None else Some (Max (sint ` side_prices (book_view b) Buy)))"
    unfolding S(1) [symmetric] e best_bid_def using ext(1) [of "fmdom (ob_bid_levels b)"]
    by (simp add: fMax_eq_Max sint_of_int_i64)
  show "map_option sint (best_ask b) =
      (if side_prices (book_view b) Sell = {} then None else Some (Min (sint ` side_prices (book_view b) Sell)))"
    unfolding S(2) [symmetric] e best_ask_def using ext(2) [of "fmdom (ob_ask_levels b)"]
    by (simp add: fMin_eq_Min sint_of_int_i64)
qed

section \<open>Properties\<close>

text \<open>C6: the order book implements its specification: any sequence of additions and
  cancellations on a new book runs without a panic or a read of uninitialised memory, and
  every answer and the resulting orders are those of a plain map from order ids to orders
  with room for 65536 entries (duplicates and additions to a full book are refused without
  an effect, a cancellation returns exactly the order that was added).\<close>

theorem book_refines_map:
  "\<exists>rs b. book_exec tid ops = Inr (rs, b) \<and>
     abook_run ops \<lparr>ab_orders = Map.empty, ab_next = 1, ab_ticker = tid, ab_cap = 65536\<rparr> = (rs, book_abs b)"
  using book_exec_ok [of tid ops] by (auto simp: abook_new_def ORDER_POOL_SIZE_def)

text \<open>C13: in every reachable book the levels of both sides are exactly the prices at which
  orders rest, each with the number of these orders and the sum of their quantities (in 32
  bits), and the book's count and the pool's free slots account for all 65536 slots.\<close>

theorem book_levels_exact:
  "\<exists>rs b. book_exec tid ops = Inr (rs, b) \<and>
     (\<forall>sd p. case fmlookup (side_levels sd b) p of
        None \<Rightarrow> resting (book_view b) sd p = {}
      | Some lv \<Rightarrow> resting (book_view b) sd p \<noteq> {} \<and> lv_price lv = p \<and>
          lv_order_count lv = of_nat (card (resting (book_view b) sd p)) \<and>
          lv_total_qty lv = (\<Sum>k \<in> resting (book_view b) sd p. o_qty (the (book_view b k)))) \<and>
     order_count b = card (dom (book_view b)) \<and>
     bid_level_count b = card (side_prices (book_view b) Buy) \<and>
     ask_level_count b = card (side_prices (book_view b) Sell) \<and>
     order_count b + pool_available (ob_order_pool b) = 65536"
proof -
  obtain rs b where ex: "book_exec tid ops = Inr (rs, b)" and ok: "book_ok b"
    and run: "abook_run ops (abook_new tid ORDER_POOL_SIZE) = (rs, book_abs b)"
    using book_exec_ok [of tid ops] by blast
  from ab_cap_run [of ops "abook_new tid ORDER_POOL_SIZE"] run
  have cap: "pool_capacity (ob_order_pool b) = 65536"
    by (simp add: book_abs_def abook_new_def ORDER_POOL_SIZE_def)
  have "bid_level_count b = card (side_prices (book_view b) Buy)"
    "ask_level_count b = card (side_prices (book_view b) Sell)"
    using fmdom_side_levels [OF ok, of Buy] fmdom_side_levels [OF ok, of Sell]
    by (simp_all add: bid_level_count_def ask_level_count_def fcard.rep_eq)
  moreover have "order_count b + pool_available (ob_order_pool b) = 65536"
    using order_count_free [OF ok] card_pool_free [OF book_okD(1) [OF ok]] cap by simp
  ultimately show ?thesis
    using ex book_okD(5) [OF ok] card_dom_book_view [OF ok] unfolding level_ok_def by auto
qed

text \<open>C36: in every reachable book \<open>best_bid\<close> is the greatest price (as a signed number) of a
  resting buy order, \<open>best_ask\<close> the least of a resting sell order, and \<open>None\<close> exactly when the
  side is empty.\<close>

theorem book_best_prices:
  "\<exists>rs b. book_exec tid ops = Inr (rs, b) \<and>
     map_option sint (best_bid b) =
       (if side_prices (book_view b) Buy = {} then None
        else Some (Max (sint ` side_prices (book_view b) Buy))) \<and>
     map_option sint (best_ask b) =
       (if side_prices (book_view b) Sell = {} then None
        else Some (Min (sint ` side_prices (book_view b) Sell)))"
  using book_exec_ok [of tid ops] best_prices by blast

text \<open>Priorities are arrival times: an order accepted by a reachable book gets a
  priority above that of every order resting in it, as long as fewer than \<open>2 ^ 64 - 1\<close>
  operations have been made.\<close>

lemma book_time_priority:
  assumes "book_exec tid ops = Inr (rs, b)" "length ops < 2 ^ 64 - 1"
    and "add_order b c k sd p q = Inr (Some i, b')" "book_view b j = Some old"
  shows "\<exists>new. book_view b' k = Some new \<and> o_priority old < o_priority new"
proof -
  have ok: "book_ok b" and run: "abook_run ops (abook_new tid ORDER_POOL_SIZE) = (rs, book_abs b)"
    using book_exec_ok [of tid ops] assms(1) by auto
  have "o_priority old < ab_next (book_abs b)"
    by (rule abook_run_priority [OF _ _ _ run, of 1 j])
      (use assms(2,4) in \<open>simp_all add: abook_new_def book_abs_def\<close>)
  then have lt: "o_priority old < ob_next_priority b" by (simp add: book_abs_def)
  obtain r b1 where r: "add_order b c k sd p q = Inr (r, b1)"
      "(Added (r \<noteq> None), book_abs b1) = abook_step (Add c k sd p q) (book_abs b)"
    using ob.add_refines [OF ok, of c k sd p q] by blast
  then show ?thesis using lt assms(3) by (auto simp: book_abs_def split: if_splits)
qed

lemma book_time_priority_witness:
  "\<exists>b i b' old new. book_exec 0 [Add 1 1 Buy 100 10] = Inr ([Added True], b) \<and>
     add_order b 2 2 Buy 100 5 = Inr (Some i, b') \<and> book_view b 1 = Some old \<and>
     book_view b' 2 = Some new \<and> o_priority old < o_priority new"
proof -
  obtain rs b where ex: "book_exec 0 [Add 1 1 Buy 100 10] = Inr (rs, b)" and ok: "book_ok b"
    and run: "abook_run [Add 1 1 Buy 100 10] (abook_new 0 ORDER_POOL_SIZE) = (rs, book_abs b)"
    using book_exec_ok by blast
  then have rs: "rs = [Added True]" and v: "book_view b = [1 \<mapsto>
      \<lparr>o_order_id = 1, o_client_id = 1, o_ticker_id = 0, o_side = Buy, o_price = 100, o_qty = 10,
       o_priority = 1, o_prev_idx = None, o_next_idx = None\<rparr>]"
    by (simp_all add: abook_new_def ORDER_POOL_SIZE_def book_abs_def)
  have cap: "ab_cap (book_abs b) = 65536"
    using run by (auto simp: abook_new_def ORDER_POOL_SIZE_def dest: sym)
  obtain r b' where r: "add_order b 2 2 Buy 100 5 = Inr (r, b')"
      "(Added (r \<noteq> None), book_abs b') = abook_step (Add 2 2 Buy 100 5) (book_abs b)"
    using ob.add_refines [OF ok] by blast
  have "r \<noteq> None" using r(2) v cap by (simp add: book_abs_def split: if_splits)
  then obtain i where i: "r = Some i" by blast
  obtain old where "book_view b 1 = Some old" using v by simp
  with book_time_priority [OF ex _ r(1) [unfolded i], of 1] ex rs r(1) i show ?thesis by auto
qed

text \<open>The links between the orders of a level are not maintained: after two additions at one
  price and a cancellation of the first, the remaining order rests at a level that has
  neither a head nor a tail.\<close>

lemma level_loses_its_list:
  "\<exists>b b1 b2 b3 lv. map_sum id (OrderBook_of_pool 0) (pool_new_boxed 2) = Inr b \<and>
     add_order b 1 1 Buy 100 10 = Inr (Some 1, b1) \<and> add_order b1 1 2 Buy 100 20 = Inr (Some 0, b2) \<and>
     map_sum id snd (cancel_order b2 1) = Inr b3 \<and>
     fmlookup (ob_bid_levels b3) 100 = Some lv \<and> lv_order_count lv = 1 \<and> lv_total_qty lv = 20 \<and>
     lv_head_idx lv = None \<and> lv_tail_idx lv = None"
  by (simp add: pool_new_boxed_def numeral_2_eq_2 OrderBook_of_pool_def add_order_def pool_allocate_def
      PriceLevel_new_def pool_write_def Let_def cancel_order_def pool_get_by_index_def unlink_def
      relink_def pool_deallocate_by_index_def get_or_def)

end
