(* ===== verification/Protocol.thy ===== *)
theory Protocol
  imports Types
begin

text \<open>
  The wire protocol of \<open>exchange/src/protocol.rs\<close>. Each message struct is
  \<open>repr(C, packed)\<close>: its memory is its fields in declaration order without padding, each
  little-endian on the supported targets. \<open>as_bytes\<close> is that memory; \<open>from_bytes\<close>
  reinterprets a slice of exactly the struct's size (packed structs have alignment 1, so
  only the length can be wrong). The contract \<open>codec\<close> collects the round-trip laws and
  derives the framing of a byte stream from them.
\<close>

section \<open>Message types\<close>

datatype ClientRequestType = RNew | RCancel

datatype ClientResponseType = Accepted | Canceled | Filled | CancelRejected | InvalidRequest

datatype MarketUpdateType = UAdd | UModify | UCancel | UTrade | USnapshot | UClear

primrec request_u8 :: "ClientRequestType \<Rightarrow> u8" where
  "request_u8 RNew = 1"
| "request_u8 RCancel = 2"

definition ClientRequestType_from_u8 :: "u8 \<Rightarrow> ClientRequestType option" where
  "ClientRequestType_from_u8 v =
     (if v = 1 then Some RNew else if v = 2 then Some RCancel else None)"

primrec response_u8 :: "ClientResponseType \<Rightarrow> u8" where
  "response_u8 Accepted = 1"
| "response_u8 Canceled = 2"
| "response_u8 Filled = 3"
| "response_u8 CancelRejected = 4"
| "response_u8 InvalidRequest = 5"

definition ClientResponseType_from_u8 :: "u8 \<Rightarrow> ClientResponseType option" where
  "ClientResponseType_from_u8 v =
     (if v = 1 then Some Accepted else if v = 2 then Some Canceled else if v = 3 then Some Filled
      else if v = 4 then Some CancelRejected else if v = 5 then Some InvalidRequest else None)"

primrec update_u8 :: "MarketUpdateType \<Rightarrow> u8" where
  "update_u8 UAdd = 1"
| "update_u8 UModify = 2"
| "update_u8 UCancel = 3"
| "update_u8 UTrade = 4"
| "update_u8 USnapshot = 5"
| "update_u8 UClear = 6"

definition MarketUpdateType_from_u8 :: "u8 \<Rightarrow> MarketUpdateType option" where
  "MarketUpdateType_from_u8 v =
     (if v = 1 then Some UAdd else if v = 2 then Some UModify else if v = 3 then Some UCancel
      else if v = 4 then Some UTrade else if v = 5 then Some USnapshot
      else if v = 6 then Some UClear else None)"

section \<open>Message structs\<close>

record ClientRequest =
  rq_msg_type :: u8
  rq_client_id :: u32
  rq_ticker_id :: u32
  rq_order_id :: u64
  rq_side :: i8
  rq_price :: i64
  rq_qty :: u32

record ClientResponse =
  rs_msg_type :: u8
  rs_client_id :: u32
  rs_ticker_id :: u32
  rs_client_order_id :: u64
  rs_market_order_id :: u64
  rs_side :: i8
  rs_price :: i64
  rs_exec_qty :: u32
  rs_leaves_qty :: u32

record MarketUpdate =
  mu_msg_type :: u8
  mu_ticker_id :: u32
  mu_order_id :: u64
  mu_side :: i8
  mu_price :: i64
  mu_qty :: u32
  mu_priority :: u64

definition ClientRequest_new ::
  "ClientRequestType \<Rightarrow> u32 \<Rightarrow> u32 \<Rightarrow> u64 \<Rightarrow> i8 \<Rightarrow> i64 \<Rightarrow> u32 \<Rightarrow> ClientRequest" where
  "ClientRequest_new ty client_id ticker_id order_id side price qty =
     \<lparr>rq_msg_type = request_u8 ty, rq_client_id = client_id, rq_ticker_id = ticker_id,
      rq_order_id = order_id, rq_side = side, rq_price = price, rq_qty = qty\<rparr>"

definition ClientResponse_new ::
  "ClientResponseType \<Rightarrow> u32 \<Rightarrow> u32 \<Rightarrow> u64 \<Rightarrow> u64 \<Rightarrow> i8 \<Rightarrow> i64 \<Rightarrow> u32 \<Rightarrow> u32 \<Rightarrow> ClientResponse" where
  "ClientResponse_new ty client_id ticker_id client_order_id market_order_id side price exec_qty leaves_qty =
     \<lparr>rs_msg_type = response_u8 ty, rs_client_id = client_id, rs_ticker_id = ticker_id,
      rs_client_order_id = client_order_id, rs_market_order_id = market_order_id, rs_side = side,
      rs_price = price, rs_exec_qty = exec_qty, rs_leaves_qty = leaves_qty\<rparr>"

definition MarketUpdate_new ::
  "MarketUpdateType \<Rightarrow> u32 \<Rightarrow> u64 \<Rightarrow> i8 \<Rightarrow> i64 \<Rightarrow> u32 \<Rightarrow> u64 \<Rightarrow> MarketUpdate" where
  "MarketUpdate_new ty ticker_id order_id side price qty priority =
     \<lparr>mu_msg_type = update_u8 ty, mu_ticker_id = ticker_id, mu_order_id = order_id,
      mu_side = side, mu_price = price, mu_qty = qty, mu_priority = priority\<rparr>"

definition request_type :: "ClientRequest \<Rightarrow> ClientRequestType option" where
  "request_type r = ClientRequestType_from_u8 (rq_msg_type r)"

definition response_type :: "ClientResponse \<Rightarrow> ClientResponseType option" where
  "response_type r = ClientResponseType_from_u8 (rs_msg_type r)"

definition update_type :: "MarketUpdate \<Rightarrow> MarketUpdateType option" where
  "update_type u = MarketUpdateType_from_u8 (mu_msg_type u)"

lemma ClientResponse_new_simps [simp]:
  "rs_client_id (ClientResponse_new ty c t i m s p x l) = c"
  "rs_ticker_id (ClientResponse_new ty c t i m s p x l) = t"
  "rs_client_order_id (ClientResponse_new ty c t i m s p x l) = i"
  "rs_market_order_id (ClientResponse_new ty c t i m s p x l) = m"
  "rs_side (ClientResponse_new ty c t i m s p x l) = s" "rs_price (ClientResponse_new ty c t i m s p x l) = p"
  "rs_exec_qty (ClientResponse_new ty c t i m s p x l) = x"
  "rs_leaves_qty (ClientResponse_new ty c t i m s p x l) = l"
  by (simp_all add: ClientResponse_new_def)

lemma MarketUpdate_new_simps [simp]:
  "mu_ticker_id (MarketUpdate_new ty t i s p q r) = t" "mu_order_id (MarketUpdate_new ty t i s p q r) = i"
  "mu_side (MarketUpdate_new ty t i s p q r) = s" "mu_price (MarketUpdate_new ty t i s p q r) = p"
  "mu_qty (MarketUpdate_new ty t i s p q r) = q" "mu_priority (MarketUpdate_new ty t i s p q r) = r"
  by (simp_all add: MarketUpdate_new_def)

section \<open>Bytes\<close>

text \<open>The \<open>n\<close> little-endian bytes of a word, and the word they denote.\<close>

primrec le_bytes :: "nat \<Rightarrow> 'a::len word \<Rightarrow> u8 list" where
  "le_bytes 0 w = []"
| "le_bytes (Suc n) w = ucast w # le_bytes n (drop_bit 8 w)"

primrec of_le_bytes :: "u8 list \<Rightarrow> 'a::len word" where
  "of_le_bytes [] = 0"
| "of_le_bytes (b # bs) = ucast b OR push_bit 8 (of_le_bytes bs)"

definition CLIENT_REQUEST_SIZE :: nat where
  "CLIENT_REQUEST_SIZE = 1 + 4 + 4 + 8 + 1 + 8 + 4"

definition CLIENT_RESPONSE_SIZE :: nat where
  "CLIENT_RESPONSE_SIZE = 1 + 4 + 4 + 8 + 8 + 1 + 8 + 4 + 4"

definition MARKET_UPDATE_SIZE :: nat where
  "MARKET_UPDATE_SIZE = 1 + 4 + 8 + 1 + 8 + 4 + 8"

definition ClientRequest_as_bytes :: "ClientRequest \<Rightarrow> u8 list" where
  "ClientRequest_as_bytes r =
     le_bytes 1 (rq_msg_type r) @ le_bytes 4 (rq_client_id r) @ le_bytes 4 (rq_ticker_id r) @
     le_bytes 8 (rq_order_id r) @ le_bytes 1 (rq_side r) @ le_bytes 8 (rq_price r) @
     le_bytes 4 (rq_qty r)"

definition ClientRequest_from_bytes :: "u8 list \<Rightarrow> ClientRequest option" where
  "ClientRequest_from_bytes bs =
     (if length bs = CLIENT_REQUEST_SIZE
      then Some \<lparr>rq_msg_type = of_le_bytes (take 1 bs),
                 rq_client_id = of_le_bytes (take 4 (drop 1 bs)),
                 rq_ticker_id = of_le_bytes (take 4 (drop 5 bs)),
                 rq_order_id = of_le_bytes (take 8 (drop 9 bs)),
                 rq_side = of_le_bytes (take 1 (drop 17 bs)),
                 rq_price = of_le_bytes (take 8 (drop 18 bs)),
                 rq_qty = of_le_bytes (take 4 (drop 26 bs))\<rparr>
      else None)"

definition ClientResponse_as_bytes :: "ClientResponse \<Rightarrow> u8 list" where
  "ClientResponse_as_bytes r =
     le_bytes 1 (rs_msg_type r) @ le_bytes 4 (rs_client_id r) @ le_bytes 4 (rs_ticker_id r) @
     le_bytes 8 (rs_client_order_id r) @ le_bytes 8 (rs_market_order_id r) @
     le_bytes 1 (rs_side r) @ le_bytes 8 (rs_price r) @ le_bytes 4 (rs_exec_qty r) @
     le_bytes 4 (rs_leaves_qty r)"

definition ClientResponse_from_bytes :: "u8 list \<Rightarrow> ClientResponse option" where
  "ClientResponse_from_bytes bs =
     (if length bs = CLIENT_RESPONSE_SIZE
      then Some \<lparr>rs_msg_type = of_le_bytes (take 1 bs),
                 rs_client_id = of_le_bytes (take 4 (drop 1 bs)),
                 rs_ticker_id = of_le_bytes (take 4 (drop 5 bs)),
                 rs_client_order_id = of_le_bytes (take 8 (drop 9 bs)),
                 rs_market_order_id = of_le_bytes (take 8 (drop 17 bs)),
                 rs_side = of_le_bytes (take 1 (drop 25 bs)),
                 rs_price = of_le_bytes (take 8 (drop 26 bs)),
                 rs_exec_qty = of_le_bytes (take 4 (drop 34 bs)),
                 rs_leaves_qty = of_le_bytes (take 4 (drop 38 bs))\<rparr>
      else None)"

definition MarketUpdate_as_bytes :: "MarketUpdate \<Rightarrow> u8 list" where
  "MarketUpdate_as_bytes u =
     le_bytes 1 (mu_msg_type u) @ le_bytes 4 (mu_ticker_id u) @ le_bytes 8 (mu_order_id u) @
     le_bytes 1 (mu_side u) @ le_bytes 8 (mu_price u) @ le_bytes 4 (mu_qty u) @
     le_bytes 8 (mu_priority u)"

definition MarketUpdate_from_bytes :: "u8 list \<Rightarrow> MarketUpdate option" where
  "MarketUpdate_from_bytes bs =
     (if length bs = MARKET_UPDATE_SIZE
      then Some \<lparr>mu_msg_type = of_le_bytes (take 1 bs),
                 mu_ticker_id = of_le_bytes (take 4 (drop 1 bs)),
                 mu_order_id = of_le_bytes (take 8 (drop 5 bs)),
                 mu_side = of_le_bytes (take 1 (drop 13 bs)),
                 mu_price = of_le_bytes (take 8 (drop 14 bs)),
                 mu_qty = of_le_bytes (take 4 (drop 22 bs)),
                 mu_priority = of_le_bytes (take 8 (drop 26 bs))\<rparr>
      else None)"

lemma length_le_bytes [simp]: "length (le_bytes n w) = n"
  by (induction n arbitrary: w) simp_all

lemma of_le_bytes_le_bytes:
  "of_le_bytes (le_bytes n (w :: 'a::len word)) = take_bit (8 * n) w"
proof (induction n arbitrary: w)
  case (Suc n)
  have "ucast (ucast w :: u8) OR push_bit 8 (take_bit (8 * n) (drop_bit 8 w)) = take_bit (8 * Suc n) w"
    by (rule bit_word_eqI)
      (auto simp: bit_simps not_less le_diff_conv less_diff_conv2 algebra_simps)
  then show ?case using Suc by simp
qed simp

lemma of_le_bytes_id [simp]:
  "8 * n = LENGTH('a) \<Longrightarrow> of_le_bytes (le_bytes n (w :: 'a::len word)) = w"
  by (simp add: of_le_bytes_le_bytes take_bit_word_eq_self)

lemma bit_of_le_bytes_high:
  "8 * length bs \<le> n \<Longrightarrow> \<not> bit (of_le_bytes bs :: 'a::len word) n"
proof (induction bs arbitrary: n)
  case (Cons b bs)
  then have "\<not> bit (of_le_bytes bs :: 'a word) (n - 8)" by simp
  moreover have "\<not> bit b n" using Cons.prems by (auto dest: bit_imp_le_length)
  ultimately show ?case by (simp add: bit_simps)
qed simp

lemma le_bytes_of_le_bytes:
  "8 * length bs \<le> LENGTH('a) \<Longrightarrow> le_bytes (length bs) (of_le_bytes bs :: 'a::len word) = bs"
proof (induction bs)
  case (Cons b bs)
  have "ucast (ucast b OR push_bit 8 (of_le_bytes bs :: 'a word)) = b"
    using Cons.prems by (intro bit_word_eqI) (auto simp: bit_simps)
  moreover have "drop_bit 8 (ucast b OR push_bit 8 (of_le_bytes bs :: 'a word)) = of_le_bytes bs"
  proof (rule bit_word_eqI)
    fix n assume "n < LENGTH('a)"
    have "\<not> bit b (8 + n)" by (auto dest: bit_imp_le_length)
    then show "bit (drop_bit 8 (ucast b OR push_bit 8 (of_le_bytes bs :: 'a word))) n =
        bit (of_le_bytes bs :: 'a word) n"
      using Cons.prems bit_of_le_bytes_high [of bs n, where 'a = 'a]
      by (cases "8 * length bs \<le> n") (auto simp: bit_simps)
  qed
  ultimately show ?case using Cons by simp
qed simp

lemma le_bytes_of_le_bytes' [simp]:
  "length bs = n \<Longrightarrow> 8 * n = LENGTH('a) \<Longrightarrow> le_bytes n (of_le_bytes bs :: 'a::len word) = bs"
  using le_bytes_of_le_bytes [of bs, where 'a = 'a] by simp

lemma take_drop_append:
  "a + n = b \<Longrightarrow> take n (drop a bs) @ drop b bs = drop a bs"
  by (metis append_take_drop_id drop_drop add.commute)

lemma take_append_drop0: "take n bs @ drop n bs = bs"
  by simp

section \<open>The codec contract\<close>

text \<open>
  The loop that cuts a receive buffer into messages (\<open>ClientConnection::receive\<close>): while a
  message's worth of bytes is buffered, decode its prefix and drain it, or drain a single
  byte if the prefix does not decode.
\<close>

function parse_frames :: "(u8 list \<Rightarrow> 'm option) \<Rightarrow> nat \<Rightarrow> u8 list \<Rightarrow> 'm list \<times> u8 list" where
  "parse_frames dec n buf =
     (if 0 < n \<and> n \<le> length buf
      then (case dec (take n buf) of
              Some m \<Rightarrow> (case parse_frames dec n (drop n buf) of (ms, rest) \<Rightarrow> (m # ms, rest))
            | None \<Rightarrow> parse_frames dec n (drop 1 buf))
      else ([], buf))"
  by pat_completeness auto
termination by (relation "measure (\<lambda>(dec, n, buf). length buf)") auto

declare parse_frames.simps [simp del]

locale codec =
  fixes enc :: "'m \<Rightarrow> u8 list"
    and dec :: "u8 list \<Rightarrow> 'm option"
    and sz :: nat
  assumes size_pos: "0 < sz"
    and enc_len: "length (enc m) = sz"
    and dec_enc: "dec (enc m) = Some m"
    and enc_dec: "dec bs = Some m \<Longrightarrow> enc m = bs"
    and dec_total: "length bs = sz \<Longrightarrow> \<exists>m. dec bs = Some m"
begin

lemma dec_Some_iff: "dec bs = Some m \<longleftrightarrow> bs = enc m"
  using dec_enc enc_dec by blast

lemma dec_None_iff: "dec bs = None \<longleftrightarrow> length bs \<noteq> sz"
  using dec_total enc_len enc_dec by (metis not_None_eq)

lemma enc_inject: "enc a = enc b \<longleftrightarrow> a = b"
  using dec_enc by (metis option.inject)

lemma parse_short: "length buf < sz \<Longrightarrow> parse_frames dec sz buf = ([], buf)"
  by (simp add: parse_frames.simps [of dec sz buf])

lemma parse_step:
  assumes "sz \<le> length buf" "dec (take sz buf) = Some m"
  shows "parse_frames dec sz buf =
    (m # fst (parse_frames dec sz (drop sz buf)), snd (parse_frames dec sz (drop sz buf)))"
  using assms size_pos by (simp add: parse_frames.simps [of dec sz buf] split_beta)

text \<open>Every buffer of a message's length decodes, so no byte is ever skipped, and the result
  of parsing a stream does not depend on how it was cut into chunks.\<close>

lemma parse_append:
  "parse_frames dec sz (a @ b) =
     (fst (parse_frames dec sz a) @ fst (parse_frames dec sz (snd (parse_frames dec sz a) @ b)),
      snd (parse_frames dec sz (snd (parse_frames dec sz a) @ b)))"
proof (induction "length a" arbitrary: a rule: less_induct)
  case less
  show ?case
  proof (cases "sz \<le> length a")
    case True
    then obtain m where m: "dec (take sz a) = Some m" using dec_total [of "take sz a"] by auto
    have "length (drop sz a) < length a" using True size_pos by simp
    note IH = less [OF this]
    have "parse_frames dec sz (a @ b) =
        (m # fst (parse_frames dec sz (drop sz a @ b)), snd (parse_frames dec sz (drop sz a @ b)))"
      using parse_step [of "a @ b" m] True m by simp
    with IH parse_step [OF True m] show ?thesis by simp
  next
    case False
    then show ?thesis by (simp add: parse_short)
  qed
qed

lemma parse_concat:
  "length rest < sz \<Longrightarrow> parse_frames dec sz (concat (map enc ms) @ rest) = (ms, rest)"
proof (induction ms)
  case (Cons m ms)
  have "take sz (concat (map enc (m # ms)) @ rest) = enc m"
    "drop sz (concat (map enc (m # ms)) @ rest) = concat (map enc ms) @ rest"
    by (simp_all add: enc_len)
  with Cons parse_step [of "concat (map enc (m # ms)) @ rest" m] show ?case
    by (simp add: dec_enc enc_len)
qed (simp add: parse_short)

lemma enc_stream_prefix:
  "concat (map enc as) @ rest = concat (map enc bs) \<Longrightarrow> \<exists>cs. bs = as @ cs \<and> rest = concat (map enc cs)"
proof (induction "as" arbitrary: bs)
  case (Cons a "as")
  then have "bs \<noteq> []" using enc_len [of a] size_pos by auto
  then obtain b bs' where bs: "bs = b # bs'" by (cases bs) auto
  with Cons.prems have "enc a @ (concat (map enc as) @ rest) = enc b @ concat (map enc bs')" by simp
  then have "enc a = enc b" "concat (map enc as) @ rest = concat (map enc bs')"
    using append_eq_append_conv [of "enc a" "enc b"] enc_len by simp_all
  with Cons.IH bs show ?case by (auto simp: enc_inject)
qed simp

lemma parse_lossless:
  "concat (map enc (fst (parse_frames dec sz buf))) @ snd (parse_frames dec sz buf) = buf \<and>
   length (snd (parse_frames dec sz buf)) < sz"
proof (induction "length buf" arbitrary: buf rule: less_induct)
  case less
  show ?case
  proof (cases "sz \<le> length buf")
    case True
    then obtain m where m: "dec (take sz buf) = Some m" using dec_total [of "take sz buf"] by auto
    have "length (drop sz buf) < length buf" using True size_pos by simp
    note IH = less [OF this]
    show ?thesis unfolding parse_step [OF True m] using IH by (simp add: enc_dec [OF m])
  next
    case False
    then show ?thesis by (simp add: parse_short)
  qed
qed

end

lemmas size_defs = CLIENT_REQUEST_SIZE_def CLIENT_RESPONSE_SIZE_def MARKET_UPDATE_SIZE_def

interpretation rq: codec ClientRequest_as_bytes ClientRequest_from_bytes CLIENT_REQUEST_SIZE
proof unfold_locales
  fix bs m
  show "0 < CLIENT_REQUEST_SIZE" by (simp add: size_defs)
  show "length (ClientRequest_as_bytes m) = CLIENT_REQUEST_SIZE"
    by (simp add: ClientRequest_as_bytes_def size_defs)
  show "ClientRequest_from_bytes (ClientRequest_as_bytes m) = Some m"
    by (simp add: ClientRequest_from_bytes_def ClientRequest_as_bytes_def size_defs)
  show "length bs = CLIENT_REQUEST_SIZE \<Longrightarrow> \<exists>m. ClientRequest_from_bytes bs = Some m"
    by (simp add: ClientRequest_from_bytes_def)
  show "ClientRequest_from_bytes bs = Some m \<Longrightarrow> ClientRequest_as_bytes m = bs"
    by (auto simp: ClientRequest_from_bytes_def ClientRequest_as_bytes_def size_defs
        take_drop_append take_append_drop0 simp del: le_bytes.simps split: if_splits)
qed

interpretation rs: codec ClientResponse_as_bytes ClientResponse_from_bytes CLIENT_RESPONSE_SIZE
proof unfold_locales
  fix bs m
  show "0 < CLIENT_RESPONSE_SIZE" by (simp add: size_defs)
  show "length (ClientResponse_as_bytes m) = CLIENT_RESPONSE_SIZE"
    by (simp add: ClientResponse_as_bytes_def size_defs)
  show "ClientResponse_from_bytes (ClientResponse_as_bytes m) = Some m"
    by (simp add: ClientResponse_from_bytes_def ClientResponse_as_bytes_def size_defs)
  show "length bs = CLIENT_RESPONSE_SIZE \<Longrightarrow> \<exists>m. ClientResponse_from_bytes bs = Some m"
    by (simp add: ClientResponse_from_bytes_def)
  show "ClientResponse_from_bytes bs = Some m \<Longrightarrow> ClientResponse_as_bytes m = bs"
    by (auto simp: ClientResponse_from_bytes_def ClientResponse_as_bytes_def size_defs
        take_drop_append take_append_drop0 simp del: le_bytes.simps split: if_splits)
qed

interpretation mu: codec MarketUpdate_as_bytes MarketUpdate_from_bytes MARKET_UPDATE_SIZE
proof unfold_locales
  fix bs m
  show "0 < MARKET_UPDATE_SIZE" by (simp add: size_defs)
  show "length (MarketUpdate_as_bytes m) = MARKET_UPDATE_SIZE"
    by (simp add: MarketUpdate_as_bytes_def size_defs)
  show "MarketUpdate_from_bytes (MarketUpdate_as_bytes m) = Some m"
    by (simp add: MarketUpdate_from_bytes_def MarketUpdate_as_bytes_def size_defs)
  show "length bs = MARKET_UPDATE_SIZE \<Longrightarrow> \<exists>m. MarketUpdate_from_bytes bs = Some m"
    by (simp add: MarketUpdate_from_bytes_def)
  show "MarketUpdate_from_bytes bs = Some m \<Longrightarrow> MarketUpdate_as_bytes m = bs"
    by (auto simp: MarketUpdate_from_bytes_def MarketUpdate_as_bytes_def size_defs
        take_drop_append take_append_drop0 simp del: le_bytes.simps split: if_splits)
qed

section \<open>Properties\<close>

text \<open>C38: for each of the three messages the wire format is a bijection: a byte slice decodes
  to a message exactly when it is that message's encoding, and decoding fails exactly on
  slices whose length is not the message size.\<close>

theorem protocol_roundtrip:
  "(ClientRequest_from_bytes bs = Some rq \<longleftrightarrow> bs = ClientRequest_as_bytes rq) \<and>
   (ClientResponse_from_bytes bs = Some rs \<longleftrightarrow> bs = ClientResponse_as_bytes rs) \<and>
   (MarketUpdate_from_bytes bs = Some mu \<longleftrightarrow> bs = MarketUpdate_as_bytes mu) \<and>
   (ClientRequest_from_bytes bs = None \<longleftrightarrow> length bs \<noteq> CLIENT_REQUEST_SIZE) \<and>
   (ClientResponse_from_bytes bs = None \<longleftrightarrow> length bs \<noteq> CLIENT_RESPONSE_SIZE) \<and>
   (MarketUpdate_from_bytes bs = None \<longleftrightarrow> length bs \<noteq> MARKET_UPDATE_SIZE)"
  by (intro conjI rq.dec_Some_iff rs.dec_Some_iff mu.dec_Some_iff
      rq.dec_None_iff rs.dec_None_iff mu.dec_None_iff)

text \<open>The message-type tags round-trip: a tag byte decodes to a message type exactly when
  it is that type's discriminant, so the six (two, five) discriminants are distinct and
  every other byte is rejected.\<close>

lemma message_tags_roundtrip:
  "(ClientRequestType_from_u8 v = Some rt \<longleftrightarrow> v = request_u8 rt) \<and>
   (ClientResponseType_from_u8 v = Some st \<longleftrightarrow> v = response_u8 st) \<and>
   (MarketUpdateType_from_u8 v = Some ut \<longleftrightarrow> v = update_u8 ut)"
  by (cases rt; cases st; cases ut)
    (auto simp: ClientRequestType_from_u8_def ClientResponseType_from_u8_def
      MarketUpdateType_from_u8_def)

text \<open>The sizes of the packed structs are 30, 42 and 34 bytes, not the 34, 47 and 35 that the
  layout comments of the source announce.\<close>

lemma message_sizes:
  "length (ClientRequest_as_bytes rq) = 30" "length (ClientResponse_as_bytes rs) = 42"
  "length (MarketUpdate_as_bytes mu) = 34"
  using rq.enc_len rs.enc_len mu.enc_len by (simp_all add: size_defs)

lemma type_of_new [simp]:
  "request_type (ClientRequest_new rt c t i s p q) = Some rt"
  "response_type (ClientResponse_new st c t i m s p x l) = Some st"
  "update_type (MarketUpdate_new ut t i s p q r) = Some ut"
proof -
  show "request_type (ClientRequest_new rt c t i s p q) = Some rt"
    by (cases rt) (simp_all add: request_type_def ClientRequest_new_def ClientRequestType_from_u8_def)
  show "response_type (ClientResponse_new st c t i m s p x l) = Some st"
    by (cases st) (simp_all add: response_type_def ClientResponse_new_def ClientResponseType_from_u8_def)
  show "update_type (MarketUpdate_new ut t i s p q r) = Some ut"
    by (cases ut) (simp_all add: update_type_def MarketUpdate_new_def MarketUpdateType_from_u8_def)
qed

end
