(* ===== verification/MatchingEngine.thy ===== *)
theory MatchingEngine
  imports OrderBook Protocol
begin

text \<open>
  The matching engine of \<open>exchange/src/matching_engine.rs\<close>: one order book per ticker, the
  counter of exchange order ids, and the handlers of client requests. A handler returns the
  response for the client and the market updates for the feed. The lemmas relate every
  request to the books' views, show that the feed carries exactly the changes of the books,
  and that order ids are never reused.
\<close>

section \<open>The model\<close>

record MatchingEngine =
  me_order_books :: "(TickerId, OrderBook) fmap"
  me_next_order_id :: OrderId

type_synonym reply = "ClientResponse \<times> MarketUpdate list"

definition MatchingEngine_new :: MatchingEngine where
  "MatchingEngine_new = \<lparr>me_order_books = fmempty, me_next_order_id = 1\<rparr>"

definition MatchingEngine_default :: MatchingEngine where
  "MatchingEngine_default = MatchingEngine_new"

definition add_ticker :: "MatchingEngine \<Rightarrow> TickerId \<Rightarrow> MatchingEngine outcome" where
  "add_ticker me ticker_id =
     (if contains_key (me_order_books me) ticker_id then Inr me
      else (case OrderBook_new ticker_id of
              Inl f \<Rightarrow> Inl f
            | Inr book \<Rightarrow> Inr (me\<lparr>me_order_books := fmupd ticker_id book (me_order_books me)\<rparr>)))"

definition create_reject_response ::
  "ClientId \<Rightarrow> TickerId \<Rightarrow> OrderId \<Rightarrow> i8 \<Rightarrow> Price \<Rightarrow> Qty \<Rightarrow> reply" where
  "create_reject_response client_id ticker_id client_order_id side price qty =
     (ClientResponse_new InvalidRequest client_id ticker_id client_order_id 0 side price 0 qty, [])"

definition create_cancel_reject_response ::
  "ClientId \<Rightarrow> TickerId \<Rightarrow> OrderId \<Rightarrow> i8 \<Rightarrow> Price \<Rightarrow> reply" where
  "create_cancel_reject_response client_id ticker_id order_id side price =
     (ClientResponse_new CancelRejected client_id ticker_id order_id 0 side price 0 0, [])"

definition handle_invalid_request :: "MatchingEngine \<Rightarrow> ClientRequest \<Rightarrow> reply" where
  "handle_invalid_request me request =
     (ClientResponse_new InvalidRequest (rq_client_id request) (rq_ticker_id request)
        (rq_order_id request) 0 (rq_side request) (rq_price request) 0 (rq_qty request), [])"

text \<open>The match on the raw side byte.\<close>

definition parse_side :: "i8 \<Rightarrow> Side option" where
  "parse_side side_raw = (if side_raw = 1 then Some Buy else if side_raw = - 1 then Some Sell else None)"

definition handle_new_order :: "MatchingEngine \<Rightarrow> ClientRequest \<Rightarrow> (reply \<times> MatchingEngine) outcome" where
  "handle_new_order me request =
     (let client_id = rq_client_id request; ticker_id = rq_ticker_id request;
          client_order_id = rq_order_id request; side_raw = rq_side request;
          price = rq_price request; qty = rq_qty request;
          rejected = create_reject_response client_id ticker_id client_order_id side_raw price qty
      in case fmlookup (me_order_books me) ticker_id of
           None \<Rightarrow> Inr (rejected, me)
         | Some order_book \<Rightarrow>
             (case parse_side side_raw of
                None \<Rightarrow> Inr (rejected, me)
              | Some side \<Rightarrow>
                  let market_order_id = me_next_order_id me;
                      me = me\<lparr>me_next_order_id := me_next_order_id me + 1\<rparr>
                  in case add_order order_book client_id market_order_id side price qty of
                       Inl f \<Rightarrow> Inl f
                     | Inr (result, order_book) \<Rightarrow>
                         let me = me\<lparr>me_order_books := fmupd ticker_id order_book (me_order_books me)\<rparr>
                         in case result of
                              Some _ \<Rightarrow>
                                Inr ((ClientResponse_new Accepted client_id ticker_id client_order_id
                                        market_order_id side_raw price 0 qty,
                                      [MarketUpdate_new UAdd ticker_id market_order_id side_raw price
                                        qty market_order_id]), me)
                            | None \<Rightarrow> Inr (rejected, me)))"

definition handle_cancel :: "MatchingEngine \<Rightarrow> ClientRequest \<Rightarrow> (reply \<times> MatchingEngine) outcome" where
  "handle_cancel me request =
     (let client_id = rq_client_id request; ticker_id = rq_ticker_id request;
          order_id = rq_order_id request; side_raw = rq_side request; price = rq_price request;
          rejected = create_cancel_reject_response client_id ticker_id order_id side_raw price
      in case fmlookup (me_order_books me) ticker_id of
           None \<Rightarrow> Inr (rejected, me)
         | Some order_book \<Rightarrow>
             (case cancel_order order_book order_id of
                Inl f \<Rightarrow> Inl f
              | Inr (result, order_book) \<Rightarrow>
                  let me = me\<lparr>me_order_books := fmupd ticker_id order_book (me_order_books me)\<rparr>
                  in case result of
                       Some canceled \<Rightarrow>
                         Inr ((ClientResponse_new Canceled client_id ticker_id order_id order_id
                                 (side_i8 (o_side canceled)) (o_price canceled) 0 (o_qty canceled),
                               [MarketUpdate_new UCancel ticker_id order_id (side_i8 (o_side canceled))
                                 (o_price canceled) (o_qty canceled) (o_priority canceled)]), me)
                     | None \<Rightarrow> Inr (rejected, me)))"

definition process_request :: "MatchingEngine \<Rightarrow> ClientRequest \<Rightarrow> (reply \<times> MatchingEngine) outcome" where
  "process_request me request =
     (case ClientRequestType_from_u8 (rq_msg_type request) of
        Some RNew \<Rightarrow> handle_new_order me request
      | Some RCancel \<Rightarrow> handle_cancel me request
      | None \<Rightarrow> Inr (handle_invalid_request me request, me))"

definition get_order_book :: "MatchingEngine \<Rightarrow> TickerId \<Rightarrow> OrderBook option" where
  "get_order_book me ticker_id = fmlookup (me_order_books me) ticker_id"

definition ticker_count :: "MatchingEngine \<Rightarrow> nat" where
  "ticker_count me = hm_len (me_order_books me)"

definition next_order_id :: "MatchingEngine \<Rightarrow> OrderId" where
  "next_order_id me = me_next_order_id me"

section \<open>The books behind the engine\<close>

text \<open>The resting orders by ticker and order id; the engine's invariant.\<close>

definition engine_view :: "MatchingEngine \<Rightarrow> TickerId \<Rightarrow> OrderId \<Rightarrow> Order option" where
  "engine_view me t k = (case fmlookup (me_order_books me) t of None \<Rightarrow> None | Some b \<Rightarrow> book_view b k)"

definition me_ok :: "MatchingEngine \<Rightarrow> bool" where
  "me_ok me \<longleftrightarrow>
     (\<forall>t b. fmlookup (me_order_books me) t = Some b \<longrightarrow>
        book_ok b \<and> ob_ticker_id b = t \<and> pool_capacity (ob_order_pool b) = ORDER_POOL_SIZE)"

lemma parse_side_eq_Some_iff: "parse_side s = Some sd \<longleftrightarrow> s = side_i8 sd"
  by (cases sd) (auto simp: parse_side_def)

lemma me_ok_upd:
  "me_ok me \<Longrightarrow> book_ok b \<Longrightarrow> ob_ticker_id b = t \<Longrightarrow> pool_capacity (ob_order_pool b) = ORDER_POOL_SIZE \<Longrightarrow>
   me_ok (me\<lparr>me_order_books := fmupd t b (me_order_books me)\<rparr>)"
  by (simp add: me_ok_def)

lemma me_ok_next [simp]: "me_ok (me\<lparr>me_next_order_id := n\<rparr>) = me_ok me"
  by (simp add: me_ok_def)

lemma me_okD:
  assumes "me_ok me" "fmlookup (me_order_books me) t = Some b"
  shows "book_ok b" "ob_ticker_id b = t" "pool_capacity (ob_order_pool b) = ORDER_POOL_SIZE"
    "engine_view me t = book_view b"
  using assms by (auto simp: me_ok_def engine_view_def fun_eq_iff)

lemma book_abs_simps [simp]:
  "ab_orders (book_abs b) = book_view b" "ab_next (book_abs b) = ob_next_priority b"
  "ab_ticker (book_abs b) = ob_ticker_id b" "ab_cap (book_abs b) = pool_capacity (ob_order_pool b)"
  by (simp_all add: book_abs_def)

lemma book_abs_eq_iff:
  "book_abs b' = a \<longleftrightarrow> book_view b' = ab_orders a \<and> ob_next_priority b' = ab_next a \<and>
     ob_ticker_id b' = ab_ticker a \<and> pool_capacity (ob_order_pool b') = ab_cap a"
  by (cases a) (auto simp: book_abs_def)

text \<open>A step of one book keeps the engine's invariant.\<close>

lemma me_ok_book_step:
  assumes "me_ok me" "fmlookup (me_order_books me) t = Some b" "book_ok b'"
    and "abook_step op (book_abs b) = (r, book_abs b')"
  shows "me_ok (me\<lparr>me_order_books := fmupd t b' (me_order_books me)\<rparr>)"
  using me_ok_upd [OF assms(1,3)] abook_step_fields [OF assms(4)] me_okD [OF assms(1,2)] by simp

section \<open>The specification of the engine\<close>

text \<open>
  The engine over specification books (maps from order ids to orders): what each request
  answers and changes.
\<close>

type_synonym aengine = "(TickerId \<Rightarrow> abook option) \<times> OrderId"

definition invalid_reply :: "ClientRequest \<Rightarrow> reply" where
  "invalid_reply rq = (ClientResponse_new InvalidRequest (rq_client_id rq) (rq_ticker_id rq)
     (rq_order_id rq) 0 (rq_side rq) (rq_price rq) 0 (rq_qty rq), [])"

definition cancel_reject_reply :: "ClientRequest \<Rightarrow> reply" where
  "cancel_reject_reply rq = (ClientResponse_new CancelRejected (rq_client_id rq) (rq_ticker_id rq)
     (rq_order_id rq) 0 (rq_side rq) (rq_price rq) 0 0, [])"

definition accept_reply :: "ClientRequest \<Rightarrow> OrderId \<Rightarrow> reply" where
  "accept_reply rq n =
     (ClientResponse_new Accepted (rq_client_id rq) (rq_ticker_id rq) (rq_order_id rq) n (rq_side rq)
        (rq_price rq) 0 (rq_qty rq),
      [MarketUpdate_new UAdd (rq_ticker_id rq) n (rq_side rq) (rq_price rq) (rq_qty rq) n])"

definition cancel_reply :: "ClientRequest \<Rightarrow> Order \<Rightarrow> reply" where
  "cancel_reply rq ord =
     (ClientResponse_new Canceled (rq_client_id rq) (rq_ticker_id rq) (rq_order_id rq) (rq_order_id rq)
        (side_i8 (o_side ord)) (o_price ord) 0 (o_qty ord),
      [MarketUpdate_new UCancel (rq_ticker_id rq) (rq_order_id rq) (side_i8 (o_side ord))
        (o_price ord) (o_qty ord) (o_priority ord)])"

fun aengine_new :: "ClientRequest \<Rightarrow> aengine \<Rightarrow> reply \<times> aengine" where
  "aengine_new rq (B, n) =
     (case (B (rq_ticker_id rq), parse_side (rq_side rq)) of
        (Some a, Some sd) \<Rightarrow>
          (case abook_step (Add (rq_client_id rq) n sd (rq_price rq) (rq_qty rq)) a of
             (Added True, a') \<Rightarrow> (accept_reply rq n, (B(rq_ticker_id rq \<mapsto> a'), n + 1))
           | _ \<Rightarrow> (invalid_reply rq, (B, n + 1)))
      | _ \<Rightarrow> (invalid_reply rq, (B, n)))"

fun aengine_cancel :: "ClientRequest \<Rightarrow> aengine \<Rightarrow> reply \<times> aengine" where
  "aengine_cancel rq (B, n) =
     (case B (rq_ticker_id rq) of
        None \<Rightarrow> (cancel_reject_reply rq, (B, n))
      | Some a \<Rightarrow>
          (case ab_orders a (rq_order_id rq) of
             None \<Rightarrow> (cancel_reject_reply rq, (B, n))
           | Some ord \<Rightarrow> (cancel_reply rq ord, (B(rq_ticker_id rq \<mapsto>
               a\<lparr>ab_orders := (ab_orders a)(rq_order_id rq := None)\<rparr>), n))))"

definition aengine_step :: "ClientRequest \<Rightarrow> aengine \<Rightarrow> reply \<times> aengine" where
  "aengine_step rq E =
     (case request_type rq of
        Some RNew \<Rightarrow> aengine_new rq E
      | Some RCancel \<Rightarrow> aengine_cancel rq E
      | None \<Rightarrow> (invalid_reply rq, E))"

definition engine_abs :: "MatchingEngine \<Rightarrow> aengine" where
  "engine_abs me = (\<lambda>t. map_option book_abs (fmlookup (me_order_books me) t), me_next_order_id me)"

lemma engine_abs_upd:
  "engine_abs (me\<lparr>me_order_books := fmupd t b (me_order_books me)\<rparr>) =
     ((fst (engine_abs me))(t \<mapsto> book_abs b), snd (engine_abs me))"
  by (auto simp: engine_abs_def fun_eq_iff)

lemma engine_after_add:
  "engine_abs (me\<lparr>me_next_order_id := n, me_order_books := fmupd t b (me_order_books me)\<rparr>) =
     ((fst (engine_abs me))(t \<mapsto> book_abs b), n)"
  "me_ok (me\<lparr>me_next_order_id := n, me_order_books := B\<rparr>) = me_ok (me\<lparr>me_order_books := B\<rparr>)"
  by (auto simp: me_ok_def engine_abs_def fun_eq_iff)

lemma handle_new_order_refines:
  assumes ok: "me_ok me"
  shows "\<exists>rp me'. handle_new_order me rq = Inr (rp, me') \<and> me_ok me' \<and>
    aengine_new rq (engine_abs me) = (rp, engine_abs me')"
proof (cases "fmlookup (me_order_books me) (rq_ticker_id rq)")
  case None
  then show ?thesis using ok
    by (simp add: handle_new_order_def Let_def engine_abs_def invalid_reply_def create_reject_response_def)
next
  case (Some b)
  show ?thesis
  proof (cases "parse_side (rq_side rq)")
    case None
    with Some ok show ?thesis
      by (simp add: handle_new_order_def Let_def engine_abs_def invalid_reply_def create_reject_response_def)
  next
    case (Some sd)
    note b = \<open>fmlookup (me_order_books me) (rq_ticker_id rq) = Some b\<close>
    note D = me_okD [OF ok b]
    obtain r b' where r: "add_order b (rq_client_id rq) (me_next_order_id me) sd (rq_price rq) (rq_qty rq)
        = Inr (r, b')" "book_ok b'"
      "abook_step (Add (rq_client_id rq) (me_next_order_id me) sd (rq_price rq) (rq_qty rq)) (book_abs b)
        = (Added (r \<noteq> None), book_abs b')"
      using ob.add_refines [OF D(1)] by metis
    note ok' = me_ok_book_step [OF ok b r(2,3)]
    let ?me = "me\<lparr>me_next_order_id := me_next_order_id me + 1,
      me_order_books := fmupd (rq_ticker_id rq) b' (me_order_books me)\<rparr>"
    have code: "handle_new_order me rq =
        Inr (if r \<noteq> None then accept_reply rq (me_next_order_id me) else invalid_reply rq, ?me)"
      using b Some r(1) by (cases r) (simp_all add: handle_new_order_def Let_def accept_reply_def
          invalid_reply_def create_reject_response_def)
    have "aengine_new rq (engine_abs me) =
       (if r \<noteq> None then (accept_reply rq (me_next_order_id me),
            ((fst (engine_abs me))(rq_ticker_id rq \<mapsto> book_abs b'), me_next_order_id me + 1))
        else (invalid_reply rq, (fst (engine_abs me), me_next_order_id me + 1)))"
      using b Some r(3) by (simp add: engine_abs_def del: abook_step.simps)
    moreover have "(fst (engine_abs me))(rq_ticker_id rq \<mapsto> book_abs b') = fst (engine_abs me)" if "r = None"
      using r(3) that b by (auto simp: engine_abs_def fun_eq_iff split: if_splits)
    ultimately show ?thesis using code ok' by (simp add: engine_after_add del: aengine_new.simps)
  qed
qed

lemma handle_cancel_refines:
  assumes ok: "me_ok me"
  shows "\<exists>rp me'. handle_cancel me rq = Inr (rp, me') \<and> me_ok me' \<and>
    aengine_cancel rq (engine_abs me) = (rp, engine_abs me')"
proof (cases "fmlookup (me_order_books me) (rq_ticker_id rq)")
  case None
  then show ?thesis using ok
    by (simp add: handle_cancel_def Let_def engine_abs_def cancel_reject_reply_def
        create_cancel_reject_response_def)
next
  case (Some b)
  note D = me_okD [OF ok Some]
  obtain r b' where r: "cancel_order b (rq_order_id rq) = Inr (r, b')" "book_ok b'"
    "abook_step (Cancel (rq_order_id rq)) (book_abs b) = (Cancelled (map_option strip r), book_abs b')"
    using ob.cancel_refines [OF D(1)] by metis
  note ok' = me_ok_book_step [OF ok Some r(2,3)]
  have v: "book_view b (rq_order_id rq) = map_option strip r"
    and b': "book_abs b' = (book_abs b)\<lparr>ab_orders := (book_view b)(rq_order_id rq := None)\<rparr>"
    using r(3) by simp_all
  show ?thesis
  proof (cases r)
    case None
    then have "book_abs b' = book_abs b" using b' v by (simp add: fun_upd_idem book_abs_def)
    then have "(fst (engine_abs me))(rq_ticker_id rq \<mapsto> book_abs b') = fst (engine_abs me)"
      using Some by (auto simp: engine_abs_def fun_eq_iff)
    with None Some r(1) ok' v show ?thesis
      by (simp add: handle_cancel_def Let_def cancel_reject_reply_def create_cancel_reject_response_def
          engine_abs_upd) (simp add: engine_abs_def cancel_reject_reply_def)
  next
    case (Some ord)
    with \<open>fmlookup (me_order_books me) (rq_ticker_id rq) = Some b\<close> r(1) ok' v b' show ?thesis
      by (simp add: handle_cancel_def Let_def cancel_reply_def engine_abs_upd)
        (simp add: engine_abs_def cancel_reply_def)
  qed
qed

lemma process_request_ok:
  assumes ok: "me_ok me"
  shows "\<exists>rp me'. process_request me rq = Inr (rp, me') \<and> me_ok me' \<and>
    aengine_step rq (engine_abs me) = (rp, engine_abs me')"
  using ok handle_new_order_refines [OF ok, of rq] handle_cancel_refines [OF ok, of rq]
  by (auto simp: process_request_def aengine_step_def request_type_def handle_invalid_request_def
      invalid_reply_def simp del: aengine_new.simps aengine_cancel.simps
      split: option.split ClientRequestType.split)

section \<open>Runs of the engine\<close>

interpretation en: simulation "\<lambda>rq me. process_request me rq" aengine_step engine_abs me_ok
  by unfold_locales (rule process_request_ok)

text \<open>The start-up of the exchange: a new engine, and \<open>add_ticker\<close> for each ticker.\<close>

primrec add_tickers :: "TickerId list \<Rightarrow> MatchingEngine \<Rightarrow> MatchingEngine outcome" where
  "add_tickers [] me = Inr me"
| "add_tickers (t # ts) me = (case add_ticker me t of Inl f \<Rightarrow> Inl f | Inr me \<Rightarrow> add_tickers ts me)"

definition engine_exec :: "TickerId list \<Rightarrow> ClientRequest list \<Rightarrow> (reply list \<times> MatchingEngine) outcome" where
  "engine_exec ts rqs =
     (case add_tickers ts MatchingEngine_new of
        Inl f \<Rightarrow> Inl f
      | Inr me \<Rightarrow> run_outcome (\<lambda>rq me. process_request me rq) rqs me)"

definition aengine_start :: "TickerId set \<Rightarrow> aengine" where
  "aengine_start T = (\<lambda>t. if t \<in> T then Some (abook_new t ORDER_POOL_SIZE) else None, 1)"

lemma add_tickers_ok:
  assumes "me_ok me" "engine_abs me = aengine_start T"
  shows "\<exists>me'. add_tickers ts me = Inr me' \<and> me_ok me' \<and> engine_abs me' = aengine_start (T \<union> set ts)"
  using assms
proof (induction ts arbitrary: me T)
  case (Cons t ts)
  obtain b where b: "OrderBook_new t = Inr b" "book_ok b" "book_abs b = abook_new t ORDER_POOL_SIZE"
    using OrderBook_new_ok by blast
  have "\<exists>me'. add_ticker me t = Inr me' \<and> me_ok me' \<and> engine_abs me' = aengine_start (insert t T)"
  proof (cases "t \<in> T")
    case True
    then have "contains_key (me_order_books me) t"
      using Cons.prems(2) by (auto simp: engine_abs_def aengine_start_def fun_eq_iff split: if_splits)
    with True Cons.prems show ?thesis by (simp add: add_ticker_def insert_absorb)
  next
    case False
    then have "fmlookup (me_order_books me) t = None"
      using Cons.prems(2) by (auto simp: engine_abs_def aengine_start_def fun_eq_iff split: if_splits)
    moreover have "me_ok (me\<lparr>me_order_books := fmupd t b (me_order_books me)\<rparr>)"
      using b Cons.prems(1) by (intro me_ok_upd) (auto simp: book_abs_eq_iff abook_new_def)
    moreover have "engine_abs (me\<lparr>me_order_books := fmupd t b (me_order_books me)\<rparr>) = aengine_start (insert t T)"
      unfolding engine_abs_upd Cons.prems(2) by (auto simp: aengine_start_def b(3) fun_eq_iff)
    ultimately show ?thesis by (simp add: add_ticker_def b(1))
  qed
  with Cons.IH show ?case by fastforce
qed simp

lemma MatchingEngine_new_ok: "me_ok MatchingEngine_new" "engine_abs MatchingEngine_new = aengine_start {}"
  by (simp_all add: MatchingEngine_new_def me_ok_def engine_abs_def aengine_start_def)

lemma engine_exec_ok:
  "\<exists>rps me. engine_exec ts rqs = Inr (rps, me) \<and> me_ok me \<and>
     run_spec aengine_step rqs (aengine_start (set ts)) = (rps, engine_abs me)"
  using add_tickers_ok [OF MatchingEngine_new_ok, of ts] en.run_refines [of _ rqs]
  unfolding engine_exec_def by force

subsection \<open>The market data feed\<close>

text \<open>A subscriber that keeps the open orders of each ticker from the feed alone.\<close>

type_synonym feed_state = "TickerId \<Rightarrow> OrderId \<Rightarrow> (i8 \<times> Price \<times> Qty) option"

definition apply_update :: "feed_state \<Rightarrow> MarketUpdate \<Rightarrow> feed_state" where
  "apply_update F u =
     (case update_type u of
        Some UAdd \<Rightarrow> F(mu_ticker_id u := (F (mu_ticker_id u))(mu_order_id u \<mapsto> (mu_side u, mu_price u, mu_qty u)))
      | Some UCancel \<Rightarrow> F(mu_ticker_id u := (F (mu_ticker_id u))(mu_order_id u := None))
      | _ \<Rightarrow> F)"

definition order_entry :: "Order \<Rightarrow> i8 \<times> Price \<times> Qty" where
  "order_entry ord = (side_i8 (o_side ord), o_price ord, o_qty ord)"

definition open_orders :: "aengine \<Rightarrow> feed_state" where
  "open_orders E t k =
     (case fst E t of None \<Rightarrow> None | Some a \<Rightarrow> map_option order_entry (ab_orders a k))"

lemma engine_view_abs:
  "engine_view me t k = (case fst (engine_abs me) t of None \<Rightarrow> None | Some a \<Rightarrow> ab_orders a k)"
  by (simp add: engine_view_def engine_abs_def split: option.split)

lemma open_orders_engine: "open_orders (engine_abs me) t k = map_option order_entry (engine_view me t k)"
  by (simp add: open_orders_def engine_view_abs split: option.split)

lemma open_orders_upd:
  "open_orders (B(t \<mapsto> a), n) = (open_orders (B, m))(t := (\<lambda>k. map_option order_entry (ab_orders a k)))"
  by (auto simp: open_orders_def fun_eq_iff)

lemma apply_update_new [simp]:
  "apply_update F (MarketUpdate_new UAdd t k s p q r) = F(t := (F t)(k \<mapsto> (s, p, q)))"
  "apply_update F (MarketUpdate_new UCancel t k s p q r) = F(t := (F t)(k := None))"
  by (simp_all add: apply_update_def)

lemma aengine_new_feed:
  "open_orders (snd (aengine_new rq E)) = foldl apply_update (open_orders E) (snd (fst (aengine_new rq E)))"
  by (cases E) (auto simp: invalid_reply_def accept_reply_def open_orders_def fun_eq_iff
      parse_side_eq_Some_iff order_entry_def split: option.splits)

lemma aengine_cancel_feed:
  "open_orders (snd (aengine_cancel rq E)) = foldl apply_update (open_orders E) (snd (fst (aengine_cancel rq E)))"
  by (cases E) (auto simp: cancel_reject_reply_def cancel_reply_def open_orders_def fun_eq_iff
      split: option.splits)

lemma aengine_step_feed:
  "open_orders (snd (aengine_step rq E)) = foldl apply_update (open_orders E) (snd (fst (aengine_step rq E)))"
  using aengine_new_feed [of rq E] aengine_cancel_feed [of rq E]
  by (auto simp: aengine_step_def invalid_reply_def simp del: aengine_new.simps aengine_cancel.simps
      split: option.split ClientRequestType.split)

lemma open_orders_start: "open_orders (aengine_start T) = (\<lambda>t k. None)"
  by (auto simp: open_orders_def aengine_start_def abook_new_def fun_eq_iff)

lemma aengine_run_feed:
  "open_orders (snd (run_spec aengine_step rqs E)) =
     foldl apply_update (open_orders E) (concat (map snd (fst (run_spec aengine_step rqs E))))"
  by (induction rqs arbitrary: E) (simp_all add: run_spec_Cons_eq aengine_step_feed del: run_spec.simps(2))

subsection \<open>Order ids\<close>

text \<open>A request takes at most one id; an accepted one gets the id the counter held.\<close>

definition accepted_ids :: "reply list \<Rightarrow> OrderId list" where
  "accepted_ids rps =
     map (\<lambda>rp. rs_market_order_id (fst rp)) (filter (\<lambda>rp. response_type (fst rp) = Some Accepted) rps)"

lemma aengine_step_id:
  "snd (snd (aengine_step rq E)) = snd E \<and> response_type (fst (fst (aengine_step rq E))) \<noteq> Some Accepted \<or>
   snd (snd (aengine_step rq E)) = snd E + 1 \<and>
     (response_type (fst (fst (aengine_step rq E))) = Some Accepted \<longrightarrow>
      rs_market_order_id (fst (fst (aengine_step rq E))) = snd E)"
  by (cases E; cases "request_type rq"; cases "the (request_type rq)")
    (auto simp: aengine_step_def invalid_reply_def cancel_reject_reply_def accept_reply_def cancel_reply_def
      split: option.splits)

lemma accepted_ids_increasing:
  assumes "unat (snd E) + length rqs < 2 ^ 64"
  shows "sorted_wrt (<) (accepted_ids (fst (run_spec aengine_step rqs E))) \<and>
    (\<forall>i \<in> set (accepted_ids (fst (run_spec aengine_step rqs E))). snd E \<le> i)"
  using assms
proof (induction rqs arbitrary: E)
  case (Cons rq rqs)
  let ?E = "snd (aengine_step rq E)"
  have s: "unat (snd E + 1) = Suc (unat (snd E))" using Cons.prems by (simp add: unat_word_ariths)
  have lt: "snd E + 1 \<le> i \<Longrightarrow> snd E < i" "snd E + 1 \<le> i \<Longrightarrow> snd E \<le> i" for i
    using s by (simp_all add: word_le_nat_alt word_less_nat_alt)
  note id = aengine_step_id [of rq E]
  then have "unat (snd ?E) + length rqs < 2 ^ 64" using Cons.prems s by auto
  note IH = Cons.IH [OF this]
  show ?case
    using id IH lt by (auto simp: run_spec_Cons_eq accepted_ids_def simp del: run_spec.simps(2))
qed (simp add: accepted_ids_def)

definition ids_below :: "aengine \<Rightarrow> bool" where
  "ids_below E \<longleftrightarrow> (\<forall>t a k. fst E t = Some a \<and> ab_orders a k \<noteq> None \<longrightarrow> k < snd E)"

lemma ids_below_step:
  assumes "ids_below E" "unat (snd E) + 1 < 2 ^ 64"
  shows "ids_below (snd (aengine_step rq E))"
proof -
  have "unat (snd E + 1) = Suc (unat (snd E))" using assms(2) by (simp add: unat_word_ariths)
  then have "snd E < snd E + 1" "k < snd E \<Longrightarrow> k < snd E + 1" for k by (simp_all add: word_less_nat_alt)
  with assms(1) show ?thesis
    by (cases E; cases "request_type rq"; cases "the (request_type rq)")
      (auto simp: aengine_step_def ids_below_def split: option.splits if_splits)
qed

lemma ids_below_run:
  assumes "ids_below E" "unat (snd E) + length rqs < 2 ^ 64"
  shows "ids_below (snd (run_spec aengine_step rqs E))"
  using assms
proof (induction rqs arbitrary: E)
  case (Cons rq rqs)
  have s: "unat (snd E + 1) = Suc (unat (snd E))" using Cons.prems by (simp add: unat_word_ariths)
  have "ids_below (snd (aengine_step rq E))"
    using ids_below_step [OF Cons.prems(1), of rq] Cons.prems(2) by simp
  moreover have "unat (snd (snd (aengine_step rq E))) + length rqs < 2 ^ 64"
    using aengine_step_id [of rq E] Cons.prems(2) s by auto
  ultimately show ?case using Cons.IH by (simp add: run_spec_Cons_eq del: run_spec.simps(2))
qed simp

lemma aengine_accepts_iff:
  assumes "ids_below E" "request_type rq = Some RNew"
  shows "response_type (fst (fst (aengine_step rq E))) = Some Accepted \<longleftrightarrow>
    (\<exists>a. fst E (rq_ticker_id rq) = Some a \<and> rq_side rq \<in> {1, - 1} \<and> card (dom (ab_orders a)) \<noteq> ab_cap a)"
proof (cases E)
  case (Pair B n)
  have "ab_orders a n = None" if "B t = Some a" for t a
    using assms(1) that unfolding ids_below_def Pair by fastforce
  then show ?thesis
    using assms(2) Pair
    by (auto simp: aengine_step_def invalid_reply_def accept_reply_def parse_side_def split: option.splits)
qed

lemma aengine_step_response:
  "rs_client_id (fst (fst (aengine_step rq E))) = rq_client_id rq \<and>
   rs_ticker_id (fst (fst (aengine_step rq E))) = rq_ticker_id rq \<and>
   rs_client_order_id (fst (fst (aengine_step rq E))) = rq_order_id rq \<and>
   rs_exec_qty (fst (fst (aengine_step rq E))) = 0 \<and>
   (case response_type (fst (fst (aengine_step rq E))) of
      Some Accepted \<Rightarrow> map update_type (snd (fst (aengine_step rq E))) = [Some UAdd]
    | Some Canceled \<Rightarrow> map update_type (snd (fst (aengine_step rq E))) = [Some UCancel]
    | Some Filled \<Rightarrow> False
    | _ \<Rightarrow> snd (fst (aengine_step rq E)) = [])"
  by (cases E; cases "request_type rq"; cases "the (request_type rq)")
    (auto simp: aengine_step_def invalid_reply_def cancel_reject_reply_def accept_reply_def cancel_reply_def
      split: option.splits)

lemma dom_aengine_step: "dom (fst (snd (aengine_step rq E))) = dom (fst E)"
  by (cases E; cases "request_type rq"; cases "the (request_type rq)")
    (auto simp: aengine_step_def dom_def split: option.splits if_splits)

lemma dom_aengine_run: "dom (fst (snd (run_spec aengine_step rqs E))) = dom (fst E)"
  by (rule run_spec_invariant [where I = "\<lambda>E'. dom (fst E') = dom (fst E)"])
    (simp_all add: dom_aengine_step)

lemma engine_exec_reachable:
  assumes "engine_exec ts rqs = Inr (rps, me)"
  shows "me_ok me" "dom (fst (engine_abs me)) = set ts"
    "length rqs < 2 ^ 64 - 1 \<Longrightarrow> ids_below (engine_abs me)"
proof -
  have ok: "me_ok me" and run: "run_spec aengine_step rqs (aengine_start (set ts)) = (rps, engine_abs me)"
    using engine_exec_ok [of ts rqs] assms by auto
  show "me_ok me" by fact
  have "dom (fst (aengine_start (set ts))) = set ts"
    by (auto simp: aengine_start_def dom_def)
  with dom_aengine_run [of rqs "aengine_start (set ts)"] run show "dom (fst (engine_abs me)) = set ts" by simp
  have "ids_below (aengine_start (set ts))" "snd (aengine_start (set ts)) = 1"
    by (auto simp: ids_below_def aengine_start_def abook_new_def split: if_splits)
  with ids_below_run [of "aengine_start (set ts)" rqs] run
  show "length rqs < 2 ^ 64 - 1 \<Longrightarrow> ids_below (engine_abs me)" by simp
qed

lemma run_spec_list_all2:
  assumes "\<And>i a. P i (fst (step i a))"
  shows "list_all2 P is (fst (run_spec step is a))"
  using assms by (induction "is" arbitrary: a) (simp_all add: run_spec_Cons_eq del: run_spec.simps(2))

subsection \<open>Orders of one client\<close>

text \<open>New orders for a listed ticker, as many as the book has room for, are all accepted.\<close>

lemma of_nat_fresh: "k < 2 ^ 64 - 1 \<Longrightarrow> (of_nat (Suc k) :: u64) \<notin> of_nat ` {1..k}"
  and inj_ids: "k < 2 ^ 64 \<Longrightarrow> inj_on (of_nat :: nat \<Rightarrow> u64) {1..k}"
proof -
  have inj: "m = n" if "(of_nat m :: u64) = of_nat n" "m < 2 ^ 64" "n < 2 ^ 64" for m n
  proof -
    have "unat (of_nat m :: u64) = m" "unat (of_nat n :: u64) = n" using that(2,3) by (simp_all add: unat_of_nat)
    with that(1) show ?thesis by metis
  qed
  show "(of_nat (Suc k) :: u64) \<notin> of_nat ` {1..k}" if "k < 2 ^ 64 - 1"
    using inj [of "Suc k"] that by fastforce
  show "inj_on (of_nat :: nat \<Rightarrow> u64) {1..k}" if "k < 2 ^ 64"
    using inj that by (fastforce simp: inj_on_def)
qed

lemma new_orders_accepted:
  assumes "list_all (\<lambda>rq. request_type rq = Some RNew \<and> rq_ticker_id rq = t \<and> rq_side rq \<in> {1, - 1}) rqs"
    and "t \<in> T" "length rqs \<le> ORDER_POOL_SIZE"
  shows "fst (run_spec aengine_step rqs (aengine_start T)) = map2 accept_reply rqs (map (\<lambda>n. of_nat (Suc n)) [0..<length rqs]) \<and>
    (\<exists>B a. snd (run_spec aengine_step rqs (aengine_start T)) = (B, of_nat (Suc (length rqs))) \<and> B t = Some a \<and>
       ab_cap a = ORDER_POOL_SIZE \<and> dom (ab_orders a) = of_nat ` {1..length rqs})"
  using assms(1,3)
proof (induction rqs rule: rev_induct)
  case Nil
  then show ?case using assms(2) by (simp add: aengine_start_def abook_new_def)
next
  case (snoc rq rqs)
  let ?k = "length rqs"
  have k: "?k < ORDER_POOL_SIZE" "?k < 2 ^ 64 - 1" using snoc.prems(2) by (simp_all add: ORDER_POOL_SIZE_def)
  obtain B a where IH: "fst (run_spec aengine_step rqs (aengine_start T)) = map2 accept_reply rqs (map (\<lambda>n. of_nat (Suc n)) [0..<?k])"
    "snd (run_spec aengine_step rqs (aengine_start T)) = (B, of_nat (Suc ?k))" "B t = Some a" "ab_cap a = ORDER_POOL_SIZE"
    "dom (ab_orders a) = of_nat ` {1..?k}" using snoc by auto
  have rq: "request_type rq = Some RNew" "rq_ticker_id rq = t" "rq_side rq \<in> {1, - 1}" using snoc.prems(1) by auto
  have free: "ab_orders a (of_nat (Suc ?k)) = None" using of_nat_fresh [OF k(2)] IH(5) by blast
  have "card (dom (ab_orders a)) = ?k" using card_image [OF inj_ids, of ?k] k(2) by (simp add: IH(5))
  then have room: "card (dom (ab_orders a)) \<noteq> ab_cap a" using k(1) IH(4) by simp
  obtain sd where sd: "parse_side (rq_side rq) = Some sd" using rq(3) by (auto simp: parse_side_def)
  obtain a' where a': "abook_step (Add (rq_client_id rq) (of_nat (Suc ?k)) sd (rq_price rq) (rq_qty rq)) a = (Added True, a')"
    "ab_cap a' = ORDER_POOL_SIZE" "dom (ab_orders a') = insert (of_nat (Suc ?k)) (dom (ab_orders a))"
    using free room IH(4) by simp
  have "aengine_step rq (B, of_nat (Suc ?k)) = (accept_reply rq (of_nat (Suc ?k)), (B(t \<mapsto> a'), of_nat (Suc ?k) + 1))"
    using rq(1,2) sd IH(3) a'(1) by (simp add: aengine_step_def del: abook_step.simps)
  moreover have "insert (of_nat (Suc ?k)) (of_nat ` {1..?k}) = (of_nat ` {1..Suc ?k} :: u64 set)"
    by (auto simp: atLeastAtMostSuc_conv)
  ultimately show ?case
    using IH a'(2,3) by (simp add: run_spec_append split_beta)
qed

section \<open>Properties\<close>

text \<open>C1: the matching engine implements its specification: from start-up with any tickers,
  every sequence of requests (with arbitrary bytes in their fields) runs without a panic, and
  every response, every market update and the orders left in the books are those of the
  engine over plain maps.\<close>

theorem engine_refines_spec:
  "\<exists>rps me. engine_exec ts rqs = Inr (rps, me) \<and>
     run_spec aengine_step rqs (aengine_start (set ts)) = (rps, engine_abs me)"
  using engine_exec_ok [of ts rqs] by blast

text \<open>C3: the market data feed is complete and exact: a subscriber that starts with nothing
  and applies the published updates in order holds, for every ticker, exactly the ids, sides,
  prices and quantities of the orders in the exchange's books.\<close>

theorem feed_replays_books:
  "\<exists>rps me. engine_exec ts rqs = Inr (rps, me) \<and>
     foldl apply_update (\<lambda>t k. None) (concat (map snd rps)) =
       (\<lambda>t k. map_option order_entry (engine_view me t k))"
proof -
  obtain rps me where ex: "engine_exec ts rqs = Inr (rps, me)"
    and run: "run_spec aengine_step rqs (aengine_start (set ts)) = (rps, engine_abs me)"
    using engine_exec_ok [of ts rqs] by blast
  with aengine_run_feed [of rqs "aengine_start (set ts)"] show ?thesis
    by (simp add: open_orders_engine open_orders_start fun_eq_iff)
qed

text \<open>Order ids are unique: in a session of fewer than \<open>2 ^ 64 - 1\<close> requests the market
  order ids of the accepted orders are strictly increasing, so no id is given out twice, over
  all tickers.\<close>

lemma order_ids_unique:
  assumes "length rqs < 2 ^ 64 - 1"
  shows "\<exists>rps me. engine_exec ts rqs = Inr (rps, me) \<and> sorted_wrt (<) (accepted_ids rps) \<and>
    distinct (accepted_ids rps) \<and> 0 \<notin> set (accepted_ids rps)"
proof -
  obtain rps me where ex: "engine_exec ts rqs = Inr (rps, me)"
    and run: "run_spec aengine_step rqs (aengine_start (set ts)) = (rps, engine_abs me)"
    using engine_exec_ok [of ts rqs] by blast
  have "snd (aengine_start (set ts)) = 1" by (simp add: aengine_start_def)
  with accepted_ids_increasing [of "aengine_start (set ts)" rqs] assms run
  have "sorted_wrt (<) (accepted_ids rps)" "\<forall>i \<in> set (accepted_ids rps). 1 \<le> i" by simp_all
  moreover from this(2) have "0 \<notin> set (accepted_ids rps)" by fastforce
  ultimately show ?thesis using ex strict_sorted_iff by blast
qed

lemma order_ids_unique_witness:
  "\<exists>rps me. engine_exec [1] [ClientRequest_new RNew 7 1 42 1 100 10, ClientRequest_new RNew 7 1 43 1 100 10]
     = Inr (rps, me) \<and> sorted_wrt (<) (accepted_ids rps) \<and> distinct (accepted_ids rps) \<and>
     0 \<notin> set (accepted_ids rps)"
  by (rule order_ids_unique) simp

text \<open>C37: in every reachable engine (before the id counter wraps) a new order is accepted
  exactly when its ticker is listed, its side byte is 1 or -1 and its book holds fewer than
  65536 orders; nothing else (price, quantity, client, ids) can reject it.\<close>

theorem new_order_accepted_iff:
  assumes "engine_exec ts rqs = Inr (rps, me)" "length rqs < 2 ^ 64 - 1"
    and "request_type rq = Some RNew"
  shows "\<exists>rp me'. process_request me rq = Inr (rp, me') \<and>
    (response_type (fst rp) = Some Accepted \<longleftrightarrow>
       rq_ticker_id rq \<in> set ts \<and> rq_side rq \<in> {1, - 1} \<and>
       card (dom (engine_view me (rq_ticker_id rq))) < 65536)"
proof -
  note R = engine_exec_reachable [OF assms(1)]
  obtain rp me' where p: "process_request me rq = Inr (rp, me')"
    "aengine_step rq (engine_abs me) = (rp, engine_abs me')"
    using process_request_ok [OF R(1)] by blast
  have "response_type (fst rp) = Some Accepted \<longleftrightarrow> (\<exists>a. fst (engine_abs me) (rq_ticker_id rq) = Some a \<and>
      rq_side rq \<in> {1, - 1} \<and> card (dom (ab_orders a)) \<noteq> ab_cap a)"
    using aengine_accepts_iff [OF R(3) [OF assms(2)] assms(3)] p(2) by simp
  also have "\<dots> \<longleftrightarrow> rq_ticker_id rq \<in> set ts \<and> rq_side rq \<in> {1, - 1} \<and>
      card (dom (engine_view me (rq_ticker_id rq))) < 65536"
  proof (cases "fmlookup (me_order_books me) (rq_ticker_id rq)")
    case None
    then show ?thesis unfolding R(2) [symmetric] by (simp add: engine_abs_def dom_def)
  next
    case (Some b)
    note D = me_okD [OF R(1) Some]
    have "order_count b \<le> pool_capacity (ob_order_pool b)" using order_count_free [OF D(1)] by linarith
    then show ?thesis
      unfolding R(2) [symmetric] D(4) card_dom_book_view [OF D(1)]
      using Some D(3) card_dom_book_view [OF D(1)]
      by (auto simp: engine_abs_def dom_def [of "\<lambda>t. map_option _ _"] ORDER_POOL_SIZE_def)
  qed
  finally show ?thesis using p(1) by blast
qed

theorem new_order_accepted_iff_witness:
  "\<exists>rps me rp me'. engine_exec [1] [ClientRequest_new RCancel 7 1 42 1 100 10] = Inr (rps, me) \<and>
     process_request me (ClientRequest_new RNew 7 1 42 (- 1) 100 10) = Inr (rp, me') \<and>
     (response_type (fst rp) = Some Accepted \<longleftrightarrow> card (dom (engine_view me 1)) < 65536)"
proof -
  obtain rps me where ex: "engine_exec [1] [ClientRequest_new RCancel 7 1 42 1 100 10] = Inr (rps, me)"
    using engine_exec_ok by blast
  have "request_type (ClientRequest_new RNew 7 1 42 (- 1) 100 10) = Some RNew" by simp
  from new_order_accepted_iff [OF ex _ this] ex show ?thesis by (auto simp: ClientRequest_new_def)
qed

text \<open>Every request gets exactly one response, which carries the client, ticker and order
  id of the request; no response reports an execution, and updates are published exactly for
  accepted and for cancelled orders, one each: the engine never produces a fill or a trade.\<close>

lemma responses_match_requests:
  "\<exists>rps me. engine_exec ts rqs = Inr (rps, me) \<and>
     list_all2 (\<lambda>rq (rp, us). rs_client_id rp = rq_client_id rq \<and> rs_ticker_id rp = rq_ticker_id rq \<and>
       rs_client_order_id rp = rq_order_id rq \<and> rs_exec_qty rp = 0 \<and>
       (case response_type rp of
          Some Accepted \<Rightarrow> map update_type us = [Some UAdd]
        | Some Canceled \<Rightarrow> map update_type us = [Some UCancel]
        | Some Filled \<Rightarrow> False
        | _ \<Rightarrow> us = [])) rqs rps"
proof -
  obtain rps me where ex: "engine_exec ts rqs = Inr (rps, me)"
    and run: "run_spec aengine_step rqs (aengine_start (set ts)) = (rps, engine_abs me)"
    using engine_exec_ok [of ts rqs] by blast
  have "list_all2 (\<lambda>rq (rp, us). rs_client_id rp = rq_client_id rq \<and> rs_ticker_id rp = rq_ticker_id rq \<and>
       rs_client_order_id rp = rq_order_id rq \<and> rs_exec_qty rp = 0 \<and>
       (case response_type rp of
          Some Accepted \<Rightarrow> map update_type us = [Some UAdd]
        | Some Canceled \<Rightarrow> map update_type us = [Some UCancel]
        | Some Filled \<Rightarrow> False
        | _ \<Rightarrow> us = [])) rqs (fst (run_spec aengine_step rqs (aengine_start (set ts))))"
    by (rule run_spec_list_all2) (simp add: split_beta aengine_step_response)
  with run ex show ?thesis by simp
qed

text \<open>A cancellation names an order by its market id alone: a client can cancel the order of
  another one.\<close>

lemma cancel_ignores_owner:
  assumes "me_ok me" "engine_view me (rq_ticker_id rq) (rq_order_id rq) = Some ord"
    and "request_type rq = Some RCancel"
  shows "\<exists>rp me'. process_request me rq = Inr (rp, me') \<and> response_type (fst rp) = Some Canceled"
  using process_request_ok [OF assms(1), of rq] assms(2,3)
  by (auto simp: aengine_step_def engine_view_abs engine_abs_def cancel_reply_def split: option.splits)

end
