(* ===== verification/Net.thy ===== *)
theory Net
  imports Types
begin

text \<open>
  The socket wrappers of \<open>common/src/net/tcp.rs\<close> and \<open>common/src/net/multicast.rs\<close>. The
  sockets themselves belong to the crate \<open>socket2\<close> and the operating system: \<open>socket_api\<close>
  collects the calls the wrappers make, each a function on an unknown socket state, and is an
  argument of every definition. What is modelled is the code of the wrappers: the order of
  the calls, the early return of each \<open>?\<close>, the validation of addresses and the mapping of
  results. The receive buffer is not represented: only the slice that \<open>recv\<close> filled is ever
  read from it.
\<close>

section \<open>Results and the socket interface\<close>

datatype io_error = WouldBlock | ConnectionReset | NotConnected | InvalidInput | OtherError

type_synonym 'a io = "io_error + 'a"
type_synonym ipv4 = "nat \<times> nat \<times> nat \<times> nat"

datatype socket_addr = SockV4 ipv4 u16 | SockV6 "u16 list" u16

datatype socket_type = Stream4 | Stream6 | Datagram4

record 's socket_api =
  sk_new :: "socket_type \<Rightarrow> 's io"
  sk_set_nodelay :: "bool \<Rightarrow> 's \<Rightarrow> unit io \<times> 's"
  sk_set_reuse_address :: "bool \<Rightarrow> 's \<Rightarrow> unit io \<times> 's"
  sk_set_reuse_port :: "bool \<Rightarrow> 's \<Rightarrow> unit io \<times> 's"
  sk_set_multicast_loop :: "bool \<Rightarrow> 's \<Rightarrow> unit io \<times> 's"
  sk_set_multicast_ttl :: "u32 \<Rightarrow> 's \<Rightarrow> unit io \<times> 's"
  sk_set_multicast_if :: "ipv4 \<Rightarrow> 's \<Rightarrow> unit io \<times> 's"
  sk_join_multicast :: "ipv4 \<Rightarrow> ipv4 \<Rightarrow> 's \<Rightarrow> unit io \<times> 's"
  sk_leave_multicast :: "ipv4 \<Rightarrow> ipv4 \<Rightarrow> 's \<Rightarrow> unit io \<times> 's"
  sk_connect :: "socket_addr \<Rightarrow> 's \<Rightarrow> unit io \<times> 's"
  sk_bind :: "socket_addr \<Rightarrow> 's \<Rightarrow> unit io \<times> 's"
  sk_listen :: "nat \<Rightarrow> 's \<Rightarrow> unit io \<times> 's"
  sk_accept :: "'s \<Rightarrow> 's io \<times> 's"
  sk_nonblocking :: "'s \<Rightarrow> bool io \<times> 's"
  sk_set_nonblocking :: "bool \<Rightarrow> 's \<Rightarrow> unit io \<times> 's"
  sk_recv :: "nat \<Rightarrow> 's \<Rightarrow> u8 list io \<times> 's"
  sk_send :: "u8 list \<Rightarrow> 's \<Rightarrow> nat io \<times> 's"
  sk_send_to :: "u8 list \<Rightarrow> socket_addr \<Rightarrow> 's \<Rightarrow> nat io \<times> 's"

text \<open>Sequencing with early return, the \<open>?\<close> of the source.\<close>

definition sbind :: "('s \<Rightarrow> 'a io \<times> 's) \<Rightarrow> ('a \<Rightarrow> 's \<Rightarrow> 'b io \<times> 's) \<Rightarrow> 's \<Rightarrow> 'b io \<times> 's" where
  "sbind m f s = (case m s of (Inl e, s') \<Rightarrow> (Inl e, s') | (Inr a, s') \<Rightarrow> f a s')"

definition sret :: "'a io \<Rightarrow> 's \<Rightarrow> 'a io \<times> 's" where
  "sret r s = (r, s)"

text \<open>A new socket that is configured by a sequence of calls: an error drops it.\<close>

definition with_new :: "'s io \<Rightarrow> ('s \<Rightarrow> unit io \<times> 's) \<Rightarrow> 's io" where
  "with_new new setup =
     (case new of
        Inl e \<Rightarrow> Inl e
      | Inr s \<Rightarrow> (case setup s of (Inl e, _) \<Rightarrow> Inl e | (Inr _, s') \<Rightarrow> Inr s'))"

definition BUFFER_SIZE :: nat where
  "BUFFER_SIZE = 65536"

section \<open>Addresses\<close>

text \<open>\<open>str::parse::<Ipv4Addr>\<close>: four decimal octets of at most three digits, without leading
  zeros, separated by dots.\<close>

definition digit_value :: "char \<Rightarrow> nat option" where
  "digit_value c = (if of_char c \<in> {48..57 :: nat} then Some (of_char c - 48) else None)"

fun parse_digits :: "string \<Rightarrow> nat \<Rightarrow> nat option" where
  "parse_digits [] acc = Some acc"
| "parse_digits (c # cs) acc =
     (case digit_value c of None \<Rightarrow> None | Some d \<Rightarrow> parse_digits cs (10 * acc + d))"

definition parse_octet :: "string \<Rightarrow> nat option" where
  "parse_octet s =
     (if s = [] \<or> 3 < length s \<or> (1 < length s \<and> hd s = CHR ''0'') then None
      else (case parse_digits s 0 of
              Some n \<Rightarrow> if n \<le> 255 then Some n else None
            | None \<Rightarrow> None))"

fun split_on :: "char \<Rightarrow> string \<Rightarrow> string list" where
  "split_on d [] = [[]]"
| "split_on d (c # cs) =
     (if c = d then [] # split_on d cs
      else (case split_on d cs of [] \<Rightarrow> [[c]] | w # ws \<Rightarrow> (c # w) # ws))"

definition parse_ipv4 :: "string \<Rightarrow> ipv4 option" where
  "parse_ipv4 s =
     (case map parse_octet (split_on (CHR ''.'') s) of
        [Some a, Some b, Some c, Some d] \<Rightarrow> Some (a, b, c, d)
      | _ \<Rightarrow> None)"

text \<open>\<open>.parse().map_err(InvalidInput)?\<close>\<close>

definition addr_or_err :: "string \<Rightarrow> ipv4 io" where
  "addr_or_err s = (case parse_ipv4 s of Some a \<Rightarrow> Inr a | None \<Rightarrow> Inl InvalidInput)"

definition is_multicast :: "ipv4 \<Rightarrow> bool" where
  "is_multicast a = (case a of (x, _, _, _) \<Rightarrow> 224 \<le> x \<and> x \<le> 239)"

section \<open>TCP\<close>

record 's TcpSocket =
  tcp_socket :: 's
  tcp_send_buffer :: "u8 list"

definition TcpSocket_from_socket :: "'s \<Rightarrow> 's TcpSocket" where
  "TcpSocket_from_socket s = \<lparr>tcp_socket = s, tcp_send_buffer = replicate BUFFER_SIZE 0\<rparr>"

text \<open>\<open>resolved\<close> is the result of \<open>to_socket_addrs\<close> (the system's name resolution).\<close>

primrec socket_domain :: "socket_addr \<Rightarrow> socket_type" where
  "socket_domain (SockV4 a p) = Stream4"
| "socket_domain (SockV6 a p) = Stream6"

definition TcpSocket_connect :: "'s socket_api \<Rightarrow> socket_addr list io \<Rightarrow> 's TcpSocket io" where
  "TcpSocket_connect api resolved =
     (case resolved of
        Inl e \<Rightarrow> Inl e
      | Inr [] \<Rightarrow> Inl InvalidInput
      | Inr (addr # _) \<Rightarrow>
          map_sum id TcpSocket_from_socket
            (with_new (sk_new api (socket_domain addr))
              (sbind (sk_set_nodelay api True) (\<lambda>_. sk_connect api addr))))"

definition TcpSocket_set_nonblocking :: "'s socket_api \<Rightarrow> bool \<Rightarrow> 's TcpSocket \<Rightarrow> unit io \<times> 's TcpSocket" where
  "TcpSocket_set_nonblocking api b t =
     (case sk_set_nonblocking api b (tcp_socket t) of (r, s) \<Rightarrow> (r, t\<lparr>tcp_socket := s\<rparr>))"

definition TcpSocket_set_nodelay :: "'s socket_api \<Rightarrow> bool \<Rightarrow> 's TcpSocket \<Rightarrow> unit io \<times> 's TcpSocket" where
  "TcpSocket_set_nodelay api b t =
     (case sk_set_nodelay api b (tcp_socket t) of (r, s) \<Rightarrow> (r, t\<lparr>tcp_socket := s\<rparr>))"

definition TcpSocket_send :: "'s socket_api \<Rightarrow> u8 list \<Rightarrow> 's TcpSocket \<Rightarrow> nat io \<times> 's TcpSocket" where
  "TcpSocket_send api data t =
     (if length data \<le> BUFFER_SIZE
      then let t = t\<lparr>tcp_send_buffer := data @ drop (length data) (tcp_send_buffer t)\<rparr>
           in case sk_send api (take (length data) (tcp_send_buffer t)) (tcp_socket t) of
                (r, s) \<Rightarrow> (r, t\<lparr>tcp_socket := s\<rparr>)
      else case sk_send api data (tcp_socket t) of (r, s) \<Rightarrow> (r, t\<lparr>tcp_socket := s\<rparr>))"

definition TcpSocket_recv :: "'s socket_api \<Rightarrow> 's TcpSocket \<Rightarrow> u8 list io \<times> 's TcpSocket" where
  "TcpSocket_recv api t =
     (case sk_recv api BUFFER_SIZE (tcp_socket t) of (r, s) \<Rightarrow> (r, t\<lparr>tcp_socket := s\<rparr>))"

text \<open>\<open>try_recv\<close> is the same code for both kinds of sockets.\<close>

definition try_recv_result :: "u8 list io \<Rightarrow> u8 list option io" where
  "try_recv_result r =
     (case r of Inr data \<Rightarrow> Inr (Some data) | Inl WouldBlock \<Rightarrow> Inr None | Inl e \<Rightarrow> Inl e)"

definition socket_try_recv :: "'s socket_api \<Rightarrow> 's \<Rightarrow> u8 list option io \<times> 's" where
  "socket_try_recv api =
     sbind (sk_nonblocking api) (\<lambda>was_nonblocking.
     sbind (if was_nonblocking then sret (Inr ()) else sk_set_nonblocking api True) (\<lambda>_ s.
       case sk_recv api BUFFER_SIZE s of (result, s) \<Rightarrow>
         sbind (if was_nonblocking then sret (Inr ()) else sk_set_nonblocking api False)
           (\<lambda>_. sret (try_recv_result result)) s))"

definition TcpSocket_try_recv :: "'s socket_api \<Rightarrow> 's TcpSocket \<Rightarrow> u8 list option io \<times> 's TcpSocket" where
  "TcpSocket_try_recv api t =
     (case socket_try_recv api (tcp_socket t) of (r, s) \<Rightarrow> (r, t\<lparr>tcp_socket := s\<rparr>))"

definition TcpListener_bind :: "'s socket_api \<Rightarrow> socket_addr list io \<Rightarrow> 's io" where
  "TcpListener_bind api resolved =
     (case resolved of
        Inl e \<Rightarrow> Inl e
      | Inr [] \<Rightarrow> Inl InvalidInput
      | Inr (addr # _) \<Rightarrow>
          with_new (sk_new api (socket_domain addr))
            (sbind (sk_set_reuse_address api True) (\<lambda>_.
             sbind (sk_bind api addr) (\<lambda>_. sk_listen api 128))))"

definition TcpSocket_listen :: "'s socket_api \<Rightarrow> socket_addr list io \<Rightarrow> 's io" where
  "TcpSocket_listen api resolved = TcpListener_bind api resolved"

definition TcpListener_accept :: "'s socket_api \<Rightarrow> 's \<Rightarrow> 's TcpSocket io \<times> 's" where
  "TcpListener_accept api =
     sbind (sk_accept api) (\<lambda>socket listener.
       ((case sk_set_nodelay api True socket of
           (Inl e, _) \<Rightarrow> Inl e
         | (Inr _, socket) \<Rightarrow> Inr (TcpSocket_from_socket socket)), listener))"

definition TcpListener_set_nonblocking :: "'s socket_api \<Rightarrow> bool \<Rightarrow> 's \<Rightarrow> unit io \<times> 's" where
  "TcpListener_set_nonblocking api b = sk_set_nonblocking api b"

section \<open>Multicast\<close>

definition MulticastSocket_new :: "'s socket_api \<Rightarrow> 's io" where
  "MulticastSocket_new api = with_new (sk_new api Datagram4) (sk_set_multicast_loop api False)"

definition MulticastSocket_join_group :: "'s socket_api \<Rightarrow> string \<Rightarrow> u16 \<Rightarrow> string \<Rightarrow> 's io" where
  "MulticastSocket_join_group api addr port interface =
     with_new (sk_new api Datagram4)
       (sbind (sret (addr_or_err addr)) (\<lambda>multicast_addr.
        sbind (sret (addr_or_err interface)) (\<lambda>interface_addr.
        if \<not> is_multicast multicast_addr then sret (Inl InvalidInput)
        else sbind (sk_set_reuse_address api True) (\<lambda>_.
          sbind (sk_set_reuse_port api True) (\<lambda>_.
          sbind (sk_set_multicast_loop api False) (\<lambda>_.
          sbind (sk_bind api (SockV4 (0, 0, 0, 0) port)) (\<lambda>_.
            sk_join_multicast api multicast_addr interface_addr)))))))"

definition MulticastSocket_send_to ::
  "'s socket_api \<Rightarrow> u8 list \<Rightarrow> string \<Rightarrow> u16 \<Rightarrow> 's \<Rightarrow> nat io \<times> 's" where
  "MulticastSocket_send_to api data addr port =
     sbind (sret (addr_or_err addr)) (\<lambda>dest_addr. sk_send_to api data (SockV4 dest_addr port))"

definition MulticastSocket_recv :: "'s socket_api \<Rightarrow> 's \<Rightarrow> u8 list io \<times> 's" where
  "MulticastSocket_recv api = sk_recv api BUFFER_SIZE"

definition MulticastSocket_try_recv :: "'s socket_api \<Rightarrow> 's \<Rightarrow> u8 list option io \<times> 's" where
  "MulticastSocket_try_recv api = socket_try_recv api"

definition MulticastSocket_set_nonblocking :: "'s socket_api \<Rightarrow> bool \<Rightarrow> 's \<Rightarrow> unit io \<times> 's" where
  "MulticastSocket_set_nonblocking api b = sk_set_nonblocking api b"

definition MulticastSocket_set_multicast_ttl :: "'s socket_api \<Rightarrow> u32 \<Rightarrow> 's \<Rightarrow> unit io \<times> 's" where
  "MulticastSocket_set_multicast_ttl api ttl = sk_set_multicast_ttl api ttl"

definition MulticastSocket_set_multicast_interface :: "'s socket_api \<Rightarrow> string \<Rightarrow> 's \<Rightarrow> unit io \<times> 's" where
  "MulticastSocket_set_multicast_interface api interface =
     sbind (sret (addr_or_err interface)) (\<lambda>a. sk_set_multicast_if api a)"

definition MulticastSocket_leave_group :: "'s socket_api \<Rightarrow> string \<Rightarrow> string \<Rightarrow> 's \<Rightarrow> unit io \<times> 's" where
  "MulticastSocket_leave_group api addr interface =
     sbind (sret (addr_or_err addr)) (\<lambda>a.
     sbind (sret (addr_or_err interface)) (\<lambda>i. sk_leave_multicast api a i))"

section \<open>What the wrappers rely on\<close>

text \<open>
  The documented behaviour of the mode flag: \<open>nonblocking\<close> reads it, \<open>set_nonblocking\<close> sets it
  when it succeeds, and \<open>recv\<close> leaves it alone.
\<close>

definition mode_laws :: "'s socket_api \<Rightarrow> ('s \<Rightarrow> bool) \<Rightarrow> bool" where
  "mode_laws api mode \<longleftrightarrow>
     (\<forall>s r s'. sk_nonblocking api s = (r, s') \<longrightarrow> mode s' = mode s \<and> (\<forall>b. r = Inr b \<longrightarrow> b = mode s)) \<and>
     (\<forall>b s s'. sk_set_nonblocking api b s = (Inr (), s') \<longrightarrow> mode s' = b) \<and>
     (\<forall>n s r s'. sk_recv api n s = (r, s') \<longrightarrow> mode s' = mode s)"

lemma sbind_Inr_iff:
  "sbind m f s = (Inr b, s'') \<longleftrightarrow> (\<exists>a s'. m s = (Inr a, s') \<and> f a s' = (Inr b, s''))"
  by (auto simp: sbind_def split: prod.splits sum.splits)

lemma sret_Inr_iff: "sret r s = (Inr b, s') \<longleftrightarrow> r = Inr b \<and> s' = s"
  by (auto simp: sret_def)

lemma with_new_Inr_iff:
  "with_new new setup = Inr s' \<longleftrightarrow> (\<exists>s u. new = Inr s \<and> setup s = (Inr u, s'))"
  by (auto simp: with_new_def split: sum.splits prod.splits)

lemma addr_or_err_Inr_iff: "addr_or_err s = Inr a \<longleftrightarrow> parse_ipv4 s = Some a"
  by (simp add: addr_or_err_def split: option.splits)

text \<open>A socket that replays a script: its mode, the results of the coming receives, the data
  sent so far and, for a listener, the scripts of the connections that wait. It satisfies the
  laws.\<close>

record script =
  sc_mode :: bool
  sc_incoming :: "u8 list io list"
  sc_sent :: "u8 list list"
  sc_pending :: "u8 list io list list"

definition script_api :: "script socket_api" where
  "script_api =
     \<lparr>sk_new = (\<lambda>_. Inr \<lparr>sc_mode = False, sc_incoming = [], sc_sent = [], sc_pending = []\<rparr>),
      sk_set_nodelay = (\<lambda>_ s. (Inr (), s)), sk_set_reuse_address = (\<lambda>_ s. (Inr (), s)),
      sk_set_reuse_port = (\<lambda>_ s. (Inr (), s)), sk_set_multicast_loop = (\<lambda>_ s. (Inr (), s)),
      sk_set_multicast_ttl = (\<lambda>_ s. (Inr (), s)), sk_set_multicast_if = (\<lambda>_ s. (Inr (), s)),
      sk_join_multicast = (\<lambda>_ _ s. (Inr (), s)), sk_leave_multicast = (\<lambda>_ _ s. (Inr (), s)),
      sk_connect = (\<lambda>_ s. (Inr (), s)), sk_bind = (\<lambda>_ s. (Inr (), s)), sk_listen = (\<lambda>_ s. (Inr (), s)),
      sk_accept = (\<lambda>s. case sc_pending s of
          [] \<Rightarrow> (Inl WouldBlock, s)
        | c # cs \<Rightarrow> (Inr \<lparr>sc_mode = False, sc_incoming = c, sc_sent = [], sc_pending = []\<rparr>,
                     s\<lparr>sc_pending := cs\<rparr>)),
      sk_nonblocking = (\<lambda>s. (Inr (sc_mode s), s)),
      sk_set_nonblocking = (\<lambda>b s. (Inr (), s\<lparr>sc_mode := b\<rparr>)),
      sk_recv = (\<lambda>_ s. case sc_incoming s of [] \<Rightarrow> (Inl WouldBlock, s) | r # rs \<Rightarrow> (r, s\<lparr>sc_incoming := rs\<rparr>)),
      sk_send = (\<lambda>d s. (Inr (length d), s\<lparr>sc_sent := sc_sent s @ [d]\<rparr>)),
      sk_send_to = (\<lambda>d _ s. (Inr (length d), s\<lparr>sc_sent := sc_sent s @ [d]\<rparr>))\<rparr>"

declare script_api_def [script_defs] sbind_def [script_defs] sret_def [script_defs] with_new_def [script_defs]
  try_recv_result_def [script_defs] socket_try_recv_def [script_defs] TcpSocket_try_recv_def [script_defs]
  TcpListener_bind_def [script_defs] TcpListener_accept_def [script_defs]
  TcpListener_set_nonblocking_def [script_defs] MulticastSocket_new_def [script_defs]
  MulticastSocket_try_recv_def [script_defs] MulticastSocket_send_to_def [script_defs]
  MulticastSocket_set_multicast_ttl_def [script_defs] MulticastSocket_set_multicast_interface_def [script_defs]
  addr_or_err_def [script_defs]

lemma script_mode_laws: "mode_laws script_api sc_mode"
  by (auto simp: mode_laws_def script_api_def split: list.splits)

text \<open>A ghost log of the data handed to \<open>send\<close> on a socket, which receiving does not change.\<close>

definition send_logs :: "'s socket_api \<Rightarrow> ('s \<Rightarrow> u8 list list) \<Rightarrow> bool" where
  "send_logs api log \<longleftrightarrow> (\<forall>d s. log (snd (sk_send api d s)) = log s @ [d])"

definition recv_keeps :: "'s socket_api \<Rightarrow> ('s \<Rightarrow> 'b) \<Rightarrow> bool" where
  "recv_keeps api f \<longleftrightarrow>
     (\<forall>s. f (snd (sk_nonblocking api s)) = f s) \<and> (\<forall>b s. f (snd (sk_set_nonblocking api b s)) = f s) \<and>
     (\<forall>n s. f (snd (sk_recv api n s)) = f s)"

lemma script_send_logs: "send_logs script_api sc_sent"
  and script_recv_keeps: "recv_keeps script_api sc_sent"
  by (auto simp: send_logs_def recv_keeps_def script_api_def split: list.splits)

lemma TcpSocket_send_log:
  "send_logs api log \<Longrightarrow> log (tcp_socket (snd (TcpSocket_send api d t))) = log (tcp_socket t) @ [d]"
  by (simp add: TcpSocket_send_def send_logs_def Let_def split_beta)

lemma socket_try_recv_keeps: "recv_keeps api f \<Longrightarrow> f (snd (socket_try_recv api s)) = f s"
  by (simp add: socket_try_recv_def sbind_def sret_def recv_keeps_def split_beta split: sum.splits)

lemma TcpSocket_try_recv_keeps:
  "recv_keeps api f \<Longrightarrow> f (tcp_socket (snd (TcpSocket_try_recv api t))) = f (tcp_socket t)"
  by (simp add: TcpSocket_try_recv_def split_beta socket_try_recv_keeps)

section \<open>Properties\<close>



text \<open>A socket is only ever joined to a multicast group with valid addresses: when
  \<open>join_group\<close> succeeds, the group parses as an IPv4 address in \<open>224.0.0.0/4\<close>, the interface
  parses as an IPv4 address, and the last call made on the socket was the join of exactly these.\<close>

lemma join_group_validates:
  assumes "MulticastSocket_join_group api addr port interface = Inr s"
  shows "\<exists>a b c d i s0. parse_ipv4 addr = Some (a, b, c, d) \<and> a \<in> {224..239} \<and>
    parse_ipv4 interface = Some i \<and> sk_join_multicast api (a, b, c, d) i s0 = (Inr (), s)"
  using assms unfolding MulticastSocket_join_group_def with_new_Inr_iff sbind_Inr_iff
  by (auto simp: sret_Inr_iff addr_or_err_Inr_iff is_multicast_def sbind_Inr_iff split: if_splits)

lemma join_group_validates_witness:
  "\<exists>a b c d i s0. parse_ipv4 ''239.255.0.1'' = Some (a, b, c, d) \<and> a \<in> {224..239} \<and>
    parse_ipv4 ''0.0.0.0'' = Some i \<and>
    sk_join_multicast script_api (a, b, c, d) i s0 = (Inr (), \<lparr>sc_mode = False, sc_incoming = [], sc_sent = [], sc_pending = []\<rparr>)"
proof -
  have "MulticastSocket_join_group script_api ''239.255.0.1'' 5000 ''0.0.0.0'' =
      Inr \<lparr>sc_mode = False, sc_incoming = [], sc_sent = [], sc_pending = []\<rparr>"
    by code_simp
  from join_group_validates [OF this] show ?thesis .
qed

end
