(* ===== verification/OrderServer.thy ===== *)
theory OrderServer
  imports Protocol Net
begin

text \<open>
  The TCP gateway of \<open>exchange/src/order_server.rs\<close>: the sequencer, the connections with
  their receive buffers, and the polling of all clients. Sockets are those of the theory
  \<open>Net\<close>, over an arbitrary \<open>socket_api\<close>. The iteration over the client map visits the clients
  in an unspecified order, so \<open>poll\<close> takes that order as an argument. The accept loop runs
  until the listener reports an error and is a partial function: \<open>None\<close> stands for a loop
  that never ends.
\<close>

section \<open>The model\<close>

definition DEFAULT_ORDER_SERVER_PORT :: u16 where
  "DEFAULT_ORDER_SERVER_PORT = 12345"

record FifoSequencer =
  next_seq :: u64

definition FifoSequencer_new :: FifoSequencer where
  "FifoSequencer_new = \<lparr>next_seq = 1\<rparr>"

definition FifoSequencer_default :: FifoSequencer where
  "FifoSequencer_default = FifoSequencer_new"

definition FifoSequencer_next :: "FifoSequencer \<Rightarrow> u64 \<times> FifoSequencer" where
  "FifoSequencer_next q = (next_seq q, q\<lparr>next_seq := next_seq q + 1\<rparr>)"

definition FifoSequencer_current :: "FifoSequencer \<Rightarrow> u64" where
  "FifoSequencer_current q = next_seq q"

record 's ClientConnection =
  cc_client_id :: ClientId
  cc_socket :: "'s TcpSocket"
  cc_recv_buffer :: "u8 list"

definition ClientConnection_new :: "ClientId \<Rightarrow> 's TcpSocket \<Rightarrow> 's ClientConnection" where
  "ClientConnection_new client_id socket =
     \<lparr>cc_client_id = client_id, cc_socket = socket, cc_recv_buffer = []\<rparr>"

text \<open>The second half of \<open>receive\<close>: cut the buffer into requests.\<close>

definition parse_requests :: "'s ClientConnection \<Rightarrow> ClientRequest list io \<times> 's ClientConnection" where
  "parse_requests c =
     (case parse_frames ClientRequest_from_bytes CLIENT_REQUEST_SIZE (cc_recv_buffer c) of
        (requests, rest) \<Rightarrow> (Inr requests, c\<lparr>cc_recv_buffer := rest\<rparr>))"

definition ClientConnection_receive ::
  "'s socket_api \<Rightarrow> 's ClientConnection \<Rightarrow> ClientRequest list io \<times> 's ClientConnection" where
  "ClientConnection_receive api c =
     (case TcpSocket_try_recv api (cc_socket c) of (r, socket) \<Rightarrow>
        let c = c\<lparr>cc_socket := socket\<rparr> in
        (case r of
           Inr (Some data) \<Rightarrow>
             if data = [] then (Inl ConnectionReset, c)
             else parse_requests (c\<lparr>cc_recv_buffer := cc_recv_buffer c @ data\<rparr>)
         | Inr None \<Rightarrow> parse_requests c
         | Inl WouldBlock \<Rightarrow> parse_requests c
         | Inl e \<Rightarrow> (Inl e, c)))"

definition ClientConnection_send ::
  "'s socket_api \<Rightarrow> ClientResponse \<Rightarrow> 's ClientConnection \<Rightarrow> nat io \<times> 's ClientConnection" where
  "ClientConnection_send api response c =
     (case TcpSocket_send api (ClientResponse_as_bytes response) (cc_socket c) of
        (r, socket) \<Rightarrow> (r, c\<lparr>cc_socket := socket\<rparr>))"

definition ClientConnection_set_nonblocking ::
  "'s socket_api \<Rightarrow> bool \<Rightarrow> 's ClientConnection \<Rightarrow> unit io \<times> 's ClientConnection" where
  "ClientConnection_set_nonblocking api b c =
     (case TcpSocket_set_nonblocking api b (cc_socket c) of (r, socket) \<Rightarrow> (r, c\<lparr>cc_socket := socket\<rparr>))"

record SequencedRequest =
  sequence_number :: u64
  sr_client_id :: ClientId
  sr_request :: ClientRequest

record OrderServerConfig =
  listen_addr :: string
  osc_port :: u16

definition OrderServerConfig_default :: OrderServerConfig where
  "OrderServerConfig_default = \<lparr>listen_addr = ''0.0.0.0'', osc_port = DEFAULT_ORDER_SERVER_PORT\<rparr>"

definition OrderServerConfig_new :: "string \<Rightarrow> u16 \<Rightarrow> OrderServerConfig" where
  "OrderServerConfig_new addr port = \<lparr>listen_addr = addr, osc_port = port\<rparr>"

record 's OrderServer =
  os_listener :: 's
  os_clients :: "(ClientId, 's ClientConnection) fmap"
  os_sequencer :: FifoSequencer
  os_next_client_id :: ClientId
  os_config :: OrderServerConfig

text \<open>\<open>resolve\<close> is the system's name resolution of the configured address.\<close>

definition OrderServer_new ::
  "'s socket_api \<Rightarrow> (string \<Rightarrow> u16 \<Rightarrow> socket_addr list io) \<Rightarrow> OrderServerConfig \<Rightarrow> 's OrderServer io" where
  "OrderServer_new api resolve config =
     (case TcpListener_bind api (resolve (listen_addr config) (osc_port config)) of
        Inl e \<Rightarrow> Inl e
      | Inr listener \<Rightarrow>
          (case TcpListener_set_nonblocking api True listener of
             (Inl e, _) \<Rightarrow> Inl e
           | (Inr _, listener) \<Rightarrow>
               Inr \<lparr>os_listener = listener, os_clients = fmempty, os_sequencer = FifoSequencer_new,
                    os_next_client_id = 1, os_config = config\<rparr>))"

definition OrderServer_with_defaults ::
  "'s socket_api \<Rightarrow> (string \<Rightarrow> u16 \<Rightarrow> socket_addr list io) \<Rightarrow> 's OrderServer io" where
  "OrderServer_with_defaults api resolve = OrderServer_new api resolve OrderServerConfig_default"

definition OrderServer_on_port ::
  "'s socket_api \<Rightarrow> (string \<Rightarrow> u16 \<Rightarrow> socket_addr list io) \<Rightarrow> u16 \<Rightarrow> 's OrderServer io" where
  "OrderServer_on_port api resolve port =
     OrderServer_new api resolve (OrderServerConfig_new ''0.0.0.0'' port)"

partial_function (option) accept_connections :: "'s socket_api \<Rightarrow> 's OrderServer \<Rightarrow> 's OrderServer option" where
  "accept_connections api sv =
     (case TcpListener_accept api (os_listener sv) of
        (Inr socket, listener) \<Rightarrow>
          (let client_id = os_next_client_id sv;
               sv = sv\<lparr>os_listener := listener, os_next_client_id := os_next_client_id sv + 1\<rparr>
           in case TcpSocket_set_nonblocking api True socket of
                (Inl e, _) \<Rightarrow> accept_connections api sv
              | (Inr _, socket) \<Rightarrow>
                  accept_connections api
                    (sv\<lparr>os_clients := fmupd client_id (ClientConnection_new client_id socket) (os_clients sv)\<rparr>))
      | (Inl e, listener) \<Rightarrow> Some (sv\<lparr>os_listener := listener\<rparr>))"

text \<open>The loop over the requests of one client, and the loop over the clients.\<close>

primrec sequence_requests ::
  "ClientId \<Rightarrow> ClientRequest list \<Rightarrow> FifoSequencer \<Rightarrow> SequencedRequest list \<times> FifoSequencer" where
  "sequence_requests client_id [] q = ([], q)"
| "sequence_requests client_id (request # rs) q =
     (case FifoSequencer_next q of (seq_num, q) \<Rightarrow>
        (case sequence_requests client_id rs q of (out, q) \<Rightarrow>
           (\<lparr>sequence_number = seq_num, sr_client_id = client_id, sr_request = request\<rparr> # out, q)))"

text \<open>State of the loop: the server, the collected requests and the disconnected clients. An
  identifier that is not a key is not visited.\<close>

primrec poll_clients ::
  "'s socket_api \<Rightarrow> ClientId list \<Rightarrow> 's OrderServer \<Rightarrow> SequencedRequest list \<Rightarrow> ClientId list \<Rightarrow>
    SequencedRequest list \<times> ClientId list \<times> 's OrderServer" where
  "poll_clients api [] sv requests gone = (requests, gone, sv)"
| "poll_clients api (client_id # ks) sv requests gone =
     (case fmlookup (os_clients sv) client_id of
        None \<Rightarrow> poll_clients api ks sv requests gone
      | Some connection \<Rightarrow>
          (case ClientConnection_receive api connection of (r, connection) \<Rightarrow>
             let sv = sv\<lparr>os_clients := fmupd client_id connection (os_clients sv)\<rparr> in
             (case r of
                Inr client_requests \<Rightarrow>
                  (case sequence_requests client_id client_requests (os_sequencer sv) of (out, q) \<Rightarrow>
                     poll_clients api ks (sv\<lparr>os_sequencer := q\<rparr>) (requests @ out) gone)
              | Inl e \<Rightarrow> poll_clients api ks sv requests (gone @ [client_id]))))"

definition poll :: "'s socket_api \<Rightarrow> ClientId list \<Rightarrow> 's OrderServer \<Rightarrow>
    (SequencedRequest list \<times> 's OrderServer) option" where
  "poll api ks sv =
     (case accept_connections api sv of
        None \<Rightarrow> None
      | Some sv \<Rightarrow>
          (case poll_clients api ks sv [] [] of (requests, gone, sv) \<Rightarrow>
             Some (sort_key sequence_number requests,
                   sv\<lparr>os_clients := fold fmdrop gone (os_clients sv)\<rparr>)))"

definition send_response ::
  "'s socket_api \<Rightarrow> ClientId \<Rightarrow> ClientResponse \<Rightarrow> 's OrderServer \<Rightarrow> nat io \<times> 's OrderServer" where
  "send_response api client_id response sv =
     (case fmlookup (os_clients sv) client_id of
        Some connection \<Rightarrow>
          (case ClientConnection_send api response connection of (r, connection) \<Rightarrow>
             (r, sv\<lparr>os_clients := fmupd client_id connection (os_clients sv)\<rparr>))
      | None \<Rightarrow> (Inl NotConnected, sv))"

text \<open>\<open>broadcast\<close> visits all connections; the count does not depend on the order.\<close>

primrec broadcast :: "'s socket_api \<Rightarrow> ClientResponse \<Rightarrow> ClientId list \<Rightarrow> 's OrderServer \<Rightarrow> nat \<times> 's OrderServer" where
  "broadcast api response [] sv = (0, sv)"
| "broadcast api response (client_id # ks) sv =
     (case send_response api client_id response sv of (r, sv) \<Rightarrow>
        (case broadcast api response ks sv of (sent_count, sv) \<Rightarrow>
           (case r of Inr _ \<Rightarrow> sent_count + 1 | Inl _ \<Rightarrow> sent_count, sv)))"

definition client_count :: "'s OrderServer \<Rightarrow> nat" where
  "client_count sv = hm_len (os_clients sv)"

definition OrderServer_is_empty :: "'s OrderServer \<Rightarrow> bool" where
  "OrderServer_is_empty sv \<longleftrightarrow> hm_len (os_clients sv) = 0"

definition current_sequence :: "'s OrderServer \<Rightarrow> u64" where
  "current_sequence sv = FifoSequencer_current (os_sequencer sv)"

definition get_client :: "'s OrderServer \<Rightarrow> ClientId \<Rightarrow> 's ClientConnection option" where
  "get_client sv client_id = fmlookup (os_clients sv) client_id"

definition disconnect_client :: "'s OrderServer \<Rightarrow> ClientId \<Rightarrow> bool \<times> 's OrderServer" where
  "disconnect_client sv client_id =
     (contains_key (os_clients sv) client_id, sv\<lparr>os_clients := fmdrop client_id (os_clients sv)\<rparr>)"

definition disconnect_all :: "'s OrderServer \<Rightarrow> 's OrderServer" where
  "disconnect_all sv = sv\<lparr>os_clients := fmempty\<rparr>"

definition client_ids :: "'s OrderServer \<Rightarrow> ClientId fset" where
  "client_ids sv = fmdom (os_clients sv)"

section \<open>Receiving\<close>

text \<open>The bytes one \<open>receive\<close> takes from the socket.\<close>

definition recv_chunk :: "'s socket_api \<Rightarrow> 's ClientConnection \<Rightarrow> u8 list" where
  "recv_chunk api c =
     (case fst (TcpSocket_try_recv api (cc_socket c)) of Inr (Some data) \<Rightarrow> data | _ \<Rightarrow> [])"

lemma receive_Inr:
  assumes "ClientConnection_receive api c = (Inr rqs, c')"
  shows "parse_frames ClientRequest_from_bytes CLIENT_REQUEST_SIZE (cc_recv_buffer c @ recv_chunk api c) =
      (rqs, cc_recv_buffer c')"
    and "cc_client_id c' = cc_client_id c"
  using assms
  by (auto simp: ClientConnection_receive_def parse_requests_def recv_chunk_def Let_def
      split: prod.splits sum.splits option.splits io_error.splits if_splits)

text \<open>A session of \<open>n\<close> receives: the requests it returns and the bytes that arrived; \<open>None\<close> once
  a receive fails.\<close>

primrec session :: "'s socket_api \<Rightarrow> nat \<Rightarrow> 's ClientConnection \<Rightarrow>
    (ClientRequest list \<times> u8 list \<times> 's ClientConnection) option" where
  "session api 0 c = Some ([], [], c)"
| "session api (Suc n) c =
     (case ClientConnection_receive api c of
        (Inl e, _) \<Rightarrow> None
      | (Inr rqs, c') \<Rightarrow>
          map_option (\<lambda>(rqs', bytes, c''). (rqs @ rqs', recv_chunk api c @ bytes, c'')) (session api n c'))"

lemma session_parse:
  assumes "session api n c = Some (rqs, bytes, c')" "length (cc_recv_buffer c) < CLIENT_REQUEST_SIZE"
  shows "parse_frames ClientRequest_from_bytes CLIENT_REQUEST_SIZE (cc_recv_buffer c @ bytes) =
    (rqs, cc_recv_buffer c')"
  using assms
proof (induction n arbitrary: c rqs bytes)
  case 0
  then show ?case by (simp add: rq.parse_short)
next
  case (Suc n)
  let ?parse = "parse_frames ClientRequest_from_bytes CLIENT_REQUEST_SIZE"
  obtain rqs1 c1 where 1: "ClientConnection_receive api c = (Inr rqs1, c1)"
    using Suc.prems(1) by (auto split: prod.splits sum.splits)
  obtain rqs2 bs where 2: "session api n c1 = Some (rqs2, bs, c')" "rqs = rqs1 @ rqs2"
      "bytes = recv_chunk api c @ bs"
    using Suc.prems(1) 1 by (auto split: prod.splits)
  note p1 = receive_Inr(1) [OF 1]
  have "length (cc_recv_buffer c1) < CLIENT_REQUEST_SIZE"
    using rq.parse_lossless [of "cc_recv_buffer c @ recv_chunk api c"] p1 by simp
  from Suc.IH [OF 2(1) this] have "?parse (cc_recv_buffer c1 @ bs) = (rqs2, cc_recv_buffer c')" .
  with rq.parse_append [of "cc_recv_buffer c @ recv_chunk api c" bs] p1 2 show ?case by simp
qed

lemma session_of_encoded:
  assumes "session api n (ClientConnection_new k t) = Some (rqs, concat (map ClientRequest_as_bytes rqs'), c)"
  shows "rqs = rqs' \<and> cc_recv_buffer c = []"
  using session_parse [OF assms] rq.parse_concat [of "[]" rqs'] rq.size_pos by (simp add: ClientConnection_new_def)

text \<open>A scripted connection on which everything arrives at once.\<close>

lemma session_one_chunk:
  assumes "bytes \<noteq> []"
  shows "\<exists>rqs c. session script_api 1 (ClientConnection_new k \<lparr>tcp_socket =
    \<lparr>sc_mode = True, sc_incoming = [Inr bytes], sc_sent = [], sc_pending = []\<rparr>, tcp_send_buffer = []\<rparr>) = Some (rqs, bytes, c)"
proof -
  let ?con = "ClientConnection_new k \<lparr>tcp_socket = \<lparr>sc_mode = True, sc_incoming = [Inr bytes], sc_sent = [], sc_pending = []\<rparr>,
    tcp_send_buffer = []\<rparr>"
  have chunk: "recv_chunk script_api ?con = bytes" by (simp add: recv_chunk_def ClientConnection_new_def script_defs Let_def)
  have "\<exists>rqs c. ClientConnection_receive script_api ?con = (Inr rqs, c)"
    using assms by (simp add: ClientConnection_receive_def parse_requests_def ClientConnection_new_def script_defs Let_def split: prod.split)
  then obtain rqs c where "ClientConnection_receive script_api ?con = (Inr rqs, c)" by blast
  with chunk show ?thesis by simp
qed

section \<open>Polling\<close>

lemma sequence_requests_spec:
  "sequence_requests k rqs q = (out, q') \<Longrightarrow>
     map sr_request out = rqs \<and> (\<forall>r \<in> set out. sr_client_id r = k) \<and>
     map sequence_number out = map (\<lambda>i. next_seq q + of_nat i) [0..<length rqs] \<and>
     next_seq q' = next_seq q + of_nat (length rqs)"
proof (induction rqs arbitrary: q out)
  case (Cons r rqs)
  obtain out' where o: "sequence_requests k rqs (q\<lparr>next_seq := next_seq q + 1\<rparr>) = (out', q')"
      "out = \<lparr>sequence_number = next_seq q, sr_client_id = k, sr_request = r\<rparr> # out'"
    using Cons.prems by (auto simp: FifoSequencer_next_def split: prod.splits)
  have upt: "[0..<Suc n] = 0 # map Suc [0..<n]" for n by (simp add: map_Suc_upt upt_conv_Cons)
  from Cons.IH [OF o(1)] o(2) show ?case by (simp add: upt algebra_simps del: upt_Suc)
qed simp

text \<open>The result of polling: each client's requests in the order they were received, numbered
  without gaps; failing clients are reported.\<close>

definition received :: "'s socket_api \<Rightarrow> 's ClientConnection option \<Rightarrow> ClientRequest list" where
  "received api co =
     (case co of None \<Rightarrow> []
      | Some c \<Rightarrow> (case fst (ClientConnection_receive api c) of Inr rqs \<Rightarrow> rqs | Inl _ \<Rightarrow> []))"

definition failed :: "'s socket_api \<Rightarrow> 's ClientConnection option \<Rightarrow> bool" where
  "failed api co =
     (case co of None \<Rightarrow> False | Some c \<Rightarrow> (case fst (ClientConnection_receive api c) of Inr _ \<Rightarrow> False | Inl _ \<Rightarrow> True))"

definition client_requests :: "'s socket_api \<Rightarrow> 's OrderServer \<Rightarrow> ClientId list \<Rightarrow> (ClientId \<times> ClientRequest) list" where
  "client_requests api sv ks = concat (map (\<lambda>k. map (Pair k) (received api (fmlookup (os_clients sv) k))) ks)"

text \<open>Numbers assigned in two batches are those of one.\<close>

lemma seq_numbers_append:
  "map (\<lambda>i. n + of_nat i) [0..<a] @ map (\<lambda>i. (n + of_nat a) + of_nat i) [0..<b] =
     map (\<lambda>i. n + of_nat i :: u64) [0..<a + b]"
  by (rule nth_equalityI) (auto simp: nth_append)

lemma poll_client_step:
  assumes "fmlookup (os_clients sv) k = Some c"
  shows "\<exists>out sv1. poll_clients api (k # ks) sv rs gone =
      poll_clients api ks sv1 (rs @ out) (gone @ filter (\<lambda>k. failed api (fmlookup (os_clients sv) k)) [k]) \<and>
    map (\<lambda>r. (sr_client_id r, sr_request r)) out = map (Pair k) (received api (Some c)) \<and>
    map sequence_number out = map (\<lambda>i. current_sequence sv + of_nat i) [0..<length out] \<and>
    current_sequence sv1 = current_sequence sv + of_nat (length out) \<and>
    os_clients sv1 = fmupd k (snd (ClientConnection_receive api c)) (os_clients sv)"
proof -
  obtain r c' where rc: "ClientConnection_receive api c = (r, c')" by force
  let ?sv = "sv\<lparr>os_clients := fmupd k c' (os_clients sv)\<rparr>"
  show ?thesis
  proof (cases r)
    case (Inl e)
    with assms rc show ?thesis
      by (intro exI [where x = "[]"] exI [where x = ?sv])
        (simp add: Let_def failed_def received_def current_sequence_def)
  next
    case (Inr rqs)
    obtain out q where sq: "sequence_requests k rqs (os_sequencer sv) = (out, q)" by force
    note spec = sequence_requests_spec [OF sq]
    have len: "length out = length rqs" using spec by (metis length_map)
    have "map (\<lambda>r. (sr_client_id r, sr_request r)) out = map (\<lambda>r. (k, sr_request r)) out"
      using spec by auto
    also have "\<dots> = map (Pair k) (map sr_request out)" by (simp add: comp_def)
    finally have m: "map (\<lambda>r. (sr_client_id r, sr_request r)) out = map (Pair k) rqs" using spec by simp
    show ?thesis
      using assms rc Inr sq m len spec
      by (intro exI [where x = out] exI [where x = "?sv\<lparr>os_sequencer := q\<rparr>"])
        (simp add: Let_def failed_def received_def current_sequence_def FifoSequencer_current_def)
  qed
qed

lemma poll_clients_spec:
  assumes "poll_clients api ks sv rs gone = (rs', gone', sv')" "distinct ks"
  shows "\<exists>new. rs' = rs @ new \<and>
    map sequence_number new = map (\<lambda>i. current_sequence sv + of_nat i) [0..<length new] \<and>
    current_sequence sv' = current_sequence sv + of_nat (length new) \<and>
    map (\<lambda>r. (sr_client_id r, sr_request r)) new = client_requests api sv ks \<and>
    gone' = gone @ filter (\<lambda>k. failed api (fmlookup (os_clients sv) k)) ks \<and>
    (\<forall>k. fmlookup (os_clients sv') k =
       (if k \<in> set ks then map_option (\<lambda>c. snd (ClientConnection_receive api c)) (fmlookup (os_clients sv) k)
        else fmlookup (os_clients sv) k))"
  using assms
proof (induction ks arbitrary: sv rs gone)
  case Nil
  then show ?case by (simp add: client_requests_def)
next
  case (Cons k ks)
  show ?case
  proof (cases "fmlookup (os_clients sv) k")
    case None
    then show ?thesis using Cons.IH [of sv rs gone] Cons.prems
      by (fastforce simp: received_def failed_def client_requests_def)
  next
    case (Some c)
    obtain out sv1 where step: "poll_clients api (k # ks) sv rs gone =
        poll_clients api ks sv1 (rs @ out) (gone @ filter (\<lambda>k. failed api (fmlookup (os_clients sv) k)) [k])"
      and out: "map (\<lambda>r. (sr_client_id r, sr_request r)) out = map (Pair k) (received api (Some c))"
        "map sequence_number out = map (\<lambda>i. current_sequence sv + of_nat i) [0..<length out]"
        "current_sequence sv1 = current_sequence sv + of_nat (length out)"
      and cl: "os_clients sv1 = fmupd k (snd (ClientConnection_receive api c)) (os_clients sv)"
      using poll_client_step [OF Some] by blast
    have other: "fmlookup (os_clients sv1) j = fmlookup (os_clients sv) j" if "j \<in> set ks" for j
      using that Cons.prems(2) by (auto simp: cl)
    then have keep: "filter (\<lambda>j. failed api (fmlookup (os_clients sv1) j)) ks =
        filter (\<lambda>j. failed api (fmlookup (os_clients sv) j)) ks"
      "client_requests api sv1 ks = client_requests api sv ks"
      by (auto intro!: filter_cong arg_cong [where f = concat] map_cong simp: client_requests_def)
    obtain new where new: "rs' = (rs @ out) @ new"
      "map sequence_number new = map (\<lambda>i. current_sequence sv1 + of_nat i) [0..<length new]"
      "current_sequence sv' = current_sequence sv1 + of_nat (length new)"
      "map (\<lambda>r. (sr_client_id r, sr_request r)) new = client_requests api sv1 ks"
      "gone' = (gone @ filter (\<lambda>k. failed api (fmlookup (os_clients sv) k)) [k]) @
         filter (\<lambda>k. failed api (fmlookup (os_clients sv1) k)) ks"
      "\<And>j. fmlookup (os_clients sv') j =
        (if j \<in> set ks then map_option (\<lambda>c. snd (ClientConnection_receive api c)) (fmlookup (os_clients sv1) j)
         else fmlookup (os_clients sv1) j)"
      using Cons.IH [OF Cons.prems(1) [unfolded step]] Cons.prems(2) by auto
    have "map sequence_number (out @ new) =
        map (\<lambda>i. current_sequence sv + of_nat i) [0..<length (out @ new)]"
      using seq_numbers_append [of "current_sequence sv" "length out" "length new"] out(2,3) new(2) by simp
    moreover have "map (\<lambda>r. (sr_client_id r, sr_request r)) (out @ new) = client_requests api sv (k # ks)"
      using new(4) out(1) keep(2) Some by (simp add: client_requests_def)
    moreover have "fmlookup (os_clients sv') j =
       (if j \<in> set (k # ks) then map_option (\<lambda>c. snd (ClientConnection_receive api c)) (fmlookup (os_clients sv) j)
        else fmlookup (os_clients sv) j)" for j
      unfolding new(6) using other [of j] Some Cons.prems(2) by (auto simp: cl)
    ultimately show ?thesis
      using new(1,3,5) out(3) keep(1) by (intro exI [where x = "out @ new"]) simp
  qed
qed

lemma consecutive_sorted:
  assumes "unat n + m \<le> 2 ^ 64"
  shows "sorted_wrt (<) (map (\<lambda>i. n + of_nat i :: u64) [0..<m])"
proof -
  have u: "unat (n + of_nat i) = unat n + i" if "i < m" for i
    using assms that by (simp add: unat_word_ariths unat_of_nat)
  show ?thesis
    by (auto simp: sorted_wrt_iff_nth_less word_less_nat_alt u)
qed

section \<open>Accepting\<close>

text \<open>The listener hands out exactly \<open>n\<close> connections before it reports an error.\<close>

primrec accepts :: "'s socket_api \<Rightarrow> nat \<Rightarrow> 's \<Rightarrow> bool" where
  "accepts api 0 l = (\<exists>e l'. TcpListener_accept api l = (Inl e, l'))"
| "accepts api (Suc n) l = (\<exists>socket l'. TcpListener_accept api l = (Inr socket, l') \<and> accepts api n l')"

lemma accept_connections_accepts:
  assumes "accepts api n (os_listener sv)"
  shows "\<exists>sv'. accept_connections api sv = Some sv' \<and> os_sequencer sv' = os_sequencer sv \<and>
    os_config sv' = os_config sv \<and> os_next_client_id sv' = os_next_client_id sv + of_nat n \<and>
    (\<forall>k. k \<notin> (\<lambda>i. os_next_client_id sv + of_nat i) ` {..<n} \<longrightarrow>
       fmlookup (os_clients sv') k = fmlookup (os_clients sv) k)"
  using assms
proof (induction n arbitrary: sv)
  case 0
  then show ?case by (auto simp: accept_connections.simps [of api sv])
next
  case (Suc n)
  then obtain socket l' where a: "TcpListener_accept api (os_listener sv) = (Inr socket, l')"
    and l': "accepts api n l'" by auto
  let ?id = "os_next_client_id sv"
  define sv0 where "sv0 = sv\<lparr>os_listener := l', os_next_client_id := ?id + 1\<rparr>"
  define sv1 where "sv1 = (case TcpSocket_set_nonblocking api True socket of
      (Inl e, _) \<Rightarrow> sv0
    | (Inr _, socket) \<Rightarrow> sv0\<lparr>os_clients := fmupd ?id (ClientConnection_new ?id socket) (os_clients sv0)\<rparr>)"
  have step: "accept_connections api sv = accept_connections api sv1"
    by (simp add: accept_connections.simps [of api sv] a sv1_def sv0_def Let_def
        split: prod.split sum.split)
  have f: "os_listener sv1 = l'" "os_next_client_id sv1 = ?id + 1" "os_sequencer sv1 = os_sequencer sv"
    "os_config sv1 = os_config sv" "k \<noteq> ?id \<Longrightarrow> fmlookup (os_clients sv1) k = fmlookup (os_clients sv) k" for k
    by (simp_all add: sv1_def sv0_def split: prod.split sum.split)
  have "accepts api n (os_listener sv1)" using l' f(1) by simp
  from Suc.IH [OF this] obtain sv' where sv': "accept_connections api sv1 = Some sv'"
      "os_sequencer sv' = os_sequencer sv" "os_config sv' = os_config sv"
      "os_next_client_id sv' = ?id + 1 + of_nat n"
      "\<And>k. k \<notin> (\<lambda>i. ?id + 1 + of_nat i) ` {..<n} \<Longrightarrow> fmlookup (os_clients sv') k = fmlookup (os_clients sv1) k"
    unfolding f by blast
  have "fmlookup (os_clients sv') k = fmlookup (os_clients sv) k"
    if k: "k \<notin> (\<lambda>i. ?id + of_nat i) ` {..<Suc n}" for k
  proof -
    have "(\<lambda>i. ?id + 1 + of_nat i) ` {..<n} \<subseteq> (\<lambda>i. ?id + of_nat i) ` {..<Suc n}"
    proof
      fix x assume "x \<in> (\<lambda>i. ?id + 1 + of_nat i) ` {..<n}"
      then obtain i where "i < n" "x = ?id + 1 + of_nat i" by blast
      then have "Suc i \<in> {..<Suc n}" "x = ?id + of_nat (Suc i)" by simp_all
      then show "x \<in> (\<lambda>i. ?id + of_nat i) ` {..<Suc n}" by blast
    qed
    moreover have "k \<noteq> ?id" using k by (auto simp: image_iff dest: bspec [of _ _ 0])
    moreover from calculation(1) k have "k \<notin> (\<lambda>i. ?id + 1 + of_nat i) ` {..<n}" by (rule contra_subsetD)
    ultimately show ?thesis using sv'(5) [of k] f(5) [of k] by simp
  qed
  with sv' step show ?case by (simp add: algebra_simps)
qed

text \<open>Accepting never touches the sequencer.\<close>

lemma accept_connections_sequencer:
  "accept_connections api sv = Some sv' \<Longrightarrow> os_sequencer sv' = os_sequencer sv"
  by (induction rule: accept_connections.raw_induct [rotated, consumes 1])
    (auto simp: Let_def split: prod.splits sum.splits)

declare ClientConnection_receive_def [script_defs] parse_requests_def [script_defs]

text \<open>A server with one scripted client that has sent one request.\<close>

definition example_script :: script where
  "example_script = \<lparr>sc_mode = True,
     sc_incoming = [Inr (ClientRequest_as_bytes (ClientRequest_new RNew 7 1 42 1 100 10))],
     sc_sent = [], sc_pending = []\<rparr>"

definition example_client :: "script ClientConnection" where
  "example_client = ClientConnection_new 1 \<lparr>tcp_socket = example_script, tcp_send_buffer = []\<rparr>"

definition example_server :: "script OrderServer" where
  "example_server = \<lparr>os_listener = \<lparr>sc_mode = True, sc_incoming = [], sc_sent = [], sc_pending = []\<rparr>,
     os_clients = fmupd 1 example_client fmempty, os_sequencer = \<lparr>next_seq = 5\<rparr>, os_next_client_id = 2,
     os_config = OrderServerConfig_default\<rparr>"

lemma example_receive:
  "ClientConnection_receive script_api example_client =
     (Inr [ClientRequest_new RNew 7 1 42 1 100 10],
      example_client\<lparr>cc_socket := \<lparr>tcp_socket = example_script\<lparr>sc_incoming := []\<rparr>, tcp_send_buffer = []\<rparr>\<rparr>)"
proof -
  let ?rq = "ClientRequest_new RNew 7 1 42 1 100 10"
  have "parse_frames ClientRequest_from_bytes CLIENT_REQUEST_SIZE (ClientRequest_as_bytes ?rq) = ([?rq], [])"
    using rq.parse_concat [of "[]" "[?rq]"] rq.size_pos by simp
  moreover have "ClientRequest_as_bytes ?rq \<noteq> []" using rq.enc_len [of ?rq] rq.size_pos by fastforce
  ultimately show ?thesis
    by (simp add: script_defs Let_def ClientConnection_new_def example_client_def example_script_def)
qed

lemma example_accept: "accept_connections script_api example_server = Some example_server"
  by (subst accept_connections.simps)
    (simp add: script_defs example_server_def)

lemma example_poll:
  "\<exists>sv. poll script_api [1] example_server =
     Some ([\<lparr>sequence_number = 5, sr_client_id = 1, sr_request = ClientRequest_new RNew 7 1 42 1 100 10\<rparr>], sv) \<and>
     (\<exists>c. fmlookup (os_clients sv) 1 = Some c \<and> sc_sent (tcp_socket (cc_socket c)) = [])"
proof -
  have l: "fmlookup (os_clients example_server) 1 = Some example_client"
    "os_sequencer example_server = \<lparr>next_seq = 5\<rparr>" by (simp_all add: example_server_def)
  show ?thesis
    by (simp add: poll_def example_accept l example_receive FifoSequencer_next_def Let_def)
      (simp add: example_script_def)
qed

section \<open>Properties\<close>

text \<open>Framing does not depend on how the network cuts the stream: after any number of
  successful receives on a new connection, the requests returned so far followed by the bytes
  still buffered are exactly the bytes that arrived, and fewer than one request's bytes wait in
  the buffer, so every complete request has been delivered, in order, none twice and none
  skipped.\<close>

lemma receive_stream_exact:
  assumes "session api n (ClientConnection_new k socket) = Some (rqs, bytes, c')"
  shows "concat (map ClientRequest_as_bytes rqs) @ cc_recv_buffer c' = bytes \<and>
    length (cc_recv_buffer c') < CLIENT_REQUEST_SIZE"
proof -
  have "cc_recv_buffer (ClientConnection_new k socket) = []" by (simp add: ClientConnection_new_def)
  with session_parse [OF assms] rq.size_pos
  have "parse_frames ClientRequest_from_bytes CLIENT_REQUEST_SIZE bytes = (rqs, cc_recv_buffer c')" by simp
  with rq.parse_lossless [of bytes] show ?thesis by simp
qed

lemma receive_stream_exact_witness:
  "\<exists>rqs bytes c'. session script_api 2 (ClientConnection_new 1 \<lparr>tcp_socket =
      \<lparr>sc_mode = True, sc_incoming = [Inr [1, 7, 0, 0], Inr (replicate 27 0)], sc_sent = [], sc_pending = []\<rparr>,
      tcp_send_buffer = []\<rparr>) =
      Some (rqs, bytes, c') \<and>
    concat (map ClientRequest_as_bytes rqs) @ cc_recv_buffer c' = bytes \<and> length (cc_recv_buffer c') < CLIENT_REQUEST_SIZE"
proof -
  have "session script_api 2 (ClientConnection_new 1 \<lparr>tcp_socket =
      \<lparr>sc_mode = True, sc_incoming = [Inr [1, 7, 0, 0], Inr (replicate 27 0)], sc_sent = [], sc_pending = []\<rparr>,
      tcp_send_buffer = []\<rparr>) \<noteq> None"
    by (simp add: numeral_2_eq_2 ClientConnection_new_def script_defs Let_def split: prod.split)
  then obtain rqs bytes c' where s: "session script_api 2 (ClientConnection_new 1 \<lparr>tcp_socket =
      \<lparr>sc_mode = True, sc_incoming = [Inr [1, 7, 0, 0], Inr (replicate 27 0)], sc_sent = [], sc_pending = []\<rparr>,
      tcp_send_buffer = []\<rparr>) =
      Some (rqs, bytes, c')" by auto
  from receive_stream_exact [OF s] s show ?thesis by blast
qed

text \<open>C17: polling establishes the total order of requests: the requests are numbered
  consecutively from the sequencer's value, they come back in strictly increasing order of
  these numbers and, client by client in the order of the visit, in the order each client sent
  them; a client whose connection failed is removed and contributes nothing, every other one
  stays with its updated buffer.\<close>

theorem poll_sequences_requests:
  assumes acc: "accept_connections api sv = Some sv1" and ks: "enumerates ks (os_clients sv1)"
    and poll: "poll api ks sv = Some (rs, sv')"
    and bound: "unat (current_sequence sv) + length rs \<le> 2 ^ 64"
  shows "map sequence_number rs = map (\<lambda>i. current_sequence sv + of_nat i) [0..<length rs] \<and>
    sorted_wrt (<) (map sequence_number rs) \<and>
    current_sequence sv' = current_sequence sv + of_nat (length rs) \<and>
    map (\<lambda>r. (sr_client_id r, sr_request r)) rs = client_requests api sv1 ks \<and>
    (\<forall>k. fmlookup (os_clients sv') k =
       (if failed api (fmlookup (os_clients sv1) k) then None
        else map_option (\<lambda>c. snd (ClientConnection_receive api c)) (fmlookup (os_clients sv1) k)))"
proof -
  obtain rs0 gone sv2 where pc: "poll_clients api ks sv1 [] [] = (rs0, gone, sv2)" by (metis prod_cases3)
  have rs: "rs = sort_key sequence_number rs0" "sv' = sv2\<lparr>os_clients := fold fmdrop gone (os_clients sv2)\<rparr>"
    using poll acc pc by (auto simp: poll_def)
  have cur: "current_sequence sv1 = current_sequence sv"
    using accept_connections_sequencer [OF acc] by (simp add: current_sequence_def)
  have d: "distinct ks" "set ks = fmdom' (os_clients sv1)" using ks by (auto simp: enumerates_iff)
  note spec = poll_clients_spec [OF pc d(1), unfolded cur, simplified]
  have "sorted_wrt (<) (map sequence_number rs0)"
    using consecutive_sorted [of "current_sequence sv" "length rs0"] bound spec rs(1) by simp
  moreover from this have "rs = rs0" unfolding rs(1)
    by (intro sort_key_id_if_sorted strict_sorted_imp_sorted)
  moreover have "fmlookup (os_clients sv') k =
       (if failed api (fmlookup (os_clients sv1) k) then None
        else map_option (\<lambda>c. snd (ClientConnection_receive api c)) (fmlookup (os_clients sv1) k))" for k
  proof -
    have "k \<in> set gone \<longleftrightarrow> failed api (fmlookup (os_clients sv1) k)"
      using spec d(2) by (auto simp: failed_def fmlookup_dom'_iff split: option.splits)
    moreover have "fmlookup (os_clients sv2) k =
        map_option (\<lambda>c. snd (ClientConnection_receive api c)) (fmlookup (os_clients sv1) k)"
      using spec d(2) by (cases "fmlookup (os_clients sv1) k") (auto simp: fmlookup_dom'_iff)
    ultimately show ?thesis by (simp add: rs(2) fmlookup_fold_fmdrop)
  qed
  ultimately show ?thesis using spec rs(2) by (simp add: current_sequence_def)
qed

theorem poll_sequences_requests_witness:
  "\<exists>rs sv'. poll script_api [1] example_server = Some (rs, sv') \<and> current_sequence example_server = 5 \<and>
     map sequence_number rs = [5] \<and> sr_client_id (hd rs) = 1 \<and>
     sr_request (hd rs) = ClientRequest_new RNew 7 1 42 1 100 10 \<and> current_sequence sv' = 6"
proof -
  let ?rq = "ClientRequest_new RNew 7 1 42 1 100 10"
  obtain rs sv' where p: "poll script_api [1] example_server = Some (rs, sv')" "length rs = 1"
    using example_poll by auto
  have ks: "enumerates [1] (os_clients example_server)" by (simp add: enumerates_def example_server_def)
  have cur: "current_sequence example_server = 5"
    by (simp add: current_sequence_def FifoSequencer_current_def example_server_def)
  have req: "client_requests script_api example_server [1] = [(1, ?rq)]"
    by (simp add: client_requests_def received_def example_receive example_server_def)
  from poll_sequences_requests [OF example_accept ks p(1)] p(2) cur req
  have "map sequence_number rs = [5]" "current_sequence sv' = 6"
    "map (\<lambda>r. (sr_client_id r, sr_request r)) rs = [(1, ?rq)]" by simp_all
  with p(1) cur show ?thesis by auto
qed



end
