(* ===== verification/BestQuote.thy ===== *)
theory BestQuote
  imports Protocol
begin

text \<open>
  The rule by which both the publisher (\<open>exchange/src/market_data.rs\<close>) and the receiver
  (\<open>trading/src/market_data.rs\<close>) track one side of the best bid and offer: a quote replaces the
  tracked one if it is better or if none is tracked, and updates its quantity if it has the same
  price. The contract \<open>quote_tracker\<close> derives what a sequence of quotes leads to; it is
  interpreted for both sides of both components.
\<close>

definition quote_step :: "(Price \<Rightarrow> int) \<Rightarrow> Price \<Rightarrow> Price \<times> Qty \<Rightarrow> Price \<times> Qty \<Rightarrow> Price \<times> Qty" where
  "quote_step rank none pq b =
     (if rank (fst b) < rank (fst pq) \<or> fst b = none then pq
      else if fst pq = fst b then (fst b, snd pq)
      else b)"

text \<open>The best price of a list of quotes and the quantity of the last quote at it.\<close>

definition is_best_quote :: "(Price \<Rightarrow> int) \<Rightarrow> (Price \<times> Qty) list \<Rightarrow> Price \<times> Qty \<Rightarrow> bool" where
  "is_best_quote rank pqs b \<longleftrightarrow>
     fst b \<in> fst ` set pqs \<and> (\<forall>pq \<in> set pqs. rank (fst pq) \<le> rank (fst b)) \<and>
     snd b = snd (last (filter (\<lambda>pq. fst pq = fst b) pqs))"

locale quote_tracker =
  fixes upd :: "Price \<Rightarrow> Qty \<Rightarrow> 'st \<Rightarrow> 'st"
    and best :: "'st \<Rightarrow> Price \<times> Qty"
    and rank :: "Price \<Rightarrow> int"
    and none :: Price
  assumes rank_inj: "rank a = rank b \<Longrightarrow> a = b"
    and best_upd: "best (upd p q st) = quote_step rank none (p, q) (best st)"
begin

lemma step_best:
  assumes "is_best_quote rank pqs b" "\<forall>pq \<in> set pqs. fst pq \<noteq> none"
  shows "is_best_quote rank (pqs @ [pq]) (quote_step rank none pq b)"
proof -
  have nn: "fst b \<noteq> none" using assms by (force simp: is_best_quote_def)
  consider "rank (fst b) < rank (fst pq)" | "fst pq = fst b" | "rank (fst pq) < rank (fst b)"
    using rank_inj by (metis linorder_neqE)
  then show ?thesis
  proof cases
    case 1
    then have "filter (\<lambda>x. fst x = fst pq) pqs = []"
      using assms(1) by (force simp: is_best_quote_def filter_empty_conv)
    with 1 assms(1) show ?thesis by (force simp: quote_step_def is_best_quote_def)
  next
    case 2
    then show ?thesis using nn assms(1) by (auto simp: quote_step_def is_best_quote_def)
  next
    case 3
    then show ?thesis using nn assms(1) by (auto simp: quote_step_def is_best_quote_def)
  qed
qed

lemma fold_best:
  assumes "pqs \<noteq> []" "\<forall>pq \<in> set pqs. fst pq \<noteq> none" "fst b = none"
  shows "is_best_quote rank pqs (fold (quote_step rank none) pqs b)"
  using assms
proof (induction pqs rule: rev_nonempty_induct)
  case (single pq)
  then show ?case by (simp add: quote_step_def is_best_quote_def)
next
  case (snoc pq pqs)
  then show ?case using step_best [of pqs "fold (quote_step rank none) pqs b" pq] by simp
qed

end

text \<open>The quotes of one side among market updates.\<close>

definition side_updates :: "Side \<Rightarrow> MarketUpdate list \<Rightarrow> MarketUpdate list" where
  "side_updates sd us = filter (\<lambda>u. mu_side u = side_i8 sd) us"

definition price_qty :: "MarketUpdate \<Rightarrow> Price \<times> Qty" where
  "price_qty u = (mu_price u, mu_qty u)"

lemma is_best_quote_updates:
  assumes "is_best_quote rank (map price_qty us) b"
  shows "snd b = mu_qty (last (filter (\<lambda>u. mu_price u = fst b) us))"
    and "rank = sint \<Longrightarrow> sint (fst b) = Max ((\<lambda>u. sint (mu_price u)) ` set us)"
    and "rank = (\<lambda>p. - sint p) \<Longrightarrow> sint (fst b) = Min ((\<lambda>u. sint (mu_price u)) ` set us)"
proof -
  have f: "filter (\<lambda>pq. fst pq = fst b) (map price_qty us) =
      map price_qty (filter (\<lambda>u. mu_price u = fst b) us)"
    by (simp add: filter_map price_qty_def comp_def)
  have mem: "\<exists>u \<in> set us. mu_price u = fst b"
    using assms by (auto simp: is_best_quote_def price_qty_def)
  then have "filter (\<lambda>u. mu_price u = fst b) us \<noteq> []" by (auto simp: filter_empty_conv)
  then show "snd b = mu_qty (last (filter (\<lambda>u. mu_price u = fst b) us))"
    using assms unfolding is_best_quote_def f by (simp add: last_map price_qty_def)
  show "rank = sint \<Longrightarrow> sint (fst b) = Max ((\<lambda>u. sint (mu_price u)) ` set us)"
    using assms mem by (intro Max_eqI [symmetric]) (auto simp: is_best_quote_def price_qty_def)
  show "rank = (\<lambda>p. - sint p) \<Longrightarrow> sint (fst b) = Min ((\<lambda>u. sint (mu_price u)) ` set us)"
    using assms mem by (intro Min_eqI [symmetric]) (auto simp: is_best_quote_def price_qty_def)
qed

end
