(* ===== verification/Publisher.thy ===== *)
theory Publisher
  imports Net BestQuote
begin

text \<open>
  The market data publisher of \<open>exchange/src/market_data.rs\<close>: it multicasts every update,
  counts what it sends and keeps a best bid and offer per ticker from which it publishes
  snapshots. A price of 0 stands for an empty side. The multicast socket is that of the theory
  \<open>Net\<close>; the order in which a snapshot visits the tickers is an argument.
\<close>

section \<open>The model\<close>

record MarketDataPublisherConfig =
  mc_multicast_addr :: string
  mc_port :: u16
  mc_interface :: string
  mc_ttl :: u32
  mc_enable_snapshots :: bool
  mc_snapshot_interval :: usize

definition MarketDataPublisherConfig_default :: MarketDataPublisherConfig where
  "MarketDataPublisherConfig_default =
     \<lparr>mc_multicast_addr = ''239.255.0.1'', mc_port = 5000, mc_interface = ''0.0.0.0'', mc_ttl = 1,
      mc_enable_snapshots = True, mc_snapshot_interval = 1000\<rparr>"

record TickerState =
  ts_bid_price :: Price
  ts_bid_qty :: Qty
  ts_ask_price :: Price
  ts_ask_qty :: Qty
  ts_last_seq :: u64

definition TickerState_default :: TickerState where
  "TickerState_default =
     \<lparr>ts_bid_price = 0, ts_bid_qty = 0, ts_ask_price = 0, ts_ask_qty = 0, ts_last_seq = 0\<rparr>"

record 's MarketDataPublisher =
  mp_socket :: 's
  mp_config :: MarketDataPublisherConfig
  mp_ticker_state :: "(TickerId, TickerState) fmap"
  mp_sequence :: u64
  mp_updates_since_snapshot :: usize
  mp_total_updates_sent :: u64
  mp_total_bytes_sent :: u64

definition MarketDataPublisher_new ::
  "'s socket_api \<Rightarrow> MarketDataPublisherConfig \<Rightarrow> 's MarketDataPublisher io" where
  "MarketDataPublisher_new api config =
     (case MulticastSocket_new api of
        Inl e \<Rightarrow> Inl e
      | Inr socket \<Rightarrow>
          (case sbind (MulticastSocket_set_multicast_ttl api (mc_ttl config))
                  (\<lambda>_. MulticastSocket_set_multicast_interface api (mc_interface config)) socket of
             (Inl e, _) \<Rightarrow> Inl e
           | (Inr _, socket) \<Rightarrow>
               Inr \<lparr>mp_socket = socket, mp_config = config, mp_ticker_state = fmempty, mp_sequence = 0,
                    mp_updates_since_snapshot = 0, mp_total_updates_sent = 0, mp_total_bytes_sent = 0\<rparr>))"

definition MarketDataPublisher_with_defaults :: "'s socket_api \<Rightarrow> 's MarketDataPublisher io" where
  "MarketDataPublisher_with_defaults api =
     MarketDataPublisher_new api MarketDataPublisherConfig_default"

text \<open>The effect of an update on the state of its ticker.\<close>

definition add_bid :: "Price \<Rightarrow> Qty \<Rightarrow> TickerState \<Rightarrow> TickerState" where
  "add_bid price qty st =
     (if ts_bid_price st <s price \<or> ts_bid_price st = 0
      then st\<lparr>ts_bid_price := price, ts_bid_qty := qty\<rparr>
      else if price = ts_bid_price st then st\<lparr>ts_bid_qty := qty\<rparr> else st)"

definition add_ask :: "Price \<Rightarrow> Qty \<Rightarrow> TickerState \<Rightarrow> TickerState" where
  "add_ask price qty st =
     (if ts_ask_price st = 0 \<or> price <s ts_ask_price st
      then st\<lparr>ts_ask_price := price, ts_ask_qty := qty\<rparr>
      else if price = ts_ask_price st then st\<lparr>ts_ask_qty := qty\<rparr> else st)"

definition apply_to_state :: "MarketUpdate \<Rightarrow> TickerState \<Rightarrow> TickerState" where
  "apply_to_state update st =
     (let side = mu_side update; price = mu_price update; qty = mu_qty update in
      case update_type update of
        Some UCancel \<Rightarrow>
          if side = side_i8 Buy \<and> price = ts_bid_price st
          then let st = st\<lparr>ts_bid_qty := saturating_sub (ts_bid_qty st) qty\<rparr>
               in if ts_bid_qty st = 0 then st\<lparr>ts_bid_price := 0\<rparr> else st
          else if side = side_i8 Sell \<and> price = ts_ask_price st
          then let st = st\<lparr>ts_ask_qty := saturating_sub (ts_ask_qty st) qty\<rparr>
               in if ts_ask_qty st = 0 then st\<lparr>ts_ask_price := 0\<rparr> else st
          else st
      | Some UTrade \<Rightarrow>
          if side = side_i8 Buy \<and> price = ts_ask_price st
          then st\<lparr>ts_ask_qty := saturating_sub (ts_ask_qty st) qty\<rparr>
          else if side = side_i8 Sell \<and> price = ts_bid_price st
          then st\<lparr>ts_bid_qty := saturating_sub (ts_bid_qty st) qty\<rparr>
          else st
      | Some UClear \<Rightarrow> TickerState_default
      | None \<Rightarrow> st
      | Some _ \<Rightarrow>
          if side = side_i8 Buy then add_bid price qty st
          else if side = side_i8 Sell then add_ask price qty st
          else st)"

definition update_ticker_state :: "TickerId \<Rightarrow> MarketUpdate \<Rightarrow> 's MarketDataPublisher \<Rightarrow> 's MarketDataPublisher" where
  "update_ticker_state ticker_id update p =
     (let st = get_or (mp_ticker_state p) ticker_id TickerState_default;
          st = (apply_to_state update st)\<lparr>ts_last_seq := mp_sequence p\<rparr>
      in p\<lparr>mp_ticker_state := fmupd ticker_id st (mp_ticker_state p)\<rparr>)"

text \<open>\<open>self.socket.send_to(update.as_bytes(), multicast_addr, port)\<close>; byte counts are \<open>usize\<close>.\<close>

definition send_update ::
  "'s socket_api \<Rightarrow> MarketUpdate \<Rightarrow> 's MarketDataPublisher \<Rightarrow> usize io \<times> 's MarketDataPublisher" where
  "send_update api update p =
     (case MulticastSocket_send_to api (MarketUpdate_as_bytes update) (mc_multicast_addr (mp_config p))
             (mc_port (mp_config p)) (mp_socket p) of
        (r, socket) \<Rightarrow> (map_sum id of_nat r, p\<lparr>mp_socket := socket\<rparr>))"

text \<open>The snapshot of one ticker: the messages and their sending with early return.\<close>

definition snapshot_messages :: "TickerId \<Rightarrow> TickerState \<Rightarrow> u64 \<Rightarrow> MarketUpdate list" where
  "snapshot_messages ticker_id st sequence =
     (if 0 <s ts_bid_price st \<and> 0 < ts_bid_qty st
      then [MarketUpdate_new USnapshot ticker_id 0 (side_i8 Buy) (ts_bid_price st) (ts_bid_qty st) sequence]
      else []) @
     (if 0 <s ts_ask_price st \<and> 0 < ts_ask_qty st
      then [MarketUpdate_new USnapshot ticker_id 0 (side_i8 Sell) (ts_ask_price st) (ts_ask_qty st) sequence]
      else [])"

fun send_all :: "'s socket_api \<Rightarrow> MarketUpdate list \<Rightarrow> usize \<Rightarrow> 's MarketDataPublisher \<Rightarrow>
    usize io \<times> 's MarketDataPublisher" where
  "send_all api [] total_sent p = (Inr total_sent, p)"
| "send_all api (u # us) total_sent p =
     (case send_update api u p of
        (Inl e, p) \<Rightarrow> (Inl e, p)
      | (Inr sent, p) \<Rightarrow> send_all api us (total_sent + sent) p)"

fun snapshot_loop :: "'s socket_api \<Rightarrow> TickerId list \<Rightarrow> usize \<Rightarrow> 's MarketDataPublisher \<Rightarrow>
    usize io \<times> 's MarketDataPublisher" where
  "snapshot_loop api [] total_sent p = (Inr total_sent, p)"
| "snapshot_loop api (ticker_id # ks) total_sent p =
     (let st = get_or (mp_ticker_state p) ticker_id TickerState_default in
      case send_all api (snapshot_messages ticker_id st (mp_sequence p)) total_sent p of
        (Inl e, p) \<Rightarrow> (Inl e, p)
      | (Inr total_sent, p) \<Rightarrow> snapshot_loop api ks total_sent p)"

definition publish_snapshot ::
  "'s socket_api \<Rightarrow> TickerId list \<Rightarrow> 's MarketDataPublisher \<Rightarrow> usize io \<times> 's MarketDataPublisher" where
  "publish_snapshot api ks p =
     (case snapshot_loop api ks 0 p of
        (Inl e, p) \<Rightarrow> (Inl e, p)
      | (Inr total_sent, p) \<Rightarrow> (Inr total_sent, p\<lparr>mp_updates_since_snapshot := 0\<rparr>))"

definition publish_ticker_snapshot ::
  "'s socket_api \<Rightarrow> TickerId \<Rightarrow> 's MarketDataPublisher \<Rightarrow> usize io \<times> 's MarketDataPublisher" where
  "publish_ticker_snapshot api ticker_id p =
     (case fmlookup (mp_ticker_state p) ticker_id of
        None \<Rightarrow> (Inr 0, p)
      | Some st \<Rightarrow> send_all api (snapshot_messages ticker_id st (mp_sequence p)) 0 p)"

definition publish :: "'s socket_api \<Rightarrow> TickerId list \<Rightarrow> MarketUpdate \<Rightarrow> 's MarketDataPublisher \<Rightarrow>
    usize io \<times> 's MarketDataPublisher" where
  "publish api ks update p =
     (let p = (if mc_enable_snapshots (mp_config p) then update_ticker_state (mu_ticker_id update) update p else p)
      in case send_update api update p of
           (Inl e, p) \<Rightarrow> (Inl e, p)
         | (Inr sent, p) \<Rightarrow>
             let p = p\<lparr>mp_sequence := mp_sequence p + 1,
                       mp_updates_since_snapshot := mp_updates_since_snapshot p + 1,
                       mp_total_updates_sent := mp_total_updates_sent p + 1,
                       mp_total_bytes_sent := mp_total_bytes_sent p + sent\<rparr>
             in if mc_enable_snapshots (mp_config p) \<and> 0 < mc_snapshot_interval (mp_config p) \<and>
                   mc_snapshot_interval (mp_config p) \<le> mp_updates_since_snapshot p
                then (case publish_snapshot api ks p of
                        (Inl e, p) \<Rightarrow> (Inl e, p)
                      | (Inr _, p) \<Rightarrow> (Inr sent, p))
                else (Inr sent, p))"

text \<open>Each update of a batch comes with the visiting order of the snapshot it may trigger.\<close>

fun publish_batch :: "'s socket_api \<Rightarrow> (TickerId list \<times> MarketUpdate) list \<Rightarrow> usize \<Rightarrow>
    's MarketDataPublisher \<Rightarrow> usize io \<times> 's MarketDataPublisher" where
  "publish_batch api [] total_sent p = (Inr total_sent, p)"
| "publish_batch api ((ks, update) # us) total_sent p =
     (case publish api ks update p of
        (Inl e, p) \<Rightarrow> (Inl e, p)
      | (Inr sent, p) \<Rightarrow> publish_batch api us (total_sent + sent) p)"

definition publish_clear ::
  "'s socket_api \<Rightarrow> TickerId \<Rightarrow> 's MarketDataPublisher \<Rightarrow> usize io \<times> 's MarketDataPublisher" where
  "publish_clear api ticker_id p =
     (let update = MarketUpdate_new UClear ticker_id 0 0 0 0 (mp_sequence p);
          p = p\<lparr>mp_ticker_state := fmdrop ticker_id (mp_ticker_state p)\<rparr>
      in case send_update api update p of
           (Inl e, p) \<Rightarrow> (Inl e, p)
         | (Inr sent, p) \<Rightarrow>
             (Inr sent, p\<lparr>mp_sequence := mp_sequence p + 1,
                          mp_total_updates_sent := mp_total_updates_sent p + 1,
                          mp_total_bytes_sent := mp_total_bytes_sent p + sent\<rparr>))"

definition register_ticker :: "TickerId \<Rightarrow> 's MarketDataPublisher \<Rightarrow> 's MarketDataPublisher" where
  "register_ticker ticker_id p =
     p\<lparr>mp_ticker_state := fmupd ticker_id (get_or (mp_ticker_state p) ticker_id TickerState_default)
         (mp_ticker_state p)\<rparr>"

definition get_ticker_state :: "'s MarketDataPublisher \<Rightarrow> TickerId \<Rightarrow> (Price \<times> Qty \<times> Price \<times> Qty) option" where
  "get_ticker_state p ticker_id =
     map_option (\<lambda>s. (ts_bid_price s, ts_bid_qty s, ts_ask_price s, ts_ask_qty s))
       (fmlookup (mp_ticker_state p) ticker_id)"

definition mdp_ticker_count :: "'s MarketDataPublisher \<Rightarrow> nat" where
  "mdp_ticker_count p = hm_len (mp_ticker_state p)"

section \<open>Sending\<close>

text \<open>Sending touches nothing but the socket.\<close>

lemma send_update_fields:
  assumes "send_update api u p = (r, p')"
  shows "mp_config p' = mp_config p" "mp_ticker_state p' = mp_ticker_state p" "mp_sequence p' = mp_sequence p"
    "mp_updates_since_snapshot p' = mp_updates_since_snapshot p"
    "mp_total_updates_sent p' = mp_total_updates_sent p" "mp_total_bytes_sent p' = mp_total_bytes_sent p"
  using assms by (auto simp: send_update_def split: prod.splits)

lemma send_all_fields:
  assumes "send_all api us n p = (r, p')"
  shows "mp_config p' = mp_config p \<and> mp_ticker_state p' = mp_ticker_state p \<and> mp_sequence p' = mp_sequence p \<and>
    mp_updates_since_snapshot p' = mp_updates_since_snapshot p \<and>
    mp_total_updates_sent p' = mp_total_updates_sent p \<and> mp_total_bytes_sent p' = mp_total_bytes_sent p"
  using assms
proof (induction us arbitrary: n p)
  case (Cons u us)
  obtain r1 p1 where 1: "send_update api u p = (r1, p1)" by force
  note f = send_update_fields [OF 1]
  show ?case using Cons 1 f by (cases r1) auto
qed simp

lemma send_all_append:
  "send_all api (us @ vs) n p =
     (case send_all api us n p of (Inl e, p) \<Rightarrow> (Inl e, p) | (Inr n, p) \<Rightarrow> send_all api vs n p)"
  by (induction us arbitrary: n p) (auto split: prod.splits sum.splits)

text \<open>A snapshot sends the messages of all tickers, in the order of the visit.\<close>

definition all_snapshots :: "'s MarketDataPublisher \<Rightarrow> TickerId list \<Rightarrow> MarketUpdate list" where
  "all_snapshots p ks =
     concat (map (\<lambda>t. snapshot_messages t (get_or (mp_ticker_state p) t TickerState_default) (mp_sequence p)) ks)"

lemma snapshot_loop_eq: "snapshot_loop api ks n p = send_all api (all_snapshots p ks) n p"
proof (induction ks arbitrary: n p)
  case (Cons t ks)
  let ?m = "snapshot_messages t (get_or (mp_ticker_state p) t TickerState_default) (mp_sequence p)"
  obtain r p1 where 1: "send_all api ?m n p = (r, p1)" by force
  have "all_snapshots p1 ks = all_snapshots p ks" using send_all_fields [OF 1] by (simp add: all_snapshots_def)
  with Cons 1 show ?case
    by (cases r) (simp_all add: Let_def send_all_append all_snapshots_def)
qed (simp add: all_snapshots_def)

lemma publish_snapshot_fields:
  assumes "publish_snapshot api ks p = (r, p')"
  shows "mp_config p' = mp_config p" "mp_ticker_state p' = mp_ticker_state p" "mp_sequence p' = mp_sequence p"
    "mp_total_updates_sent p' = mp_total_updates_sent p" "mp_total_bytes_sent p' = mp_total_bytes_sent p"
    "r = Inr n \<Longrightarrow> mp_updates_since_snapshot p' = 0"
proof -
  obtain r1 p1 where 1: "send_all api (all_snapshots p ks) 0 p = (r1, p1)" by force
  note f = send_all_fields [OF 1]
  show "mp_config p' = mp_config p" "mp_ticker_state p' = mp_ticker_state p" "mp_sequence p' = mp_sequence p"
    "mp_total_updates_sent p' = mp_total_updates_sent p" "mp_total_bytes_sent p' = mp_total_bytes_sent p"
    "r = Inr n \<Longrightarrow> mp_updates_since_snapshot p' = 0"
    using assms 1 f by (cases r1; auto simp: publish_snapshot_def snapshot_loop_eq)+
qed

lemma update_ticker_state_simps [simp]:
  "mp_config (update_ticker_state t u p) = mp_config p" "mp_socket (update_ticker_state t u p) = mp_socket p"
  "mp_sequence (update_ticker_state t u p) = mp_sequence p"
  "mp_updates_since_snapshot (update_ticker_state t u p) = mp_updates_since_snapshot p"
  "mp_total_updates_sent (update_ticker_state t u p) = mp_total_updates_sent p"
  "mp_total_bytes_sent (update_ticker_state t u p) = mp_total_bytes_sent p"
  by (simp_all add: update_ticker_state_def Let_def)

section \<open>The tracked best prices\<close>

definition quotes :: "MarketUpdate \<Rightarrow> bool" where
  "quotes u \<longleftrightarrow> update_type u \<in> {Some UAdd, Some UModify, Some USnapshot} \<and> 0 <s mu_price u"

lemma apply_quote:
  assumes "quotes u"
  shows "apply_to_state u st =
    (if mu_side u = side_i8 Buy then add_bid (mu_price u) (mu_qty u) st
     else if mu_side u = side_i8 Sell then add_ask (mu_price u) (mu_qty u) st else st)"
  using assms by (auto simp: quotes_def apply_to_state_def Let_def)

definition bid_of :: "TickerState \<Rightarrow> Price \<times> Qty" where
  "bid_of st = (ts_bid_price st, ts_bid_qty st)"

definition ask_of :: "TickerState \<Rightarrow> Price \<times> Qty" where
  "ask_of st = (ts_ask_price st, ts_ask_qty st)"

interpretation pub_bid: quote_tracker add_bid bid_of sint 0
  by unfold_locales (simp_all add: signed_word_eqI quote_step_def bid_of_def add_bid_def word_sless_alt)

interpretation pub_ask: quote_tracker add_ask ask_of "\<lambda>p. - sint p" 0
  by unfold_locales (auto simp: signed_word_eqI quote_step_def ask_of_def add_ask_def word_sless_alt)

lemma other_side [simp]: "ask_of (add_bid p q st) = ask_of st" "bid_of (add_ask p q st) = bid_of st"
  by (simp_all add: ask_of_def bid_of_def add_bid_def add_ask_def)

text \<open>Each side sees the quotes of its own side only.\<close>

lemma tracked_fold:
  assumes "list_all quotes us"
  shows "bid_of (fold apply_to_state us st) =
      fold (quote_step sint 0) (map price_qty (side_updates Buy us)) (bid_of st)"
    and "ask_of (fold apply_to_state us st) =
      fold (quote_step (\<lambda>p. - sint p) 0) (map price_qty (side_updates Sell us)) (ask_of st)"
  using assms
  by (induction us arbitrary: st)
    (auto simp: apply_quote side_updates_def pub_bid.best_upd pub_ask.best_upd price_qty_def)

lemma quotes_nonzero: "list_all quotes us \<Longrightarrow> \<forall>pq \<in> set (map price_qty (side_updates sd us)). fst pq \<noteq> 0"
  by (auto simp: list_all_iff quotes_def side_updates_def price_qty_def word_sless_alt)

lemma default_sides [simp]: "bid_of TickerState_default = (0, 0)" "ask_of TickerState_default = (0, 0)"
  by (simp_all add: bid_of_def ask_of_def TickerState_default_def)

lemma tracked_quotes:
  assumes "list_all quotes us"
  shows "let st = fold apply_to_state us TickerState_default in
    (if side_updates Buy us = [] then bid_of st = (0, 0)
     else is_best_quote sint (map price_qty (side_updates Buy us)) (bid_of st)) \<and>
    (if side_updates Sell us = [] then ask_of st = (0, 0)
     else is_best_quote (\<lambda>p. - sint p) (map price_qty (side_updates Sell us)) (ask_of st))"
  using pub_bid.fold_best [OF _ quotes_nonzero [OF assms], of Buy "(0, 0)"]
    pub_ask.fold_best [OF _ quotes_nonzero [OF assms], of Sell "(0, 0)"]
  by (simp add: tracked_fold [OF assms] Let_def)

section \<open>Publishing\<close>

definition tracked :: "MarketUpdate \<Rightarrow> 's MarketDataPublisher \<Rightarrow> 's MarketDataPublisher" where
  "tracked u p = (if mc_enable_snapshots (mp_config p) then update_ticker_state (mu_ticker_id u) u p else p)"

definition counted :: "usize \<Rightarrow> 's MarketDataPublisher \<Rightarrow> 's MarketDataPublisher" where
  "counted sent p = p\<lparr>mp_sequence := mp_sequence p + 1,
     mp_updates_since_snapshot := mp_updates_since_snapshot p + 1,
     mp_total_updates_sent := mp_total_updates_sent p + 1,
     mp_total_bytes_sent := mp_total_bytes_sent p + sent\<rparr>"

definition snapshot_due :: "'s MarketDataPublisher \<Rightarrow> bool" where
  "snapshot_due p \<longleftrightarrow> mc_enable_snapshots (mp_config p) \<and> 0 < mc_snapshot_interval (mp_config p) \<and>
     mc_snapshot_interval (mp_config p) \<le> mp_updates_since_snapshot p"

lemma tracked_simps [simp]:
  "mp_config (tracked u p) = mp_config p" "mp_socket (tracked u p) = mp_socket p"
  "mp_sequence (tracked u p) = mp_sequence p"
  "mp_updates_since_snapshot (tracked u p) = mp_updates_since_snapshot p"
  "mp_total_updates_sent (tracked u p) = mp_total_updates_sent p"
  "mp_total_bytes_sent (tracked u p) = mp_total_bytes_sent p"
  by (simp_all add: tracked_def)

lemma counted_simps [simp]:
  "mp_config (counted n p) = mp_config p" "mp_sequence (counted n p) = mp_sequence p + 1"
  "mp_updates_since_snapshot (counted n p) = mp_updates_since_snapshot p + 1"
  "mp_total_updates_sent (counted n p) = mp_total_updates_sent p + 1"
  "mp_total_bytes_sent (counted n p) = mp_total_bytes_sent p + n"
  by (simp_all add: counted_def)

lemma publish_cases:
  assumes send: "MulticastSocket_send_to api (MarketUpdate_as_bytes u) (mc_multicast_addr (mp_config p))
      (mc_port (mp_config p)) (mp_socket p) = (r, s)"
  shows "r = Inl e \<Longrightarrow> publish api ks u p = (Inl e, (tracked u p)\<lparr>mp_socket := s\<rparr>)"
    and "r = Inr sent \<Longrightarrow> publish api ks u p =
      (let p' = counted (of_nat sent) ((tracked u p)\<lparr>mp_socket := s\<rparr>)
       in if snapshot_due p' then apfst (map_sum id (\<lambda>_. of_nat sent)) (publish_snapshot api ks p')
          else (Inr (of_nat sent), p'))"
proof -
  have su: "send_update api u (tracked u p) = (map_sum id of_nat r, (tracked u p)\<lparr>mp_socket := s\<rparr>)"
    using send by (simp add: send_update_def)
  show "r = Inl e \<Longrightarrow> publish api ks u p = (Inl e, (tracked u p)\<lparr>mp_socket := s\<rparr>)"
    using su by (simp add: publish_def tracked_def Let_def)
  show "r = Inr sent \<Longrightarrow> publish api ks u p =
      (let p' = counted (of_nat sent) ((tracked u p)\<lparr>mp_socket := s\<rparr>)
       in if snapshot_due p' then apfst (map_sum id (\<lambda>_. of_nat sent)) (publish_snapshot api ks p')
          else (Inr (of_nat sent), p'))"
    using su unfolding publish_def tracked_def [symmetric] counted_def snapshot_due_def Let_def
    by (auto split: prod.splits sum.splits)
qed

section \<open>Properties\<close>

text \<open>\<open>publish\<close> sends the 34 bytes of the update to the configured group and accounts for
  exactly that: if the send fails, its error is returned and no counter moves; if it succeeds,
  the sequence number and the number of updates go up by one and the byte count by what was
  sent, whether or not a snapshot follows and succeeds.\<close>

lemma publish_accounting:
  "case MulticastSocket_send_to api (MarketUpdate_as_bytes u) (mc_multicast_addr (mp_config p))
      (mc_port (mp_config p)) (mp_socket p) of
     (Inl e, _) \<Rightarrow>
       fst (publish api ks u p) = Inl e \<and>
       mp_sequence (snd (publish api ks u p)) = mp_sequence p \<and>
       mp_updates_since_snapshot (snd (publish api ks u p)) = mp_updates_since_snapshot p \<and>
       mp_total_updates_sent (snd (publish api ks u p)) = mp_total_updates_sent p \<and>
       mp_total_bytes_sent (snd (publish api ks u p)) = mp_total_bytes_sent p
   | (Inr sent, _) \<Rightarrow>
       fst (publish api ks u p) \<in> {Inr (of_nat sent)} \<union> range Inl \<and>
       mp_sequence (snd (publish api ks u p)) = mp_sequence p + 1 \<and>
       mp_total_updates_sent (snd (publish api ks u p)) = mp_total_updates_sent p + 1 \<and>
       mp_total_bytes_sent (snd (publish api ks u p)) = mp_total_bytes_sent p + of_nat sent"
proof -
  obtain r s where send: "MulticastSocket_send_to api (MarketUpdate_as_bytes u)
      (mc_multicast_addr (mp_config p)) (mc_port (mp_config p)) (mp_socket p) = (r, s)" by force
  show ?thesis
  proof (cases r)
    case (Inl e)
    then show ?thesis using send by (simp add: publish_cases(1) [OF send Inl])
  next
    case (Inr sent)
    let ?p = "counted (of_nat sent) ((tracked u p)\<lparr>mp_socket := s\<rparr>)"
    obtain r1 p1 where 1: "publish_snapshot api ks ?p = (r1, p1)" by force
    note f = publish_snapshot_fields [OF 1]
    show ?thesis
      using send Inr f unfolding publish_cases(2) [OF send Inr] Let_def
      by (cases r1) (auto simp: 1)
  qed
qed

text \<open>Snapshots are never overdue: with snapshots enabled and an interval \<open>n > 0\<close>, a
  publisher with fewer than \<open>n\<close> updates since the last snapshot has fewer than \<open>n\<close> after every
  successful publish, because the \<open>n\<close>-th update sends the snapshot and resets the count.\<close>

lemma snapshot_never_overdue:
  assumes "mc_enable_snapshots (mp_config p)" "0 < mc_snapshot_interval (mp_config p)"
    and "mp_updates_since_snapshot p < mc_snapshot_interval (mp_config p)"
    and "publish api ks u p = (Inr n, p')"
  shows "mp_updates_since_snapshot p' < mc_snapshot_interval (mp_config p') \<and>
    mp_updates_since_snapshot p' =
      (if mp_updates_since_snapshot p + 1 = mc_snapshot_interval (mp_config p) then 0
       else mp_updates_since_snapshot p + 1)"
proof -
  obtain r s where send: "MulticastSocket_send_to api (MarketUpdate_as_bytes u)
      (mc_multicast_addr (mp_config p)) (mc_port (mp_config p)) (mp_socket p) = (r, s)" by force
  then obtain sent where r: "r = Inr sent" using assms(4) publish_cases(1) [OF send] by (cases r) auto
  let ?p = "counted (of_nat sent) ((tracked u p)\<lparr>mp_socket := s\<rparr>)"
  have c: "mp_config ?p = mp_config p" "mp_updates_since_snapshot ?p = mp_updates_since_snapshot p + 1"
    by simp_all
  have nat: "unat (mp_updates_since_snapshot p + 1) = unat (mp_updates_since_snapshot p) + 1"
  proof -
    have "unat (mp_updates_since_snapshot p) + 1 < 2 ^ 64"
      using assms(3) unsigned_less [where 'a = nat, of "mc_snapshot_interval (mp_config p)"] by (simp add: word_less_nat_alt)
    then show ?thesis by (simp add: unat_word_ariths)
  qed
  have due: "snapshot_due ?p \<longleftrightarrow> mp_updates_since_snapshot p + 1 = mc_snapshot_interval (mp_config p)"
    using assms(1-3) nat by (auto simp: snapshot_due_def c word_le_nat_alt word_less_nat_alt word_unat_eq_iff)
  obtain r1 p1 where 1: "publish_snapshot api ks ?p = (r1, p1)" by force
  note f = publish_snapshot_fields [OF 1]
  show ?thesis
  proof (cases "snapshot_due ?p")
    case True
    then have "r1 \<noteq> Inl e" "p' = p1" for e
      using assms(4) 1 by (auto simp: publish_cases(2) [OF send r] Let_def)
    then have "mp_updates_since_snapshot p' = 0" "mp_config p' = mp_config p"
      using f c by (cases r1; simp)+
    with True due assms(2) show ?thesis by simp
  next
    case False
    then have "p' = ?p" using assms(4) by (auto simp: publish_cases(2) [OF send r] Let_def)
    moreover have "mp_updates_since_snapshot p + 1 < mc_snapshot_interval (mp_config p)"
      using False due assms(3) nat by (auto simp: word_less_nat_alt word_unat_eq_iff)
    ultimately show ?thesis using False due c by simp
  qed
qed

lemma snapshot_never_overdue_witness:
  "\<exists>p n p'. publish script_api [] (MarketUpdate_new UAdd 1 9 1 100 5 9) (p :: script MarketDataPublisher) = (Inr n, p') \<and>
     mp_updates_since_snapshot p = 1 \<and> mc_snapshot_interval (mp_config p) = 2 \<and>
     mp_updates_since_snapshot p' = 0"
proof -
  let ?u = "MarketUpdate_new UAdd 1 9 1 100 5 9"
  let ?p = "\<lparr>mp_socket = \<lparr>sc_mode = True, sc_incoming = [], sc_sent = [], sc_pending = []\<rparr>,
    mp_config = MarketDataPublisherConfig_default\<lparr>mc_snapshot_interval := 2\<rparr>, mp_ticker_state = fmempty,
    mp_sequence = 1, mp_updates_since_snapshot = 1, mp_total_updates_sent = 1, mp_total_bytes_sent = 34\<rparr>"
  have ip: "parse_ipv4 ''239.255.0.1'' = Some (239, 255, 0, 1)" by code_simp
  have cfg: "mc_enable_snapshots (mp_config ?p)" "0 < mc_snapshot_interval (mp_config ?p)"
    "mp_updates_since_snapshot ?p < mc_snapshot_interval (mp_config ?p)"
    by (simp_all add: MarketDataPublisherConfig_default_def word_less_nat_alt)
  obtain n p' where pub: "publish script_api [] ?u ?p = (Inr n, p')"
    by (simp add: publish_def Let_def send_update_def script_defs MarketDataPublisherConfig_default_def ip
        publish_snapshot_def update_ticker_state_def split: prod.split)
  from snapshot_never_overdue [OF cfg pub] pub show ?thesis
    by (intro exI [where x = ?p]) (auto simp: MarketDataPublisherConfig_default_def)
qed

text \<open>On quoting updates (adds, modifications and snapshots with positive prices) the
  tracked state of a ticker is exact: the bid price is the greatest price quoted on the buy
  side and the ask price the least on the sell side, each with the quantity of the last quote
  at that price, and a side without quotes is empty.\<close>

lemma tracked_best_prices:
  assumes "list_all quotes us"
  shows "let st = fold apply_to_state us TickerState_default;
             bids = side_updates Buy us; asks = side_updates Sell us
         in (if bids = [] then ts_bid_price st = 0 \<and> ts_bid_qty st = 0
             else sint (ts_bid_price st) = Max ((\<lambda>u. sint (mu_price u)) ` set bids) \<and>
               ts_bid_qty st = mu_qty (last (filter (\<lambda>u. mu_price u = ts_bid_price st) bids))) \<and>
            (if asks = [] then ts_ask_price st = 0 \<and> ts_ask_qty st = 0
             else sint (ts_ask_price st) = Min ((\<lambda>u. sint (mu_price u)) ` set asks) \<and>
               ts_ask_qty st = mu_qty (last (filter (\<lambda>u. mu_price u = ts_ask_price st) asks)))"
proof -
  let ?st = "fold apply_to_state us TickerState_default"
  have b: "fst (bid_of ?st) = ts_bid_price ?st" "snd (bid_of ?st) = ts_bid_qty ?st"
    "fst (ask_of ?st) = ts_ask_price ?st" "snd (ask_of ?st) = ts_ask_qty ?st"
    by (simp_all add: bid_of_def ask_of_def)
  have "side_updates Buy us \<noteq> [] \<Longrightarrow> is_best_quote sint (map price_qty (side_updates Buy us)) (bid_of ?st)"
    "side_updates Sell us \<noteq> [] \<Longrightarrow> is_best_quote (\<lambda>p. - sint p) (map price_qty (side_updates Sell us)) (ask_of ?st)"
    "side_updates Buy us = [] \<Longrightarrow> bid_of ?st = (0, 0)" "side_updates Sell us = [] \<Longrightarrow> ask_of ?st = (0, 0)"
    using tracked_quotes [OF assms] by (auto simp: Let_def)
  with is_best_quote_updates [of sint "side_updates Buy us" "bid_of ?st"]
    is_best_quote_updates [of "\<lambda>p. - sint p" "side_updates Sell us" "ask_of ?st"] b
  show ?thesis unfolding Let_def by (auto simp: bid_of_def ask_of_def)
qed

lemma tracked_best_prices_witness:
  "let us = [MarketUpdate_new UAdd 1 1 1 100 10 1, MarketUpdate_new UAdd 1 2 1 101 20 2,
             MarketUpdate_new UAdd 1 3 1 100 30 3];
       st = fold apply_to_state us TickerState_default
   in sint (ts_bid_price st) = 101 \<and> ts_bid_qty st = 20 \<and> ts_ask_qty st = 0"
proof -
  let ?us = "[MarketUpdate_new UAdd 1 1 1 100 10 1, MarketUpdate_new UAdd 1 2 1 101 20 2,
    MarketUpdate_new UAdd 1 3 1 100 30 3]"
  let ?st = "fold apply_to_state ?us TickerState_default"
  have q: "list_all quotes ?us" by (simp add: quotes_def word_sless_alt)
  have "side_updates Buy ?us = ?us" "side_updates Sell ?us = []" by (simp_all add: side_updates_def)
  with tracked_best_prices [OF q]
  have b: "sint (ts_bid_price ?st) = 101" "ts_ask_qty ?st = 0"
    and q: "ts_bid_qty ?st = mu_qty (last (filter (\<lambda>u. mu_price u = ts_bid_price ?st) ?us))"
    unfolding Let_def by simp_all
  have "ts_bid_price ?st = 101" using b(1) by (intro signed_word_eqI) simp
  with b q show ?thesis by (simp add: Let_def)
qed

text \<open>Quantities at the best price are replaced, not added up: after two orders at one price and
  the cancellation of one of them the tracked side is empty although an order rests.\<close>

lemma same_price_orders_lost:
  "let st = fold apply_to_state [MarketUpdate_new UAdd 1 1 1 100 10 1, MarketUpdate_new UAdd 1 2 1 100 5 2,
        MarketUpdate_new UCancel 1 1 1 100 10 1] TickerState_default
   in ts_bid_price st = 0 \<and> ts_bid_qty st = 0"
  by (simp add: apply_to_state_def add_bid_def TickerState_default_def Let_def saturating_sub_def
      word_sless_alt word_less_nat_alt)

end
