(* ===== verification/Exchange.thy ===== *)
theory Exchange
  imports MatchingEngine OrderServer Publisher
begin

text \<open>
  The exchange binary, \<open>exchange/src/main.rs\<close>: the parsing of the ticker list, the start-up of
  the three components and the body of the event loop, which passes every polled request to the
  matching engine, its response to the client's connection and its updates to the publisher.
  Printing, the shutdown flag and the sleep between iterations are not represented. \<open>iter\<close> is
  the iteration order of the publisher's hash map.
\<close>

section \<open>The ticker list\<close>

text \<open>\<open>str::trim\<close> on ASCII text, and \<open>str::parse::<u32>\<close>: an optional plus sign and at least one
  digit, in range.\<close>

definition is_space :: "char \<Rightarrow> bool" where
  "is_space c \<longleftrightarrow> of_char c \<in> {9..13 :: nat} \<or> of_char c = (32 :: nat)"

definition trim :: "string \<Rightarrow> string" where
  "trim s = rev (dropWhile is_space (rev (dropWhile is_space s)))"

definition parse_u32 :: "string \<Rightarrow> u32 option" where
  "parse_u32 s =
     (let digits = (case s of c # cs \<Rightarrow> if c = CHR ''+'' then cs else s | [] \<Rightarrow> []) in
      if digits = [] then None
      else (case parse_digits digits 0 of
              None \<Rightarrow> None
            | Some n \<Rightarrow> if n < 2 ^ 32 then Some (of_nat n) else None))"

definition parse_tickers :: "string \<Rightarrow> u32 list" where
  "parse_tickers tickers_str = List.map_filter (\<lambda>s. parse_u32 (trim s)) (split_on (CHR '','') tickers_str)"

section \<open>The event loop\<close>

record 's Exchange =
  ex_order_server :: "'s OrderServer"
  ex_matching_engine :: MatchingEngine
  ex_publisher :: "'s MarketDataPublisher"

text \<open>The command line, and the start-up from it: \<open>None\<close> is the exit of the process after an
  error message. \<open>resolve\<close> is the system's name resolution.\<close>

record Args =
  ar_port :: u16
  ar_multicast_addr :: string
  ar_multicast_port :: u16
  ar_tickers :: string
  ar_interface :: string
  ar_ttl :: u32

definition Args_default :: Args where
  "Args_default = \<lparr>ar_port = 12345, ar_multicast_addr = ''239.255.0.1'', ar_multicast_port = 5000,
     ar_tickers = ''1,2,3'', ar_interface = ''0.0.0.0'', ar_ttl = 1\<rparr>"

definition md_config :: "Args \<Rightarrow> MarketDataPublisherConfig" where
  "md_config args =
     \<lparr>mc_multicast_addr = ar_multicast_addr args, mc_port = ar_multicast_port args,
      mc_interface = ar_interface args, mc_ttl = ar_ttl args, mc_enable_snapshots = True,
      mc_snapshot_interval = 1000\<rparr>"

definition Exchange_start :: "'s socket_api \<Rightarrow> (string \<Rightarrow> u16 \<Rightarrow> socket_addr list io) \<Rightarrow> Args \<Rightarrow>
    's Exchange outcome option" where
  "Exchange_start api resolve args =
     (let tickers = parse_tickers (ar_tickers args) in
      if tickers = [] then None
      else (case OrderServer_new api resolve (OrderServerConfig_new (ar_interface args) (ar_port args)) of
              Inl e \<Rightarrow> None
            | Inr server \<Rightarrow>
                (case add_tickers tickers MatchingEngine_new of
                   Inl f \<Rightarrow> Some (Inl f)
                 | Inr engine \<Rightarrow>
                     (case MarketDataPublisher_new api (md_config args) of
                        Inl e \<Rightarrow> None
                      | Inr publisher \<Rightarrow>
                          Some (Inr \<lparr>ex_order_server = server, ex_matching_engine = engine,
                                     ex_publisher = fold register_ticker tickers publisher\<rparr>)))))"

text \<open>Errors of a send or of a publication are printed and otherwise ignored.\<close>

definition publish_all :: "'s socket_api \<Rightarrow> ((TickerId, TickerState) fmap \<Rightarrow> TickerId list) \<Rightarrow>
    MarketUpdate list \<Rightarrow> 's MarketDataPublisher \<Rightarrow> 's MarketDataPublisher" where
  "publish_all api iter us p =
     fold (\<lambda>update p. snd (publish api (iter (mp_ticker_state (tracked update p))) update p)) us p"

definition handle_request :: "'s socket_api \<Rightarrow> ((TickerId, TickerState) fmap \<Rightarrow> TickerId list) \<Rightarrow>
    SequencedRequest \<Rightarrow> 's Exchange \<Rightarrow> (reply \<times> 's Exchange) outcome" where
  "handle_request api iter seq_request ex =
     (case process_request (ex_matching_engine ex) (sr_request seq_request) of
        Inl f \<Rightarrow> Inl f
      | Inr ((response, market_updates), engine) \<Rightarrow>
          let server = snd (send_response api (sr_client_id seq_request) response (ex_order_server ex));
              publisher = publish_all api iter market_updates (ex_publisher ex)
          in Inr ((response, market_updates),
               \<lparr>ex_order_server = server, ex_matching_engine = engine, ex_publisher = publisher\<rparr>))"

text \<open>One iteration of the loop: poll, then handle the requests in order.\<close>

definition loop_body :: "'s socket_api \<Rightarrow> ClientId list \<Rightarrow> ((TickerId, TickerState) fmap \<Rightarrow> TickerId list) \<Rightarrow>
    's Exchange \<Rightarrow> (reply list \<times> 's Exchange) outcome option" where
  "loop_body api ks iter ex =
     (case poll api ks (ex_order_server ex) of
        None \<Rightarrow> None
      | Some (requests, server) \<Rightarrow>
          Some (run_outcome (handle_request api iter) requests (ex\<lparr>ex_order_server := server\<rparr>)))"

text \<open>The event loop until the shutdown flag is cleared: one list of client ids, the visiting
  order of the poll, per iteration. All replies are collected.\<close>

fun exchange_loop :: "'s socket_api \<Rightarrow> ((TickerId, TickerState) fmap \<Rightarrow> TickerId list) \<Rightarrow> ClientId list list \<Rightarrow>
    's Exchange \<Rightarrow> (reply list \<times> 's Exchange) outcome option" where
  "exchange_loop api iter [] ex = Some (Inr ([], ex))"
| "exchange_loop api iter (ks # kss) ex =
     (case loop_body api ks iter ex of
        None \<Rightarrow> None
      | Some (Inl f) \<Rightarrow> Some (Inl f)
      | Some (Inr (rps, ex)) \<Rightarrow>
          map_option (map_sum id (\<lambda>(rps', ex). (rps @ rps', ex))) (exchange_loop api iter kss ex))"

definition exchange_main :: "'s socket_api \<Rightarrow> (string \<Rightarrow> u16 \<Rightarrow> socket_addr list io) \<Rightarrow>
    ((TickerId, TickerState) fmap \<Rightarrow> TickerId list) \<Rightarrow> Args \<Rightarrow> ClientId list list \<Rightarrow>
    (reply list \<times> 's Exchange) outcome option" where
  "exchange_main api resolve iter args kss =
     (case Exchange_start api resolve args of
        None \<Rightarrow> None
      | Some (Inl f) \<Rightarrow> Some (Inl f)
      | Some (Inr ex) \<Rightarrow> exchange_loop api iter kss ex)"

text \<open>The end of \<open>main\<close>: every connection is dropped, and the number of updates is reported.\<close>

definition exchange_shutdown :: "'s Exchange \<Rightarrow> u64 \<times> 's Exchange" where
  "exchange_shutdown ex =
     (let ex = ex\<lparr>ex_order_server := disconnect_all (ex_order_server ex)\<rparr>
      in (mp_total_updates_sent (ex_publisher ex), ex))"

section \<open>The engine behind the loop\<close>

text \<open>Handling the polled requests drives the engine through exactly these requests.\<close>

lemma run_handle_request:
  assumes "me_ok (ex_matching_engine ex)"
  shows "\<exists>rps ex'. run_outcome (handle_request api iter) srs ex = Inr (rps, ex') \<and>
    run_outcome (\<lambda>rq me. process_request me rq) (map sr_request srs) (ex_matching_engine ex)
      = Inr (rps, ex_matching_engine ex') \<and> me_ok (ex_matching_engine ex')"
  using assms
proof (induction srs arbitrary: ex)
  case (Cons sr srs)
  obtain rp me' where p: "process_request (ex_matching_engine ex) (sr_request sr) = Inr (rp, me')" "me_ok me'"
    using process_request_ok [OF Cons.prems] by blast
  obtain ex1 where h: "handle_request api iter sr ex = Inr (rp, ex1)" "ex_matching_engine ex1 = me'"
    by (cases rp) (simp add: handle_request_def p Let_def)
  from Cons.IH [of ex1] h p obtain rps ex' where
    "run_outcome (handle_request api iter) srs ex1 = Inr (rps, ex')"
    "run_outcome (\<lambda>rq me. process_request me rq) (map sr_request srs) me' = Inr (rps, ex_matching_engine ex')"
    "me_ok (ex_matching_engine ex')" by auto
  with h p show ?case by simp
qed simp

text \<open>The whole loop never panics and drives the engine through one sequence of requests.\<close>

lemma exchange_loop_engine:
  assumes "me_ok (ex_matching_engine ex)" "exchange_loop api iter kss ex = Some out"
  shows "\<exists>rps ex' rqs. out = Inr (rps, ex') \<and> me_ok (ex_matching_engine ex') \<and>
    run_spec aengine_step rqs (engine_abs (ex_matching_engine ex)) = (rps, engine_abs (ex_matching_engine ex'))"
  using assms
proof (induction kss arbitrary: ex out)
  case Nil
  then have "out = Inr ([], ex)" by simp
  moreover have "run_spec aengine_step [] (engine_abs (ex_matching_engine ex)) = ([], engine_abs (ex_matching_engine ex))"
    by simp
  ultimately show ?case using Nil.prems(1) by blast
next
  case (Cons ks kss)
  obtain srs sv where p: "poll api ks (ex_order_server ex) = Some (srs, sv)"
    using Cons.prems(2) by (auto simp: loop_body_def split: option.splits)
  let ?ex = "ex\<lparr>ex_order_server := sv\<rparr>"
  have ok: "me_ok (ex_matching_engine ?ex)" using Cons.prems(1) by simp
  from run_handle_request [OF this, of api iter srs] obtain rps1 ex1 where
    r: "run_outcome (handle_request api iter) srs ?ex = Inr (rps1, ex1)"
    "run_outcome (\<lambda>rq me. process_request me rq) (map sr_request srs) (ex_matching_engine ?ex)
      = Inr (rps1, ex_matching_engine ex1)" "me_ok (ex_matching_engine ex1)" by blast
  have s1: "run_spec aengine_step (map sr_request srs) (engine_abs (ex_matching_engine ex)) =
      (rps1, engine_abs (ex_matching_engine ex1))"
    using en.run_refines [OF ok, of "map sr_request srs"] r(2) by auto
  obtain out1 where l: "exchange_loop api iter kss ex1 = Some out1"
      "out = map_sum id (\<lambda>(rps', ex). (rps1 @ rps', ex)) out1"
    using Cons.prems(2) p r(1) by (auto simp: loop_body_def)
  from Cons.IH [OF r(3) l(1)] obtain rps2 ex2 rqs2 where 2: "out1 = Inr (rps2, ex2)"
    "me_ok (ex_matching_engine ex2)" "run_spec aengine_step rqs2 (engine_abs (ex_matching_engine ex1)) = (rps2, engine_abs (ex_matching_engine ex2))"
    by blast
  have "run_spec aengine_step (map sr_request srs @ rqs2) (engine_abs (ex_matching_engine ex)) =
      (rps1 @ rps2, engine_abs (ex_matching_engine ex2))"
    by (simp add: run_spec_append s1 2)
  with l(2) 2 show ?case by auto
qed

lemma Exchange_start_engine:
  assumes "Exchange_start api resolve args = Some out"
  shows "\<exists>ex. out = Inr ex \<and> me_ok (ex_matching_engine ex) \<and>
    engine_abs (ex_matching_engine ex) = aengine_start (set (parse_tickers (ar_tickers args)))"
proof -
  let ?ts = "parse_tickers (ar_tickers args)"
  obtain me where "add_tickers ?ts MatchingEngine_new = Inr me" "me_ok me" "engine_abs me = aengine_start (set ?ts)"
    using add_tickers_ok [OF MatchingEngine_new_ok, of ?ts] by auto
  with assms show ?thesis
    by (auto simp: Exchange_start_def Let_def split: if_splits sum.splits)
qed

section \<open>Routing of responses\<close>

definition client_log :: "('s \<Rightarrow> u8 list list) \<Rightarrow> 's OrderServer \<Rightarrow> ClientId \<Rightarrow> u8 list list option" where
  "client_log log sv k = map_option (\<lambda>c. log (tcp_socket (cc_socket c))) (fmlookup (os_clients sv) k)"

lemma send_response_log:
  assumes "send_logs api log"
  shows "client_log log (snd (send_response api k rsp sv)) j =
    map_option (\<lambda>l. if j = k then l @ [ClientResponse_as_bytes rsp] else l) (client_log log sv j)"
proof -
  have "log (tcp_socket (cc_socket (snd (ClientConnection_send api rsp c)))) =
      log (tcp_socket (cc_socket c)) @ [ClientResponse_as_bytes rsp]" for c
    using TcpSocket_send_log [OF assms] by (simp add: ClientConnection_send_def split_beta)
  then show ?thesis
    by (cases "j = k")
      (auto simp: client_log_def send_response_def split_beta option.map_comp comp_def split: option.splits)
qed

definition routed :: "ClientId \<Rightarrow> SequencedRequest list \<Rightarrow> reply list \<Rightarrow> u8 list list" where
  "routed k srs rps =
     map (\<lambda>(sr, rp). ClientResponse_as_bytes (fst rp)) (filter (\<lambda>(sr, rp). sr_client_id sr = k) (zip srs rps))"

lemma run_handle_request_log:
  assumes "send_logs api log" "run_outcome (handle_request api iter) srs ex = Inr (rps, ex')"
  shows "client_log log (ex_order_server ex') k =
    map_option (\<lambda>l. l @ routed k srs rps) (client_log log (ex_order_server ex) k)"
  using assms(2)
proof (induction srs arbitrary: ex rps)
  case Nil
  then show ?case by (simp add: routed_def option.map_ident)
next
  case (Cons sr srs)
  obtain rp ex1 rps1 where h: "handle_request api iter sr ex = Inr (rp, ex1)"
    and r: "run_outcome (handle_request api iter) srs ex1 = Inr (rps1, ex')" "rps = rp # rps1"
    using Cons.prems unfolding run_outcome_Cons_Inr by blast
  have "ex_order_server ex1 = snd (send_response api (sr_client_id sr) (fst rp) (ex_order_server ex))"
    using h by (auto simp: handle_request_def Let_def split: sum.splits prod.splits)
  with Cons.IH [OF r(1)] r(2) show ?case
    by (auto simp: send_response_log [OF assms(1)] routed_def option.map_comp comp_def intro!: option.map_cong)
qed

section \<open>Properties\<close>

text \<open>C14: one iteration of the event loop never panics and drives the engine through exactly
  the polled requests: every connected client's socket is handed, in order, exactly the encoded
  responses to the requests its own connection sent (whatever client id the request itself
  carries), and nothing else. \<open>send_logs\<close> records what is handed to a socket.\<close>

theorem loop_routes_responses:
  assumes "me_ok (ex_matching_engine ex)" "send_logs api log"
    and "poll api ks (ex_order_server ex) = Some (srs, sv)"
  shows "\<exists>rps ex'. loop_body api ks iter ex = Some (Inr (rps, ex')) \<and>
    run_outcome (\<lambda>rq me. process_request me rq) (map sr_request srs) (ex_matching_engine ex) =
      Inr (rps, ex_matching_engine ex') \<and>
    (\<forall>k. client_log log (ex_order_server ex') k =
       map_option (\<lambda>l. l @ routed k srs rps) (client_log log sv k))"
proof -
  let ?ex = "ex\<lparr>ex_order_server := sv\<rparr>"
  have "me_ok (ex_matching_engine ?ex)" using assms(1) by simp
  from run_handle_request [OF this] obtain rps ex' where
    r: "run_outcome (handle_request api iter) srs ?ex = Inr (rps, ex')"
    "run_outcome (\<lambda>rq me. process_request me rq) (map sr_request srs) (ex_matching_engine ?ex)
      = Inr (rps, ex_matching_engine ex')" by blast
  with run_handle_request_log [OF assms(2) r(1)] assms(3) show ?thesis
    by (simp add: loop_body_def)
qed

theorem loop_routes_responses_witness:
  "\<exists>ex rps ex'. ex_order_server ex = example_server \<and> ex_matching_engine ex = MatchingEngine_new \<and>
     loop_body script_api [1] (\<lambda>_. []) ex = Some (Inr (rps, ex')) \<and> length rps = 1 \<and>
     client_log sc_sent (ex_order_server ex') 1 = Some [ClientResponse_as_bytes (fst (hd rps))]"
proof -
  let ?ex = "\<lparr>ex_order_server = example_server, ex_matching_engine = MatchingEngine_new,
    ex_publisher = \<lparr>mp_socket = example_script, mp_config = MarketDataPublisherConfig_default,
      mp_ticker_state = fmempty, mp_sequence = 0, mp_updates_since_snapshot = 0,
      mp_total_updates_sent = 0, mp_total_bytes_sent = 0\<rparr>\<rparr>"
  have ok: "me_ok (ex_matching_engine ?ex)" using MatchingEngine_new_ok(1) by simp
  have log: "send_logs script_api sc_sent" by (rule script_send_logs)
  obtain srs sv c where p: "poll script_api [1] (ex_order_server ?ex) = Some (srs, sv)"
    and srs: "length srs = 1" "sr_client_id (hd srs) = 1"
    and c: "fmlookup (os_clients sv) 1 = Some c" "sc_sent (tcp_socket (cc_socket c)) = []"
    using example_poll by auto
  obtain rps ex' where r: "loop_body script_api [1] (\<lambda>_. []) ?ex = Some (Inr (rps, ex'))"
    "run_outcome (\<lambda>rq me. process_request me rq) (map sr_request srs) (ex_matching_engine ?ex) =
      Inr (rps, ex_matching_engine ex')"
    "\<And>k. client_log sc_sent (ex_order_server ex') k =
       map_option (\<lambda>l. l @ routed k srs rps) (client_log sc_sent sv k)"
    using loop_routes_responses [OF ok log p] by blast
  have len: "length rps = 1" using length_run_outcome [OF r(2)] srs by simp
  then have "routed 1 srs rps = [ClientResponse_as_bytes (fst (hd rps))]"
    using srs by (cases srs; cases rps) (auto simp: routed_def)
  then have "client_log sc_sent (ex_order_server ex') 1 = Some [ClientResponse_as_bytes (fst (hd rps))]"
    using r(3) [of 1] c by (simp add: client_log_def)
  with r(1) len show ?thesis by (intro exI [where x = ?ex]) auto
qed

text \<open>C4: the exchange as a whole, from its start-up through any number of iterations of its event
  loop, with any sockets, never panics; and after every iteration a subscriber that applied all
  market updates the engine emitted holds exactly the orders resting in the exchange's books.\<close>

theorem exchange_never_panics:
  assumes "exchange_main api resolve iter args kss = Some out"
  shows "\<exists>rps ex. out = Inr (rps, ex) \<and>
    foldl apply_update (\<lambda>t k. None) (concat (map snd rps)) =
      (\<lambda>t k. map_option order_entry (engine_view (ex_matching_engine ex) t k))"
proof -
  obtain ex0 where st: "Exchange_start api resolve args = Some (Inr ex0)" "me_ok (ex_matching_engine ex0)"
    "engine_abs (ex_matching_engine ex0) = aengine_start (set (parse_tickers (ar_tickers args)))"
    using assms Exchange_start_engine [of api resolve args]
    by (auto simp: exchange_main_def split: option.splits sum.splits)
  then have "exchange_loop api iter kss ex0 = Some out" using assms by (simp add: exchange_main_def)
  from exchange_loop_engine [OF st(2) this] obtain rps ex rqs where o: "out = Inr (rps, ex)"
    "run_spec aengine_step rqs (engine_abs (ex_matching_engine ex0)) = (rps, engine_abs (ex_matching_engine ex))"
    by blast
  with aengine_run_feed [of rqs "engine_abs (ex_matching_engine ex0)"] st(3) show ?thesis
    by (simp add: open_orders_engine open_orders_start fun_eq_iff)
qed

theorem exchange_never_panics_witness:
  "\<exists>rps ex. exchange_main script_api (\<lambda>_ _. Inr [SockV4 (0, 0, 0, 0) 12345]) (\<lambda>_. []) Args_default [[]] =
      Some (Inr (rps, ex)) \<and>
    foldl apply_update (\<lambda>t k. None) (concat (map snd rps)) =
      (\<lambda>t k. map_option order_entry (engine_view (ex_matching_engine ex) t k))"
proof -
  let ?resolve = "\<lambda>(_ :: string) (_ :: u16). Inr [SockV4 (0, 0, 0, 0) 12345]"
  let ?main = "exchange_main script_api ?resolve (\<lambda>_. []) Args_default [[]]"
  have ts: "parse_tickers (ar_tickers Args_default) = [1, 2, 3]"
    by (simp add: parse_tickers_def Args_default_def parse_u32_def trim_def is_space_def digit_value_def
        List.map_filter_def)
  have sv: "OrderServer_new script_api ?resolve cfg =
      Inr \<lparr>os_listener = \<lparr>sc_mode = True, sc_incoming = [], sc_sent = [], sc_pending = []\<rparr>, os_clients = fmempty,
        os_sequencer = FifoSequencer_new, os_next_client_id = 1, os_config = cfg\<rparr>" for cfg
    by (simp add: OrderServer_new_def script_defs)
  have "parse_ipv4 ''0.0.0.0'' = Some (0, 0, 0, 0)" by code_simp
  then have pub: "\<exists>p. MarketDataPublisher_new script_api (md_config Args_default) = Inr p"
    by (simp add: MarketDataPublisher_new_def md_config_def Args_default_def script_defs)
  have poll: "\<exists>sv. poll script_api [] \<lparr>os_listener = \<lparr>sc_mode = True, sc_incoming = [], sc_sent = [], sc_pending = []\<rparr>,
      os_clients = fmempty, os_sequencer = FifoSequencer_new, os_next_client_id = 1, os_config = cfg\<rparr> = Some ([], sv)" for cfg
    unfolding poll_def
    by (subst accept_connections.simps) (simp add: script_defs)
  have "?main \<noteq> None"
    using pub poll [of "OrderServerConfig_new (ar_interface Args_default) (ar_port Args_default)"]
      add_tickers_ok [OF MatchingEngine_new_ok, of "[1, 2, 3]"]
    by (auto simp: exchange_main_def Exchange_start_def ts sv loop_body_def)
  then obtain out where "?main = Some out" by blast
  with exchange_never_panics [OF this] show ?thesis by auto
qed

text \<open>Decimal numerals, for the round trip of the ticker list.\<close>

fun join_with :: "char \<Rightarrow> string list \<Rightarrow> string" where
  "join_with d [] = []"
| "join_with d [w] = w"
| "join_with d (w # ws) = w @ d # join_with d ws"

definition is_digit :: "char \<Rightarrow> bool" where
  "is_digit c \<longleftrightarrow> of_char c \<in> {48..57 :: nat}"

lemma digit_char: "d < 10 \<Longrightarrow> is_digit (char_of (48 + d :: nat))" "d < 10 \<Longrightarrow> digit_value (char_of (48 + d)) = Some d"
  by (simp_all add: is_digit_def digit_value_def)

lemma show_nat_digits: "list_all is_digit (show_nat n)" "show_nat n \<noteq> []"
  by (induction n rule: show_nat.induct) (subst show_nat.simps, simp add: digit_char)+

lemma parse_digits_append:
  "parse_digits (xs @ ys) acc = (case parse_digits xs acc of None \<Rightarrow> None | Some a \<Rightarrow> parse_digits ys a)"
  by (induction xs arbitrary: acc) (auto split: option.split)

lemma parse_show_nat: "parse_digits (show_nat n) 0 = Some n"
proof (induction n rule: show_nat.induct)
  case (1 n)
  show ?case
  proof (cases "n < 10")
    case True
    then show ?thesis by (simp add: show_nat.simps digit_char)
  next
    case False
    then show ?thesis using 1 by (subst show_nat.simps) (simp add: parse_digits_append digit_char)
  qed
qed

lemma split_on_word: "list_all is_digit w \<Longrightarrow> split_on (CHR '','') (w @ CHR '','' # s) = w # split_on (CHR '','') s"
  and split_on_single: "list_all is_digit w \<Longrightarrow> split_on (CHR '','') w = [w]"
  by (induction w) (auto simp: is_digit_def)

lemma split_join:
  "ws \<noteq> [] \<Longrightarrow> list_all (list_all is_digit) ws \<Longrightarrow> split_on (CHR '','') (join_with (CHR '','') ws) = ws"
proof (induction ws)
  case (Cons w ws)
  then show ?case by (cases ws) (simp_all add: split_on_word split_on_single)
qed simp

lemma trim_digits: "list_all is_digit w \<Longrightarrow> trim w = w"
proof -
  have "list_all is_digit w \<Longrightarrow> dropWhile is_space w = w" for w
    by (cases w) (auto simp: is_digit_def is_space_def)
  moreover assume "list_all is_digit w"
  ultimately show ?thesis by (simp add: trim_def list_all_iff)
qed

lemma parse_show_u32: "parse_u32 (show_nat (unat t)) = Some t"
proof -
  have "hd (show_nat (unat t)) \<noteq> CHR ''+''"
    using show_nat_digits [of "unat t"] by (cases "show_nat (unat t)") (auto simp: is_digit_def)
  then show ?thesis
    using show_nat_digits(2) [of "unat t"] parse_show_nat [of "unat t"] unsigned_less [of t, where 'a = nat]
    by (cases "show_nat (unat t)") (auto simp: parse_u32_def Let_def)
qed

text \<open>The ticker list round-trips: for every non-empty list of 32-bit ids, parsing their
  decimal numerals joined by commas returns exactly these ids in order.\<close>

lemma parse_tickers_roundtrip:
  "parse_tickers (join_with (CHR '','') (map (\<lambda>t. show_nat (unat t)) (t # ts))) = t # ts"
proof -
  let ?ws = "map (\<lambda>t. show_nat (unat (t :: u32))) (t # ts)"
  have "list_all (list_all is_digit) ?ws" by (simp add: list_all_iff show_nat_digits(1) [unfolded list_all_iff])
  then have "split_on (CHR '','') (join_with (CHR '','') ?ws) = ?ws" by (intro split_join) simp_all
  moreover have "List.map_filter (\<lambda>s. parse_u32 (trim s)) (map (\<lambda>t. show_nat (unat t)) us) = us" for us
    by (induction us) (simp_all add: List.map_filter_simps trim_digits show_nat_digits(1) parse_show_u32)
  ultimately show ?thesis by (simp add: parse_tickers_def del: list.map)
qed

end
