(* ===== verification/MarketData.thy ===== *)
theory MarketData
  imports Net BestQuote
begin

text \<open>
  The market data receiver of \<open>trading/src/market_data.rs\<close>: it decodes datagrams and keeps the
  best bid and offer of each ticker, with \<open>INVALID_PRICE\<close> for a side that was never quoted. A
  subscriber is an opaque callback; the model identifies it by a number and returns the calls
  that are made, in order. Draining the socket is a partial function: \<open>None\<close> stands for a socket
  that never stops delivering.
\<close>

section \<open>The model\<close>

record BBO =
  bb_bid_price :: Price
  bb_bid_qty :: Qty
  bb_ask_price :: Price
  bb_ask_qty :: Qty

definition BBO_new :: BBO where
  "BBO_new = \<lparr>bb_bid_price = INVALID_PRICE, bb_bid_qty = 0, bb_ask_price = INVALID_PRICE, bb_ask_qty = 0\<rparr>"

definition has_bid :: "BBO \<Rightarrow> bool" where
  "has_bid b \<longleftrightarrow> bb_bid_price b \<noteq> INVALID_PRICE \<and> 0 < bb_bid_qty b"

definition has_ask :: "BBO \<Rightarrow> bool" where
  "has_ask b \<longleftrightarrow> bb_ask_price b \<noteq> INVALID_PRICE \<and> 0 < bb_ask_qty b"

definition BBO_is_valid :: "BBO \<Rightarrow> bool" where
  "BBO_is_valid b \<longleftrightarrow> has_bid b \<and> has_ask b"

definition spread :: "BBO \<Rightarrow> Price option" where
  "spread b = (if BBO_is_valid b then Some (bb_ask_price b - bb_bid_price b) else None)"

definition mid_price :: "BBO \<Rightarrow> Price option" where
  "mid_price b = (if BBO_is_valid b then Some (trunc_div (bb_bid_price b + bb_ask_price b) 2) else None)"

type_synonym notification = "nat \<times> TickerId \<times> MarketUpdate \<times> BBO"

record 's MarketDataReceiver =
  md_socket :: 's
  md_bbo :: "(TickerId, BBO) fmap"
  md_subscribers :: "nat list"
  md_last_seq :: u64

definition MarketDataReceiver_new ::
  "'s socket_api \<Rightarrow> string \<Rightarrow> u16 \<Rightarrow> string \<Rightarrow> 's MarketDataReceiver io" where
  "MarketDataReceiver_new api multicast_addr port interface =
     (case MulticastSocket_join_group api multicast_addr port interface of
        Inl e \<Rightarrow> Inl e
      | Inr socket \<Rightarrow>
          (case MulticastSocket_set_nonblocking api True socket of
             (Inl e, _) \<Rightarrow> Inl e
           | (Inr _, socket) \<Rightarrow>
               Inr \<lparr>md_socket = socket, md_bbo = fmempty, md_subscribers = [], md_last_seq = 0\<rparr>))"

definition md_poll :: "'s socket_api \<Rightarrow> 's MarketDataReceiver \<Rightarrow> MarketUpdate option \<times> 's MarketDataReceiver" where
  "md_poll api r =
     (case MulticastSocket_try_recv api (md_socket r) of (res, socket) \<Rightarrow>
        ((case res of
            Inr (Some data) \<Rightarrow>
              if MARKET_UPDATE_SIZE \<le> length data
              then MarketUpdate_from_bytes (take MARKET_UPDATE_SIZE data) else None
          | Inr None \<Rightarrow> None
          | Inl _ \<Rightarrow> None),
         r\<lparr>md_socket := socket\<rparr>))"

definition quote_bid :: "Price \<Rightarrow> Qty \<Rightarrow> BBO \<Rightarrow> BBO" where
  "quote_bid price qty b =
     (if bb_bid_price b <s price \<or> bb_bid_price b = INVALID_PRICE
      then b\<lparr>bb_bid_price := price, bb_bid_qty := qty\<rparr>
      else if price = bb_bid_price b then b\<lparr>bb_bid_qty := qty\<rparr> else b)"

definition quote_ask :: "Price \<Rightarrow> Qty \<Rightarrow> BBO \<Rightarrow> BBO" where
  "quote_ask price qty b =
     (if price <s bb_ask_price b \<or> bb_ask_price b = INVALID_PRICE
      then b\<lparr>bb_ask_price := price, bb_ask_qty := qty\<rparr>
      else if price = bb_ask_price b then b\<lparr>bb_ask_qty := qty\<rparr> else b)"

definition cancel_qty :: "Qty \<Rightarrow> Qty \<Rightarrow> Qty" where
  "cancel_qty qty have_qty = (if qty = 0 \<or> have_qty \<le> qty then 0 else saturating_sub have_qty qty)"

definition update_bbo :: "MarketUpdateType \<Rightarrow> MarketUpdate \<Rightarrow> BBO \<Rightarrow> BBO" where
  "update_bbo ty update b =
     (let side = mu_side update; price = mu_price update; qty = mu_qty update in
      case ty of
        UCancel \<Rightarrow>
          if side = side_i8 Buy \<and> price = bb_bid_price b
          then b\<lparr>bb_bid_qty := cancel_qty qty (bb_bid_qty b)\<rparr>
          else if side = side_i8 Sell \<and> price = bb_ask_price b
          then b\<lparr>bb_ask_qty := cancel_qty qty (bb_ask_qty b)\<rparr>
          else b
      | UTrade \<Rightarrow>
          if side = side_i8 Buy \<and> price = bb_ask_price b
          then b\<lparr>bb_ask_qty := saturating_sub (bb_ask_qty b) qty\<rparr>
          else if side = side_i8 Sell \<and> price = bb_bid_price b
          then b\<lparr>bb_bid_qty := saturating_sub (bb_bid_qty b) qty\<rparr>
          else b
      | UClear \<Rightarrow> BBO_new
      | _ \<Rightarrow>
          if side = side_i8 Buy then quote_bid price qty b
          else if side = side_i8 Sell then quote_ask price qty b
          else b)"

definition process_update ::
  "MarketUpdate \<Rightarrow> 's MarketDataReceiver \<Rightarrow> notification list \<times> 's MarketDataReceiver" where
  "process_update update r =
     (case update_type update of
        None \<Rightarrow> ([], r)
      | Some ty \<Rightarrow>
          let ticker_id = mu_ticker_id update;
              bbo = update_bbo ty update (get_or (md_bbo r) ticker_id BBO_new)
          in (map (\<lambda>s. (s, ticker_id, update, bbo)) (md_subscribers r),
              r\<lparr>md_bbo := fmupd ticker_id bbo (md_bbo r)\<rparr>))"

definition get_bbo :: "'s MarketDataReceiver \<Rightarrow> TickerId \<Rightarrow> BBO option" where
  "get_bbo r ticker_id = fmlookup (md_bbo r) ticker_id"

text \<open>\<open>get_bbo_mut\<close>: the caller changes the entry, if there is one, through the reference.\<close>

definition get_bbo_mut :: "TickerId \<Rightarrow> (BBO \<Rightarrow> BBO) \<Rightarrow> 's MarketDataReceiver \<Rightarrow> 's MarketDataReceiver" where
  "get_bbo_mut ticker_id f r =
     (case fmlookup (md_bbo r) ticker_id of
        Some b \<Rightarrow> r\<lparr>md_bbo := fmupd ticker_id (f b) (md_bbo r)\<rparr>
      | None \<Rightarrow> r)"

definition subscribe :: "nat \<Rightarrow> 's MarketDataReceiver \<Rightarrow> 's MarketDataReceiver" where
  "subscribe callback r = r\<lparr>md_subscribers := md_subscribers r @ [callback]\<rparr>"

definition md_ticker_count :: "'s MarketDataReceiver \<Rightarrow> nat" where
  "md_ticker_count r = hm_len (md_bbo r)"

text \<open>\<open>count\<close> and the notifications so far are the accumulators of the loop.\<close>

partial_function (option) poll_and_process ::
  "'s socket_api \<Rightarrow> 's MarketDataReceiver \<Rightarrow> usize \<Rightarrow> notification list \<Rightarrow>
    (usize \<times> notification list \<times> 's MarketDataReceiver) option" where
  "poll_and_process api r count calls =
     (case md_poll api r of
        (None, r) \<Rightarrow> Some (count, calls, r)
      | (Some update, r) \<Rightarrow>
          (case process_update update r of (ns, r) \<Rightarrow>
             poll_and_process api r (count + 1) (calls @ ns)))"

definition reserve_tickers :: "TickerId list \<Rightarrow> 's MarketDataReceiver \<Rightarrow> 's MarketDataReceiver" where
  "reserve_tickers tickers r =
     r\<lparr>md_bbo := fold (\<lambda>t m. fmupd t (get_or m t BBO_new) m) tickers (md_bbo r)\<rparr>"

section \<open>The tracked best prices\<close>

definition bbo_bid :: "BBO \<Rightarrow> Price \<times> Qty" where
  "bbo_bid b = (bb_bid_price b, bb_bid_qty b)"

definition bbo_ask :: "BBO \<Rightarrow> Price \<times> Qty" where
  "bbo_ask b = (bb_ask_price b, bb_ask_qty b)"

interpretation rcv_bid: quote_tracker quote_bid bbo_bid sint INVALID_PRICE
  by unfold_locales (simp_all add: signed_word_eqI quote_step_def bbo_bid_def quote_bid_def word_sless_alt)

interpretation rcv_ask: quote_tracker quote_ask bbo_ask "\<lambda>p. - sint p" INVALID_PRICE
  by unfold_locales (auto simp: signed_word_eqI quote_step_def bbo_ask_def quote_ask_def word_sless_alt)

definition is_quote :: "MarketUpdate \<Rightarrow> bool" where
  "is_quote u \<longleftrightarrow> update_type u \<in> {Some UAdd, Some UModify, Some USnapshot}"

definition valid_quote :: "MarketUpdate \<Rightarrow> bool" where
  "valid_quote u \<longleftrightarrow> is_quote u \<and> mu_price u \<noteq> INVALID_PRICE"

definition ticker_updates :: "TickerId \<Rightarrow> MarketUpdate list \<Rightarrow> MarketUpdate list" where
  "ticker_updates t us = filter (\<lambda>u. mu_ticker_id u = t) us"

definition process_all :: "MarketUpdate list \<Rightarrow> 's MarketDataReceiver \<Rightarrow> 's MarketDataReceiver" where
  "process_all us r = fold (\<lambda>u r. snd (process_update u r)) us r"

lemma bbo_other_side [simp]:
  "bbo_ask (quote_bid p q b) = bbo_ask b" "bbo_bid (quote_ask p q b) = bbo_bid b"
  by (simp_all add: bbo_ask_def bbo_bid_def quote_bid_def quote_ask_def)

lemma update_bbo_quote:
  assumes "update_type u = Some ty" "ty \<in> {UAdd, UModify, USnapshot}"
  shows "update_bbo ty u b = (if mu_side u = side_i8 Buy then quote_bid (mu_price u) (mu_qty u) b
    else if mu_side u = side_i8 Sell then quote_ask (mu_price u) (mu_qty u) b else b)"
  using assms by (auto simp: update_bbo_def Let_def)

lemma process_quote:
  assumes "is_quote u"
  shows "get_or (md_bbo (snd (process_update u r))) t BBO_new =
    (if mu_ticker_id u = t
     then (if mu_side u = side_i8 Buy then quote_bid (mu_price u) (mu_qty u) (get_or (md_bbo r) t BBO_new)
           else if mu_side u = side_i8 Sell then quote_ask (mu_price u) (mu_qty u) (get_or (md_bbo r) t BBO_new)
           else get_or (md_bbo r) t BBO_new)
     else get_or (md_bbo r) t BBO_new)"
proof -
  obtain ty where ty: "update_type u = Some ty" "ty \<in> {UAdd, UModify, USnapshot}"
    using assms by (auto simp: is_quote_def)
  show ?thesis
    using update_bbo_quote [OF ty, of "get_or (md_bbo r) (mu_ticker_id u) BBO_new"] ty(1)
    by (auto simp: process_update_def Let_def get_or_def simp del: side_i8.simps)
qed

lemma bbo_fold:
  assumes "list_all is_quote us"
  shows "bbo_bid (get_or (md_bbo (process_all us r)) t BBO_new) =
      fold (quote_step sint INVALID_PRICE) (map price_qty (side_updates Buy (ticker_updates t us)))
        (bbo_bid (get_or (md_bbo r) t BBO_new))"
    and "bbo_ask (get_or (md_bbo (process_all us r)) t BBO_new) =
      fold (quote_step (\<lambda>p. - sint p) INVALID_PRICE) (map price_qty (side_updates Sell (ticker_updates t us)))
        (bbo_ask (get_or (md_bbo r) t BBO_new))"
  using assms
  by (induction us arbitrary: r)
    (auto simp: process_all_def process_quote side_updates_def ticker_updates_def rcv_bid.best_upd
      rcv_ask.best_upd price_qty_def)

lemma quotes_valid:
  "list_all valid_quote us \<Longrightarrow>
   \<forall>pq \<in> set (map price_qty (side_updates sd (ticker_updates t us))). fst pq \<noteq> INVALID_PRICE"
  by (auto simp: list_all_iff valid_quote_def side_updates_def ticker_updates_def price_qty_def)

lemma bbo_new_sides [simp]: "bbo_bid BBO_new = (INVALID_PRICE, 0)" "bbo_ask BBO_new = (INVALID_PRICE, 0)"
  by (simp_all add: bbo_bid_def bbo_ask_def BBO_new_def)

section \<open>Draining the socket\<close>

text \<open>The socket delivers the encodings of \<open>us\<close>, one datagram each (possibly with trailing
  bytes), and then has no more data or fails.\<close>

primrec delivers :: "'s socket_api \<Rightarrow> MarketUpdate list \<Rightarrow> 's \<Rightarrow> bool" where
  "delivers api [] s = (\<forall>data. fst (MulticastSocket_try_recv api s) \<noteq> Inr (Some data))"
| "delivers api (u # us) s =
     (\<exists>rest s'. MulticastSocket_try_recv api s = (Inr (Some (MarketUpdate_as_bytes u @ rest)), s') \<and>
        delivers api us s')"

lemma md_poll_delivers:
  "delivers api [] (md_socket r) \<Longrightarrow> \<exists>s'. md_poll api r = (None, r\<lparr>md_socket := s'\<rparr>)"
  "delivers api (u # us) (md_socket r) \<Longrightarrow>
     \<exists>s'. md_poll api r = (Some u, r\<lparr>md_socket := s'\<rparr>) \<and> delivers api us s'"
proof -
  assume "delivers api [] (md_socket r)"
  then show "\<exists>s'. md_poll api r = (None, r\<lparr>md_socket := s'\<rparr>)"
    by (cases "MulticastSocket_try_recv api (md_socket r)")
      (auto simp: md_poll_def split: sum.splits option.splits)
next
  assume "delivers api (u # us) (md_socket r)"
  then obtain rest s' where "MulticastSocket_try_recv api (md_socket r) =
      (Inr (Some (MarketUpdate_as_bytes u @ rest)), s')" "delivers api us s'" by auto
  then show "\<exists>s'. md_poll api r = (Some u, r\<lparr>md_socket := s'\<rparr>) \<and> delivers api us s'"
    using mu.enc_len [of u] mu.dec_enc [of u] by (intro exI [where x = s']) (simp add: md_poll_def)
qed

lemma process_update_socket:
  "snd (process_update u (r\<lparr>md_socket := s\<rparr>)) = (snd (process_update u r))\<lparr>md_socket := s\<rparr>"
  "fst (process_update u (r\<lparr>md_socket := s\<rparr>)) = fst (process_update u r)"
  "md_subscribers (snd (process_update u r)) = md_subscribers r"
  "md_socket (snd (process_update u r)) = md_socket r"
  by (simp_all add: process_update_def Let_def split: option.split)

lemma process_all_socket: "md_bbo (process_all us (r\<lparr>md_socket := s\<rparr>)) = md_bbo (process_all us r)"
proof (induction us arbitrary: r)
  case (Cons u us)
  then show ?case by (simp add: process_all_def process_update_socket)
qed (simp add: process_all_def)

lemma poll_and_process_delivers:
  assumes "delivers api us (md_socket r)"
  shows "\<exists>calls' r'. poll_and_process api r n calls = Some (n + of_nat (length us), calls', r') \<and>
    md_bbo r' = md_bbo (process_all us r)"
  using assms
proof (induction us arbitrary: r n calls)
  case Nil
  obtain s' where "md_poll api r = (None, r\<lparr>md_socket := s'\<rparr>)" using md_poll_delivers(1) [OF Nil] by blast
  then show ?case by (simp add: poll_and_process.simps [of api r] process_all_def)
next
  case (Cons u us)
  obtain s' where s': "md_poll api r = (Some u, r\<lparr>md_socket := s'\<rparr>)" "delivers api us s'"
    using md_poll_delivers(2) [OF Cons.prems] by blast
  let ?r = "snd (process_update u (r\<lparr>md_socket := s'\<rparr>))"
  have "delivers api us (md_socket ?r)" using s'(2) by (simp add: process_update_socket)
  from Cons.IH [OF this] obtain calls' r' where
    "poll_and_process api ?r (n + 1) (calls @ fst (process_update u (r\<lparr>md_socket := s'\<rparr>))) =
       Some (n + 1 + of_nat (length us), calls', r')" "md_bbo r' = md_bbo (process_all us ?r)" by blast
  moreover have "md_bbo (process_all us ?r) = md_bbo (process_all (u # us) r)"
    using process_all_socket [where us = us and r = "snd (process_update u r)" and s = s']
    by (simp add: process_update_socket) (simp add: process_all_def)
  ultimately show ?case
    using s'(1) by (simp add: poll_and_process.simps [of api r] split_beta algebra_simps)
qed

section \<open>Properties\<close>

text \<open>On quoting updates (adds, modifications and snapshots with valid prices), however the
  tickers are interleaved, the receiver's view of each ticker is exact: the bid is the greatest
  buy quote of that ticker and the ask the least sell quote, each with the quantity of the last
  quote at that price, and a side never quoted has no price.\<close>

theorem receiver_best_prices:
  assumes "list_all valid_quote us" "md_bbo r = fmempty"
  shows "let b = get_or (md_bbo (process_all us r)) t BBO_new;
             bids = side_updates Buy (ticker_updates t us); asks = side_updates Sell (ticker_updates t us)
         in (if bids = [] then \<not> has_bid b
             else sint (bb_bid_price b) = Max ((\<lambda>u. sint (mu_price u)) ` set bids) \<and>
               bb_bid_qty b = mu_qty (last (filter (\<lambda>u. mu_price u = bb_bid_price b) bids))) \<and>
            (if asks = [] then \<not> has_ask b
             else sint (bb_ask_price b) = Min ((\<lambda>u. sint (mu_price u)) ` set asks) \<and>
               bb_ask_qty b = mu_qty (last (filter (\<lambda>u. mu_price u = bb_ask_price b) asks)))"
proof -
  let ?b = "get_or (md_bbo (process_all us r)) t BBO_new"
  have sides: "fst (bbo_bid ?b) = bb_bid_price ?b" "snd (bbo_bid ?b) = bb_bid_qty ?b"
    "fst (bbo_ask ?b) = bb_ask_price ?b" "snd (bbo_ask ?b) = bb_ask_qty ?b"
    by (simp_all add: bbo_bid_def bbo_ask_def)
  have new: "get_or (md_bbo r) t BBO_new = BBO_new" using assms(2) by simp
  have "list_all is_quote us" using assms(1) by (simp add: list_all_iff valid_quote_def)
  note f = bbo_fold [OF this, of r t, unfolded new bbo_new_sides]
  have "side_updates Buy (ticker_updates t us) \<noteq> [] \<Longrightarrow>
      is_best_quote sint (map price_qty (side_updates Buy (ticker_updates t us))) (bbo_bid ?b)"
    "side_updates Sell (ticker_updates t us) \<noteq> [] \<Longrightarrow>
      is_best_quote (\<lambda>p. - sint p) (map price_qty (side_updates Sell (ticker_updates t us))) (bbo_ask ?b)"
    using rcv_bid.fold_best [OF _ quotes_valid [OF assms(1)], of Buy t "(INVALID_PRICE, 0)"]
      rcv_ask.fold_best [OF _ quotes_valid [OF assms(1)], of Sell t "(INVALID_PRICE, 0)"]
    by (simp_all add: f)
  moreover have "side_updates Buy (ticker_updates t us) = [] \<Longrightarrow> \<not> has_bid ?b"
    "side_updates Sell (ticker_updates t us) = [] \<Longrightarrow> \<not> has_ask ?b"
    using f sides by (simp_all add: has_bid_def has_ask_def)
  ultimately show ?thesis
    using is_best_quote_updates [of sint _ "bbo_bid ?b"] is_best_quote_updates [of "\<lambda>p. - sint p" _ "bbo_ask ?b"] sides
    unfolding Let_def by simp
qed

theorem receiver_best_prices_witness:
  "let r = \<lparr>md_socket = (), md_bbo = fmempty, md_subscribers = [], md_last_seq = 0\<rparr>;
       us = [MarketUpdate_new UAdd 1 1 1 100 10 1, MarketUpdate_new UAdd 2 2 1 500 20 2,
             MarketUpdate_new UAdd 1 3 1 101 30 3];
       b = get_or (md_bbo (process_all us r)) 1 BBO_new
   in sint (bb_bid_price b) = 101 \<and> \<not> has_ask b"
proof -
  let ?r = "\<lparr>md_socket = (), md_bbo = fmempty, md_subscribers = [], md_last_seq = 0\<rparr>"
  let ?us = "[MarketUpdate_new UAdd 1 1 1 100 10 1, MarketUpdate_new UAdd 2 2 1 500 20 2,
    MarketUpdate_new UAdd 1 3 1 101 30 3]"
  have q: "list_all valid_quote ?us" by (simp add: valid_quote_def is_quote_def INVALID_PRICE_def)
  have e: "md_bbo ?r = fmempty" by simp
  have "side_updates Buy (ticker_updates 1 ?us) =
      [MarketUpdate_new UAdd 1 1 1 100 10 1, MarketUpdate_new UAdd 1 3 1 101 30 3]"
    "side_updates Sell (ticker_updates 1 ?us) = []" by (simp_all add: side_updates_def ticker_updates_def)
  with receiver_best_prices [OF q e, of 1] show ?thesis unfolding Let_def by simp
qed

text \<open>\<open>poll_and_process\<close> terminates once the socket has nothing more to deliver: after the
  datagrams of \<open>n\<close> updates it returns \<open>n\<close>, having applied exactly these updates in order.\<close>

lemma drain_terminates:
  assumes "delivers api us (md_socket r)"
  shows "\<exists>calls r'. poll_and_process api r 0 [] = Some (of_nat (length us), calls, r') \<and>
    md_bbo r' = md_bbo (process_all us r)"
  using poll_and_process_delivers [OF assms, of 0 "[]"] by simp

lemma drain_terminates_witness:
  "\<exists>r us calls r'. us = [MarketUpdate_new UAdd 1 1 1 100 10 1] \<and>
     sc_incoming (md_socket r) = [Inr (MarketUpdate_as_bytes (hd us))] \<and>
     poll_and_process script_api r 0 [] = Some (1, calls, r') \<and> md_bbo r' = md_bbo (process_all us r)"
proof -
  let ?us = "[MarketUpdate_new UAdd 1 1 1 100 10 1]"
  let ?r = "\<lparr>md_socket = \<lparr>sc_mode = True, sc_incoming = [Inr (MarketUpdate_as_bytes (hd ?us))], sc_sent = [],
      sc_pending = []\<rparr>, md_bbo = fmempty, md_subscribers = [], md_last_seq = 0\<rparr>"
  have "delivers script_api ?us (md_socket ?r)"
    by (simp add: script_defs)
  from drain_terminates [OF this] obtain calls r' where
    "poll_and_process script_api ?r 0 [] = Some (1, calls, r')" "md_bbo r' = md_bbo (process_all ?us ?r)" by auto
  then show ?thesis by (intro exI [where x = ?r] exI [where x = ?us] exI [where x = calls] exI [where x = r']) simp
qed

text \<open>On a valid, uncrossed book of prices below \<open>2 ^ 62\<close> in size the spread is the exact
  difference of the two prices and the mid price lies between bid and ask.\<close>

lemma mid_price_between:
  assumes "BBO_is_valid b" "sint (bb_bid_price b) \<le> sint (bb_ask_price b)"
    and "\<bar>sint (bb_bid_price b)\<bar> < 2 ^ 62" "\<bar>sint (bb_ask_price b)\<bar> < 2 ^ 62"
  shows "\<exists>s m. spread b = Some s \<and> mid_price b = Some m \<and>
    sint s = sint (bb_ask_price b) - sint (bb_bid_price b) \<and>
    sint (bb_bid_price b) \<le> sint m \<and> sint m \<le> sint (bb_ask_price b)"
proof -
  let ?B = "sint (bb_bid_price b)" and ?A = "sint (bb_ask_price b)"
  have f: "fits_i64 (?A - ?B)" "fits_i64 (?B + ?A)"
    using assms by (auto simp: fits_i64_def)
  have "?B \<le> sint (trunc_div (bb_bid_price b + bb_ask_price b) 2)"
    "sint (trunc_div (bb_bid_price b + bb_ask_price b) 2) \<le> ?A"
    using sint_average [OF f(2)] assms(2) by simp_all
  with f(1) assms(1) show ?thesis by (simp add: spread_def mid_price_def sint_diff_i64)
qed

lemma mid_price_between_witness:
  "\<exists>s m. spread \<lparr>bb_bid_price = 100, bb_bid_qty = 1, bb_ask_price = 103, bb_ask_qty = 2\<rparr> = Some s \<and>
     mid_price \<lparr>bb_bid_price = 100, bb_bid_qty = 1, bb_ask_price = 103, bb_ask_qty = 2\<rparr> = Some m \<and>
     sint s = 3 \<and> 100 \<le> sint m \<and> sint m \<le> 103"
proof -
  let ?b = "\<lparr>bb_bid_price = 100, bb_bid_qty = 1, bb_ask_price = 103, bb_ask_qty = 2\<rparr>"
  have "BBO_is_valid ?b" "sint (bb_bid_price ?b) \<le> sint (bb_ask_price ?b)"
    "\<bar>sint (bb_bid_price ?b)\<bar> < 2 ^ 62" "\<bar>sint (bb_ask_price ?b)\<bar> < 2 ^ 62"
    by (simp_all add: BBO_is_valid_def has_bid_def has_ask_def INVALID_PRICE_def word_less_nat_alt)
  from mid_price_between [OF this] show ?thesis by simp
qed

text \<open>A cancelled best bid keeps its price with quantity 0 and hides every lower bid that is
  quoted later.\<close>

lemma stale_bid_hides_quotes:
  "let us = [MarketUpdate_new UAdd 1 1 1 101 10 1, MarketUpdate_new UCancel 1 1 1 101 10 1,
             MarketUpdate_new UAdd 1 2 1 100 20 2];
       b = get_or (md_bbo (process_all us \<lparr>md_socket = (), md_bbo = fmempty, md_subscribers = [], md_last_seq = 0\<rparr>)) 1 BBO_new
   in bb_bid_price b = 101 \<and> \<not> has_bid b"
  by (simp add: Let_def process_all_def process_update_def update_bbo_def quote_bid_def BBO_new_def get_or_def
      cancel_qty_def has_bid_def INVALID_PRICE_def word_sless_alt)

end
