(* ===== verification/Feed.thy ===== *)
theory Feed
  imports Exchange MarketData
begin

text \<open>
  The market data path across the two processes: the event loop of \<open>exchange/src/main.rs\<close> hands
  the engine's updates to the publisher of \<open>exchange/src/market_data.rs\<close>, whose datagrams the
  receiver of \<open>trading/src/market_data.rs\<close> decodes. The lemmas follow the datagrams through a
  ghost log of the multicast socket, show that the publisher's tracked state and the receiver's
  view stay equal while orders are only added, and compare both with the books of the engine.
\<close>

section \<open>What reaches the multicast socket\<close>

text \<open>The ghost log of a socket holds the datagrams it accepted; a refused one is not in it. A
  socket that accepts everything is the case of a network without send errors.\<close>

definition dgram_logs :: "'s socket_api \<Rightarrow> ('s \<Rightarrow> u8 list list) \<Rightarrow> bool" where
  "dgram_logs api wire \<longleftrightarrow>
     (\<forall>d a s. wire (snd (sk_send_to api d a s)) =
        wire s @ (case fst (sk_send_to api d a s) of Inl _ \<Rightarrow> [] | Inr _ \<Rightarrow> [d]))"

definition never_refuses :: "'s socket_api \<Rightarrow> bool" where
  "never_refuses api \<longleftrightarrow> (\<forall>d a s. \<exists>n. fst (sk_send_to api d a s) = Inr n)"

lemma script_dgrams: "dgram_logs script_api sc_sent" "never_refuses script_api"
  by (simp_all add: dgram_logs_def never_refuses_def script_api_def)

lemma send_to_log:
  assumes "dgram_logs api wire" "MulticastSocket_send_to api d addr port s = (r, s')"
  shows "wire s' = wire s @ (case r of Inl _ \<Rightarrow> [] | Inr _ \<Rightarrow> [d])"
proof (cases "addr_or_err addr")
  case (Inl e)
  then show ?thesis using assms(2) by (auto simp: MulticastSocket_send_to_def sbind_def sret_def)
next
  case (Inr a)
  then have "sk_send_to api d (SockV4 a port) s = (r, s')"
    using assms(2) by (simp add: MulticastSocket_send_to_def sbind_def sret_def)
  with assms(1) show ?thesis unfolding dgram_logs_def by (metis fst_conv snd_conv)
qed

lemma send_to_accepted:
  assumes "never_refuses api" "parse_ipv4 addr \<noteq> None"
  shows "\<exists>n. fst (MulticastSocket_send_to api d addr port s) = Inr n"
  using assms
  by (auto simp: MulticastSocket_send_to_def sbind_def sret_def never_refuses_def addr_or_err_def)

lemma send_all_log:
  assumes "dgram_logs api wire" "send_all api us n p = (r, p')"
  shows "\<exists>m. wire (mp_socket p') = wire (mp_socket p) @ map MarketUpdate_as_bytes (take m us) \<and>
    (\<forall>k. r = Inr k \<longrightarrow> take m us = us)"
  using assms(2)
proof (induction us arbitrary: n p)
  case Nil
  then show ?case by auto
next
  case (Cons u us)
  obtain r1 s1 where 1: "MulticastSocket_send_to api (MarketUpdate_as_bytes u) (mc_multicast_addr (mp_config p))
      (mc_port (mp_config p)) (mp_socket p) = (r1, s1)" by force
  note log1 = send_to_log [OF assms(1) 1]
  show ?case
  proof (cases r1)
    case (Inl e)
    then have "r = Inl e" "mp_socket p' = s1" using Cons.prems 1 by (auto simp: send_update_def)
    with Inl log1 show ?thesis by (intro exI [where x = 0]) simp
  next
    case (Inr k)
    then have "send_all api us (n + of_nat k) (p\<lparr>mp_socket := s1\<rparr>) = (r, p')"
      using Cons.prems 1 by (simp add: send_update_def)
    from Cons.IH [OF this] obtain m where
      "wire (mp_socket p') = wire s1 @ map MarketUpdate_as_bytes (take m us)" "\<forall>k. r = Inr k \<longrightarrow> take m us = us"
      by auto
    with Inr log1 show ?thesis by (intro exI [where x = "Suc m"]) simp
  qed
qed

text \<open>A publication sends nothing if its update is refused, and otherwise the update followed by
  a part of the snapshot of the state it leaves, which is all of it unless a send fails.\<close>

lemma publish_log:
  assumes "dgram_logs api wire" "publish api ks u p = (r, p')"
  shows "mp_config p' = mp_config p" "mp_ticker_state p' = mp_ticker_state (tracked u p)"
    "\<exists>ws. wire (mp_socket p') = wire (mp_socket p) @ map MarketUpdate_as_bytes ws \<and>
       (ws = [] \<and> \<not> (never_refuses api \<and> parse_ipv4 (mc_multicast_addr (mp_config p)) \<noteq> None) \<or>
        (\<exists>m. ws = u # take m (all_snapshots p' ks)))"
proof -
  obtain r1 s1 where 1: "MulticastSocket_send_to api (MarketUpdate_as_bytes u) (mc_multicast_addr (mp_config p))
      (mc_port (mp_config p)) (mp_socket p) = (r1, s1)" by force
  note log1 = send_to_log [OF assms(1) 1]
  have "mp_config p' = mp_config p \<and> mp_ticker_state p' = mp_ticker_state (tracked u p) \<and>
    (\<exists>ws. wire (mp_socket p') = wire (mp_socket p) @ map MarketUpdate_as_bytes ws \<and>
       (ws = [] \<and> \<not> (never_refuses api \<and> parse_ipv4 (mc_multicast_addr (mp_config p)) \<noteq> None) \<or>
        (\<exists>m. ws = u # take m (all_snapshots p' ks))))"
  proof (cases r1)
    case (Inl e)
    then have "\<not> (never_refuses api \<and> parse_ipv4 (mc_multicast_addr (mp_config p)) \<noteq> None)"
      using send_to_accepted [of api "mc_multicast_addr (mp_config p)" "MarketUpdate_as_bytes u"
          "mc_port (mp_config p)" "mp_socket p"] 1 by auto
    moreover have "p' = (tracked u p)\<lparr>mp_socket := s1\<rparr>" using publish_cases(1) [OF 1 Inl, of ks] assms(2) by simp
    ultimately show ?thesis using Inl log1 by auto
  next
    case (Inr sent)
    let ?p = "counted (of_nat sent) ((tracked u p)\<lparr>mp_socket := s1\<rparr>)"
    have p: "mp_socket ?p = s1" "mp_ticker_state ?p = mp_ticker_state (tracked u p)" by (simp_all add: counted_def)
    show ?thesis
    proof (cases "snapshot_due ?p")
      case False
      then have "p' = ?p" using assms(2) by (simp add: publish_cases(2) [OF 1 Inr] Let_def)
      with p Inr log1 show ?thesis
        by (intro conjI exI [where x = "[u]"] disjI2 exI [where x = 0]) simp_all
    next
      case True
      obtain r2 p2 where 2: "send_all api (all_snapshots ?p ks) 0 ?p = (r2, p2)" by force
      then have p': "p' = p2 \<or> p' = p2\<lparr>mp_updates_since_snapshot := 0\<rparr>"
        using True assms(2) by (cases r2) (auto simp: publish_cases(2) [OF 1 Inr] Let_def publish_snapshot_def snapshot_loop_eq)
      obtain m where m: "wire (mp_socket p2) = wire s1 @ map MarketUpdate_as_bytes (take m (all_snapshots ?p ks))"
        using send_all_log [OF assms(1) 2] p(1) by auto
      have f: "mp_config p' = mp_config ?p" "mp_ticker_state p' = mp_ticker_state ?p" "mp_sequence p' = mp_sequence ?p"
        "mp_socket p' = mp_socket p2" using send_all_fields [OF 2] p' by auto
      then have "all_snapshots p' ks = all_snapshots ?p ks" by (simp add: all_snapshots_def)
      with f p m log1 Inr show ?thesis
        by (intro conjI exI [where x = "u # take m (all_snapshots ?p ks)"] disjI2 exI [where x = m]) simp_all
    qed
  qed
  then show "mp_config p' = mp_config p" "mp_ticker_state p' = mp_ticker_state (tracked u p)"
    "\<exists>ws. wire (mp_socket p') = wire (mp_socket p) @ map MarketUpdate_as_bytes ws \<and>
       (ws = [] \<and> \<not> (never_refuses api \<and> parse_ipv4 (mc_multicast_addr (mp_config p)) \<noteq> None) \<or>
        (\<exists>m. ws = u # take m (all_snapshots p' ks)))" by blast+
qed

section \<open>The two trackers agree\<close>

text \<open>One side of the publisher's state (0 for no price) and of the receiver's view
  (\<open>INVALID_PRICE\<close> for no price).\<close>

definition mirrors :: "Price \<times> Qty \<Rightarrow> Price \<times> Qty \<Rightarrow> bool" where
  "mirrors b c \<longleftrightarrow> fst b \<noteq> INVALID_PRICE \<and> (if fst b = 0 then fst c = INVALID_PRICE else c = b)"

definition view_mirrors :: "TickerId \<Rightarrow> (TickerId, TickerState) fmap \<Rightarrow> (TickerId, BBO) fmap \<Rightarrow> bool" where
  "view_mirrors t M B \<longleftrightarrow> mirrors (bid_of (get_or M t TickerState_default)) (bbo_bid (get_or B t BBO_new)) \<and>
     mirrors (ask_of (get_or M t TickerState_default)) (bbo_ask (get_or B t BBO_new))"

lemma mirrors_quote:
  assumes "mirrors b c" "fst pq \<noteq> 0" "fst pq \<noteq> INVALID_PRICE"
  shows "mirrors (quote_step rank 0 pq b) (quote_step rank INVALID_PRICE pq c)"
  using assms by (cases b; cases c; cases pq) (auto simp: mirrors_def quote_step_def split: if_splits)

lemma mirrors_snapshot:
  assumes "mirrors b c" "fst b \<noteq> 0"
  shows "quote_step rank INVALID_PRICE b c = c"
  using assms by (cases b; cases c) (auto simp: mirrors_def quote_step_def)

text \<open>The messages of a snapshot quote the tracked prices.\<close>

definition snapshot_quote :: "(TickerId, TickerState) fmap \<Rightarrow> MarketUpdate \<Rightarrow> bool" where
  "snapshot_quote M w \<longleftrightarrow> update_type w = Some USnapshot \<and> 0 <s mu_price w \<and>
     (let st = get_or M (mu_ticker_id w) TickerState_default in
      mu_side w = side_i8 Buy \<and> price_qty w = bid_of st \<or> mu_side w = side_i8 Sell \<and> price_qty w = ask_of st)"

lemma snapshots_quote: "w \<in> set (all_snapshots p ks) \<Longrightarrow> snapshot_quote (mp_ticker_state p) w"
  by (auto simp: all_snapshots_def snapshot_messages_def snapshot_quote_def price_qty_def bid_of_def ask_of_def
      split: if_splits)

lemma process_other_ticker:
  "mu_ticker_id u \<noteq> t \<Longrightarrow> get_or (md_bbo (snd (process_update u r))) t d = get_or (md_bbo r) t d"
  by (auto simp: process_update_def get_or_def Let_def split: option.split)

lemma process_snapshot:
  assumes "view_mirrors t M (md_bbo r)" "snapshot_quote M w"
  shows "get_or (md_bbo (snd (process_update w r))) t BBO_new = get_or (md_bbo r) t BBO_new"
proof (cases "mu_ticker_id w = t")
  case False
  then show ?thesis by (rule process_other_ticker)
next
  case True
  let ?st = "get_or M t TickerState_default" and ?b = "get_or (md_bbo r) t BBO_new"
  have m: "mirrors (bid_of ?st) (bbo_bid ?b)" "mirrors (ask_of ?st) (bbo_ask ?b)"
    using assms(1) by (simp_all add: view_mirrors_def)
  have w: "update_type w = Some USnapshot" "fst (price_qty w) \<noteq> 0" "mu_price w = fst (price_qty w)"
    "mu_qty w = snd (price_qty w)"
    using assms(2) by (auto simp: snapshot_quote_def price_qty_def word_sless_alt)
  consider "mu_side w = side_i8 Buy" "price_qty w = bid_of ?st" | "mu_side w = side_i8 Sell" "price_qty w = ask_of ?st"
    using assms(2) True by (auto simp: snapshot_quote_def Let_def)
  then show ?thesis
  proof cases
    case 1
    have "is_quote w" using w by (simp add: is_quote_def)
    moreover have "bbo_bid (quote_bid (mu_price w) (mu_qty w) ?b) = bbo_bid ?b"
      using mirrors_snapshot [OF m(1)] 1 w by (simp add: rcv_bid.best_upd)
    then have "quote_bid (mu_price w) (mu_qty w) ?b = ?b"
      by (simp add: bbo_bid_def quote_bid_def split: if_splits)
    ultimately show ?thesis using True 1 by (simp add: process_quote)
  next
    case 2
    have "is_quote w" using w by (simp add: is_quote_def)
    moreover have "bbo_ask (quote_ask (mu_price w) (mu_qty w) ?b) = bbo_ask ?b"
      using mirrors_snapshot [OF m(2)] 2 w by (simp add: rcv_ask.best_upd)
    then have "quote_ask (mu_price w) (mu_qty w) ?b = ?b"
      by (simp add: bbo_ask_def quote_ask_def split: if_splits)
    ultimately show ?thesis using True 2 by (simp add: process_quote)
  qed
qed

lemma view_mirrors_cong:
  "get_or B' t BBO_new = get_or B t BBO_new \<Longrightarrow> view_mirrors t M B \<Longrightarrow> view_mirrors t M B'"
  by (simp add: view_mirrors_def)

lemma process_snapshots:
  assumes "\<forall>w \<in> set ws. snapshot_quote M w" "view_mirrors t M (md_bbo r)"
  shows "view_mirrors t M (md_bbo (process_all ws r))"
  using assms
proof (induction ws arbitrary: r)
  case (Cons w ws)
  from Cons.prems have w: "snapshot_quote M w" by simp
  have "view_mirrors t M (md_bbo (snd (process_update w r)))"
    by (rule view_mirrors_cong [OF process_snapshot [OF Cons.prems(2) w] Cons.prems(2)])
  then show ?case using Cons by (simp add: process_all_def)
qed (simp add: process_all_def)

text \<open>A quote is tracked alike on both sides.\<close>

definition feed_quote :: "MarketUpdate \<Rightarrow> bool" where
  "feed_quote u \<longleftrightarrow> quotes u \<and> mu_price u \<noteq> INVALID_PRICE"

lemma tracked_other_ticker:
  "mu_ticker_id u \<noteq> t \<Longrightarrow> get_or (mp_ticker_state (tracked u p)) t d = get_or (mp_ticker_state p) t d"
  by (simp add: tracked_def update_ticker_state_def Let_def get_or_def)

lemma tracked_lookup:
  assumes "mc_enable_snapshots (mp_config p)" "mu_ticker_id u = t" "quotes u"
  shows "bid_of (get_or (mp_ticker_state (tracked u p)) t TickerState_default) =
      (if mu_side u = side_i8 Buy
       then quote_step sint 0 (price_qty u) (bid_of (get_or (mp_ticker_state p) t TickerState_default))
       else bid_of (get_or (mp_ticker_state p) t TickerState_default))"
    and "ask_of (get_or (mp_ticker_state (tracked u p)) t TickerState_default) =
      (if mu_side u = side_i8 Sell
       then quote_step (\<lambda>p. - sint p) 0 (price_qty u) (ask_of (get_or (mp_ticker_state p) t TickerState_default))
       else ask_of (get_or (mp_ticker_state p) t TickerState_default))"
proof -
  have "bid_of (st\<lparr>ts_last_seq := n\<rparr>) = bid_of st" "ask_of (st\<lparr>ts_last_seq := n\<rparr>) = ask_of st" for st n
    by (simp_all add: bid_of_def ask_of_def)
  then show "bid_of (get_or (mp_ticker_state (tracked u p)) t TickerState_default) =
      (if mu_side u = side_i8 Buy
       then quote_step sint 0 (price_qty u) (bid_of (get_or (mp_ticker_state p) t TickerState_default))
       else bid_of (get_or (mp_ticker_state p) t TickerState_default))"
    "ask_of (get_or (mp_ticker_state (tracked u p)) t TickerState_default) =
      (if mu_side u = side_i8 Sell
       then quote_step (\<lambda>p. - sint p) 0 (price_qty u) (ask_of (get_or (mp_ticker_state p) t TickerState_default))
       else ask_of (get_or (mp_ticker_state p) t TickerState_default))"
    using assms by (auto simp: tracked_def update_ticker_state_def Let_def get_or_def apply_quote
        pub_bid.best_upd pub_ask.best_upd price_qty_def)
qed

lemma view_mirrors_publish:
  assumes m: "view_mirrors t (mp_ticker_state p) (md_bbo r)" and e: "mc_enable_snapshots (mp_config p)"
    and q: "mu_ticker_id u = t \<longrightarrow> feed_quote u"
  shows "view_mirrors t (mp_ticker_state (tracked u p)) (md_bbo (snd (process_update u r)))"
proof (cases "mu_ticker_id u = t")
  case False
  then show ?thesis using m by (simp add: view_mirrors_def tracked_other_ticker process_other_ticker)
next
  case True
  then have q: "quotes u" and v: "is_quote u" and n: "fst (price_qty u) \<noteq> 0" "fst (price_qty u) \<noteq> INVALID_PRICE"
    using q by (auto simp: feed_quote_def quotes_def is_quote_def price_qty_def word_sless_alt)
  have pq: "price_qty u = (mu_price u, mu_qty u)" by (simp add: price_qty_def)
  note M = m [unfolded view_mirrors_def, THEN conjunct1] m [unfolded view_mirrors_def, THEN conjunct2]
  show ?thesis
    unfolding view_mirrors_def tracked_lookup [OF e True q] process_quote [OF v]
    using M mirrors_quote [OF M(1) n] mirrors_quote [OF M(2) n] True
    by (auto simp: rcv_bid.best_upd rcv_ask.best_upd pq)
qed

section \<open>The feed of the exchange\<close>

text \<open>What a run of publications sends: the datagrams are those of messages \<open>ws\<close>; if no update
  is refused, a receiver in step with the publisher before is in step with it after.\<close>

lemma publish_all_Cons:
  "publish_all api iter (u # us) p =
     publish_all api iter us (snd (publish api (iter (mp_ticker_state (tracked u p))) u p))"
  by (simp add: publish_all_def)

lemma process_all_append: "process_all (us @ vs) r = process_all vs (process_all us r)"
  by (simp add: process_all_def)

lemma publish_all_mirrored:
  assumes "dgram_logs api wire" "never_refuses api" "parse_ipv4 (mc_multicast_addr (mp_config p)) \<noteq> None"
    and "mc_enable_snapshots (mp_config p)" "list_all feed_quote (ticker_updates t us)"
  shows "\<exists>ws. wire (mp_socket (publish_all api iter us p)) = wire (mp_socket p) @ map MarketUpdate_as_bytes ws \<and>
    (\<forall>r. view_mirrors t (mp_ticker_state p) (md_bbo r) \<longrightarrow>
       view_mirrors t (mp_ticker_state (publish_all api iter us p)) (md_bbo (process_all ws r))) \<and>
    bid_of (get_or (mp_ticker_state (publish_all api iter us p)) t TickerState_default) =
      fold (quote_step sint 0) (map price_qty (side_updates Buy (ticker_updates t us)))
        (bid_of (get_or (mp_ticker_state p) t TickerState_default)) \<and>
    ask_of (get_or (mp_ticker_state (publish_all api iter us p)) t TickerState_default) =
      fold (quote_step (\<lambda>p. - sint p) 0) (map price_qty (side_updates Sell (ticker_updates t us)))
        (ask_of (get_or (mp_ticker_state p) t TickerState_default))"
  using assms(3-5)
proof (induction us arbitrary: p)
  case Nil
  have "publish_all api iter [] p = p" by (simp add: publish_all_def)
  moreover have "process_all [] r = r" for r :: "'b MarketDataReceiver" by (simp add: process_all_def)
  ultimately show ?case
    by (intro exI [where x = "[]"]) (simp add: side_updates_def ticker_updates_def)
next
  case (Cons u us)
  let ?ks = "iter (mp_ticker_state (tracked u p))"
  obtain rs p1 where 1: "publish api ?ks u p = (rs, p1)" by force
  note log1 = publish_log [OF assms(1) 1]
  obtain m where m: "wire (mp_socket p1) =
      wire (mp_socket p) @ map MarketUpdate_as_bytes (u # take m (all_snapshots p1 ?ks))"
    using log1(3) assms(2) Cons.prems(1) by blast
  let ?ws = "u # take m (all_snapshots p1 ?ks)"
  have q: "mu_ticker_id u = t \<longrightarrow> feed_quote u" "list_all feed_quote (ticker_updates t us)"
    using Cons.prems(3) by (auto simp: ticker_updates_def split: if_splits)
  have mir: "view_mirrors t (mp_ticker_state p1) (md_bbo (process_all ?ws r))"
    if "view_mirrors t (mp_ticker_state p) (md_bbo r)" for r :: "'b MarketDataReceiver"
  proof -
    have "view_mirrors t (mp_ticker_state p1) (md_bbo (snd (process_update u r)))"
      using view_mirrors_publish [OF that Cons.prems(2) q(1)] log1(2) by simp
    then have "view_mirrors t (mp_ticker_state p1)
        (md_bbo (process_all (take m (all_snapshots p1 ?ks)) (snd (process_update u r))))"
      by (intro process_snapshots) (auto dest!: in_set_takeD simp: snapshots_quote)
    then show ?thesis by (simp add: process_all_def)
  qed
  have c1: "parse_ipv4 (mc_multicast_addr (mp_config p1)) \<noteq> None" "mc_enable_snapshots (mp_config p1)"
    using log1(1) Cons.prems by simp_all
  from Cons.IH [OF c1 q(2)] obtain vs where
    "wire (mp_socket (publish_all api iter us p1)) = wire (mp_socket p1) @ map MarketUpdate_as_bytes vs"
    "\<forall>r. view_mirrors t (mp_ticker_state p1) (md_bbo r) \<longrightarrow>
       view_mirrors t (mp_ticker_state (publish_all api iter us p1)) (md_bbo (process_all vs (r :: 'b MarketDataReceiver)))"
    and f: "bid_of (get_or (mp_ticker_state (publish_all api iter us p1)) t TickerState_default) =
        fold (quote_step sint 0) (map price_qty (side_updates Buy (ticker_updates t us)))
          (bid_of (get_or (mp_ticker_state p1) t TickerState_default))"
      "ask_of (get_or (mp_ticker_state (publish_all api iter us p1)) t TickerState_default) =
        fold (quote_step (\<lambda>p. - sint p) 0) (map price_qty (side_updates Sell (ticker_updates t us)))
          (ask_of (get_or (mp_ticker_state p1) t TickerState_default))"
    by blast
  with m mir have w: "wire (mp_socket (publish_all api iter us p1)) = wire (mp_socket p) @ map MarketUpdate_as_bytes (?ws @ vs)"
    "\<forall>r. view_mirrors t (mp_ticker_state p) (md_bbo r) \<longrightarrow>
       view_mirrors t (mp_ticker_state (publish_all api iter us p1)) (md_bbo (process_all (?ws @ vs) (r :: 'b MarketDataReceiver)))"
    unfolding process_all_append by simp_all
  have p: "publish_all api iter (u # us) p = publish_all api iter us p1" by (simp add: publish_all_Cons 1)
  show ?case
  proof (cases "mu_ticker_id u = t")
    case True
    then have "quotes u" using q(1) by (simp add: feed_quote_def)
    from tracked_lookup [OF Cons.prems(2) True this] show ?thesis unfolding p using True w f log1(2)
      by (intro exI [where x = "?ws @ vs"]) (auto simp: side_updates_def ticker_updates_def)
  next
    case False
    then show ?thesis unfolding p using w f log1(2)
      by (intro exI [where x = "?ws @ vs"]) (auto simp: side_updates_def ticker_updates_def tracked_other_ticker)
  qed
qed

text \<open>The event loop hands all updates of the engine to the publisher, in order, and nothing else.\<close>

lemma publish_all_append:
  "publish_all api iter (us @ vs) p = publish_all api iter vs (publish_all api iter us p)"
  by (simp add: publish_all_def)

lemma run_handle_publisher:
  assumes "run_outcome (handle_request api iter) srs ex = Inr (rps, ex')"
  shows "ex_publisher ex' = publish_all api iter (concat (map snd rps)) (ex_publisher ex)"
  using assms
proof (induction srs arbitrary: ex rps)
  case Nil
  then show ?case by (simp add: publish_all_def)
next
  case (Cons sr srs)
  obtain rp ex1 rps1 where h: "handle_request api iter sr ex = Inr (rp, ex1)"
    and r: "run_outcome (handle_request api iter) srs ex1 = Inr (rps1, ex')" "rps = rp # rps1"
    using Cons.prems unfolding run_outcome_Cons_Inr by blast
  have "ex_publisher ex1 = publish_all api iter (snd rp) (ex_publisher ex)"
    using h by (auto simp: handle_request_def Let_def split: sum.splits prod.splits)
  with Cons.IH [OF r(1)] r(2) show ?case by (simp add: publish_all_append)
qed

lemma exchange_loop_publisher:
  assumes "exchange_loop api iter kss ex = Some (Inr (rps, ex'))"
  shows "ex_publisher ex' = publish_all api iter (concat (map snd rps)) (ex_publisher ex)"
  using assms
proof (induction kss arbitrary: ex rps)
  case Nil
  then show ?case by (simp add: publish_all_def)
next
  case (Cons ks kss)
  obtain rps1 ex1 where 1: "loop_body api ks iter ex = Some (Inr (rps1, ex1))"
    using Cons.prems by (auto split: option.splits sum.splits)
  then obtain rps2 where 2: "exchange_loop api iter kss ex1 = Some (Inr (rps2, ex'))" "rps = rps1 @ rps2"
    using Cons.prems by (cases "exchange_loop api iter kss ex1"; cases "the (exchange_loop api iter kss ex1)") auto
  have "ex_publisher ex1 = publish_all api iter (concat (map snd rps1)) (ex_publisher ex)"
    using 1 run_handle_publisher [where rps = rps1 and ex' = ex1]
    by (force simp: loop_body_def split: option.splits)
  with Cons.IH [OF 2(1)] 2(2) show ?case by (simp add: publish_all_append)
qed

text \<open>While orders are only added, the prices resting in a book are those of its feed.\<close>

definition book_prices :: "aengine \<Rightarrow> TickerId \<Rightarrow> Side \<Rightarrow> Price set" where
  "book_prices E t sd = (case fst E t of None \<Rightarrow> {} | Some a \<Rightarrow> side_prices (ab_orders a) sd)"

lemma side_prices_upd:
  "v k = None \<Longrightarrow> side_prices (v(k \<mapsto> ord)) sd =
     (if o_side ord = sd then insert (o_price ord) (side_prices v sd) else side_prices v sd)"
  by (auto simp: side_prices_def) (metis option.distinct(1))+

definition quoted :: "MarketUpdate list \<Rightarrow> TickerId \<Rightarrow> Side \<Rightarrow> Price set" where
  "quoted us t sd = mu_price ` set (side_updates sd (ticker_updates t us))"

lemma quoted_append [simp]: "quoted (us @ vs) t sd = quoted us t sd \<union> quoted vs t sd"
  by (simp add: quoted_def side_updates_def ticker_updates_def image_Un)

lemma quoted_Nil [simp]: "quoted [] t sd = {}"
  by (simp add: quoted_def side_updates_def ticker_updates_def)

lemma aengine_new_prices:
  "book_prices (snd (aengine_new rq E)) t sd = book_prices E t sd \<union> quoted (snd (fst (aengine_new rq E))) t sd"
  by (cases E)
    (auto simp: book_prices_def invalid_reply_def accept_reply_def side_prices_upd quoted_def side_updates_def
      ticker_updates_def parse_side_eq_Some_iff simp del: side_i8.simps split: option.splits)

lemma aengine_step_prices:
  assumes "list_all quotes (ticker_updates t (snd (fst (aengine_step rq E))))"
  shows "book_prices (snd (aengine_step rq E)) t sd =
    book_prices E t sd \<union> quoted (snd (fst (aengine_step rq E))) t sd"
proof (cases "request_type rq")
  case None
  then show ?thesis by (simp add: aengine_step_def invalid_reply_def)
next
  case (Some ty)
  show ?thesis
  proof (cases ty)
    case RNew
    then show ?thesis using Some by (simp add: aengine_step_def aengine_new_prices del: aengine_new.simps)
  next
    case RCancel
    then show ?thesis using Some assms
      by (cases E) (auto simp: aengine_step_def cancel_reject_reply_def cancel_reply_def quotes_def ticker_updates_def
          book_prices_def quoted_def side_updates_def split: option.splits if_splits)
  qed
qed

lemma ticker_updates_append: "ticker_updates t (us @ vs) = ticker_updates t us @ ticker_updates t vs"
  by (simp add: ticker_updates_def)

lemma aengine_run_prices:
  assumes "list_all quotes (ticker_updates t (concat (map snd (fst (run_spec aengine_step rqs E)))))"
  shows "book_prices (snd (run_spec aengine_step rqs E)) t sd =
    book_prices E t sd \<union> quoted (concat (map snd (fst (run_spec aengine_step rqs E)))) t sd"
  using assms
proof (induction rqs arbitrary: E)
  case (Cons rq rqs)
  from Cons.prems have q: "list_all quotes (ticker_updates t (snd (fst (aengine_step rq E))))"
    "list_all quotes (ticker_updates t (concat (map snd (fst (run_spec aengine_step rqs (snd (aengine_step rq E)))))))"
    by (simp_all add: run_spec_Cons_eq ticker_updates_append del: run_spec.simps(2))
  from Cons.IH [OF q(2)] aengine_step_prices [OF q(1)] show ?case
    by (simp add: run_spec_Cons_eq Un_assoc del: run_spec.simps(2))
qed simp

lemma book_prices_start: "book_prices (aengine_start T) t sd = {}"
  by (simp add: book_prices_def aengine_start_def abook_new_def side_prices_def)

text \<open>The state of the publisher after the start-up.\<close>

lemma register_ticker_lookup:
  "get_or (mp_ticker_state (fold register_ticker ts p)) t TickerState_default =
     get_or (mp_ticker_state p) t TickerState_default \<and>
   mp_config (fold register_ticker ts p) = mp_config p \<and>
   fset (fmdom (mp_ticker_state (fold register_ticker ts p))) = fset (fmdom (mp_ticker_state p)) \<union> set ts"
  by (induction ts arbitrary: p) (auto simp: register_ticker_def get_or_def)

lemma Exchange_start_publisher:
  assumes "Exchange_start api resolve args = Some (Inr ex)"
  shows "mp_config (ex_publisher ex) = md_config args"
    "get_or (mp_ticker_state (ex_publisher ex)) t TickerState_default = TickerState_default"
    "fset (fmdom (mp_ticker_state (ex_publisher ex))) = set (parse_tickers (ar_tickers args))"
proof -
  obtain p where p: "ex_publisher ex = fold register_ticker (parse_tickers (ar_tickers args)) p"
    "mp_config p = md_config args" "mp_ticker_state p = fmempty"
    using assms
    by (auto simp: Exchange_start_def Let_def MarketDataPublisher_new_def split: if_splits sum.splits prod.splits)
  from register_ticker_lookup [of "parse_tickers (ar_tickers args)" p t] p
  show "mp_config (ex_publisher ex) = md_config args"
    "get_or (mp_ticker_state (ex_publisher ex)) t TickerState_default = TickerState_default"
    "fset (fmdom (mp_ticker_state (ex_publisher ex))) = set (parse_tickers (ar_tickers args))" by simp_all
qed

section \<open>The receiver's view and the books\<close>

lemma as_bytes_inj: "map MarketUpdate_as_bytes us = map MarketUpdate_as_bytes vs \<Longrightarrow> us = vs"
  by (rule map_injective) (auto intro!: injI dest: arg_cong [where f = MarketUpdate_from_bytes] simp: mu.dec_enc)

text \<open>A best price that both trackers and the book agree on.\<close>

lemma best_of_quotes:
  assumes "mirrors b c" "is_best_quote rank (map price_qty us) b" "\<forall>u \<in> set us. mu_price u \<noteq> 0"
  shows "fst c = fst b"
proof -
  have "fst b \<in> mu_price ` set us" using assms(2) by (auto simp: is_best_quote_def price_qty_def)
  then have "fst b \<noteq> 0" using assms(3) by auto
  then show ?thesis using assms(1) by (simp add: mirrors_def)
qed

lemma bid_shows_best:
  assumes "mirrors b (bbo_bid q)" "b = fold (quote_step sint 0) (map price_qty us) (0, 0)"
    and nz: "\<forall>u \<in> set us. mu_price u \<noteq> 0"
    and "map_option sint best = (if mu_price ` set us = {} then None else Some (Max (sint ` mu_price ` set us)))"
  shows "bb_bid_price q = (case best of None \<Rightarrow> INVALID_PRICE | Some p \<Rightarrow> p)"
proof (cases "us = []")
  case True
  then show ?thesis using assms by (simp add: mirrors_def bbo_bid_def)
next
  case False
  then have best: "is_best_quote sint (map price_qty us) b"
    using pub_bid.fold_best [of "map price_qty us" "(0, 0)"] nz assms(2) by (simp add: price_qty_def)
  have "sint (bb_bid_price q) = Max (sint ` mu_price ` set us)"
    using best_of_quotes [OF assms(1) best nz] is_best_quote_updates(2) [OF best] by (simp add: bbo_bid_def image_image)
  with False assms(4) show ?thesis by (auto split: option.splits) (metis signed_word_eqI)
qed

lemma ask_shows_best:
  assumes "mirrors b (bbo_ask q)" "b = fold (quote_step (\<lambda>p. - sint p) 0) (map price_qty us) (0, 0)"
    and nz: "\<forall>u \<in> set us. mu_price u \<noteq> 0"
    and "map_option sint best = (if mu_price ` set us = {} then None else Some (Min (sint ` mu_price ` set us)))"
  shows "bb_ask_price q = (case best of None \<Rightarrow> INVALID_PRICE | Some p \<Rightarrow> p)"
proof (cases "us = []")
  case True
  then show ?thesis using assms by (simp add: mirrors_def bbo_ask_def)
next
  case False
  then have best: "is_best_quote (\<lambda>p. - sint p) (map price_qty us) b"
    using pub_ask.fold_best [of "map price_qty us" "(0, 0)"] nz assms(2) by (simp add: price_qty_def)
  have "sint (bb_ask_price q) = Min (sint ` mu_price ` set us)"
    using best_of_quotes [OF assms(1) best nz] is_best_quote_updates(3) [OF best] by (simp add: bbo_ask_def image_image)
  with False assms(4) show ?thesis by (auto split: option.splits) (metis signed_word_eqI)
qed

text \<open>The book of a ticker without cancellations, in terms of the feed.\<close>

lemma book_best_from_feed:
  assumes "Exchange_start api resolve args = Some (Inr ex0)" "exchange_loop api iter kss ex0 = Some (Inr (rps, ex))"
    and "list_all quotes (ticker_updates t (concat (map snd rps)))"
    and "get_order_book (ex_matching_engine ex) t = Some b"
  shows "book_ok b" "side_prices (book_view b) sd = quoted (concat (map snd rps)) t sd"
proof -
  obtain ex1 where "Inr ex0 = Inr ex1" "me_ok (ex_matching_engine ex1)"
    "engine_abs (ex_matching_engine ex1) = aengine_start (set (parse_tickers (ar_tickers args)))"
    using Exchange_start_engine [OF assms(1)] by blast
  then have st: "me_ok (ex_matching_engine ex0)"
    "engine_abs (ex_matching_engine ex0) = aengine_start (set (parse_tickers (ar_tickers args)))" by simp_all
  obtain rqs where ok: "me_ok (ex_matching_engine ex)" and
    run: "run_spec aengine_step rqs (engine_abs (ex_matching_engine ex0)) = (rps, engine_abs (ex_matching_engine ex))"
    using exchange_loop_engine [OF st(1) assms(2)] by auto
  note D = me_okD [OF ok assms(4) [unfolded get_order_book_def]]
  show "book_ok b" by fact
  have "book_prices (engine_abs (ex_matching_engine ex)) t sd = quoted (concat (map snd rps)) t sd"
    using aengine_run_prices [of t rqs "engine_abs (ex_matching_engine ex0)" sd] run assms(3) st(2)
    by (simp add: book_prices_start)
  then show "side_prices (book_view b) sd = quoted (concat (map snd rps)) t sd"
    using assms(4) by (simp add: book_prices_def engine_abs_def get_order_book_def)
qed

text \<open>The quotes of a snapshot on each side of a ticker, once per visit.\<close>

lemma fold_quote_replicate:
  "fst b = none \<Longrightarrow> fold (quote_step rank none) (replicate m pq) b = (if m = 0 then b else pq)"
proof (induction m)
  case (Suc m)
  have "quote_step rank none pq pq = pq" by (simp add: quote_step_def)
  then have "fold (quote_step rank none) (replicate m pq) pq = pq" by (induction m) simp_all
  moreover have "quote_step rank none pq b = pq" using Suc.prems by (simp add: quote_step_def)
  ultimately show ?case by simp
qed simp

lemma snapshot_sides:
  "map price_qty (side_updates Buy (ticker_updates t (all_snapshots p ks))) =
     (let st = get_or (mp_ticker_state p) t TickerState_default in
      replicate (if 0 <s ts_bid_price st \<and> 0 < ts_bid_qty st then count_list ks t else 0) (bid_of st))"
  "map price_qty (side_updates Sell (ticker_updates t (all_snapshots p ks))) =
     (let st = get_or (mp_ticker_state p) t TickerState_default in
      replicate (if 0 <s ts_ask_price st \<and> 0 < ts_ask_qty st then count_list ks t else 0) (ask_of st))"
  by (induction ks) (auto simp: all_snapshots_def snapshot_messages_def side_updates_def ticker_updates_def
      price_qty_def bid_of_def ask_of_def Let_def)

text \<open>The shape of what the engine emits and of what is sent for it.\<close>

definition update_typed :: "TickerId set \<Rightarrow> MarketUpdate \<Rightarrow> bool" where
  "update_typed T u \<longleftrightarrow> update_type u \<in> {Some UAdd, Some UCancel, Some USnapshot} \<and>
     mu_side u \<in> {side_i8 Buy, side_i8 Sell} \<and> mu_ticker_id u \<in> T"

definition response_typed :: "ClientResponse \<Rightarrow> bool" where
  "response_typed rs \<longleftrightarrow>
     (case response_type rs of
        None \<Rightarrow> False
      | Some ty \<Rightarrow> ty \<in> {Accepted, Canceled} \<longrightarrow> rs_side rs \<in> {side_i8 Buy, side_i8 Sell})"

lemma aengine_step_typed:
  "response_typed (fst (fst (aengine_step rq E))) \<and>
   list_all (update_typed (dom (fst E))) (snd (fst (aengine_step rq E)))"
  by (cases E; cases "request_type rq"; cases "the (request_type rq)")
    (auto simp: aengine_step_def update_typed_def response_typed_def accept_reply_def cancel_reply_def
      invalid_reply_def cancel_reject_reply_def parse_side_eq_Some_iff dom_def simp del: side_i8.simps
      split: option.splits, (metis Side.exhaust)+)

lemma aengine_run_typed:
  "list_all (\<lambda>(rs, us). response_typed rs \<and> list_all (update_typed (dom (fst E))) us)
     (fst (run_spec aengine_step rqs E))"
proof (induction rqs arbitrary: E)
  case (Cons rq rqs)
  show ?case using Cons.IH [of "snd (aengine_step rq E)"] aengine_step_typed [of rq E]
    by (simp add: run_spec_Cons_eq dom_aengine_step split_beta del: run_spec.simps(2))
qed simp

lemma snapshot_typed:
  assumes "snapshot_quote M w" "fset (fmdom M) \<subseteq> T"
  shows "update_typed T w"
proof -
  have "mu_ticker_id w |\<in>| fmdom M"
  proof (rule ccontr)
    assume "mu_ticker_id w |\<notin>| fmdom M"
    then have "get_or M (mu_ticker_id w) TickerState_default = TickerState_default"
      by (simp add: get_or_def fmdom_notD)
    with assms(1) show False by (auto simp: snapshot_quote_def price_qty_def)
  qed
  with assms show ?thesis by (auto simp: update_typed_def snapshot_quote_def Let_def)
qed

lemma publish_all_typed:
  assumes "dgram_logs api wire" "fset (fmdom (mp_ticker_state p)) \<subseteq> T" "list_all (update_typed T) us"
  shows "\<exists>ws. wire (mp_socket (publish_all api iter us p)) = wire (mp_socket p) @ map MarketUpdate_as_bytes ws \<and>
    list_all (update_typed T) ws"
  using assms(2,3)
proof (induction us arbitrary: p)
  case Nil
  have "publish_all api iter [] p = p" by (simp add: publish_all_def)
  then show ?case by (intro exI [where x = "[]"]) simp
next
  case (Cons u us)
  let ?ks = "iter (mp_ticker_state (tracked u p))"
  obtain rs p1 where 1: "publish api ?ks u p = (rs, p1)" by force
  note log1 = publish_log [OF assms(1) 1]
  obtain ws where ws: "wire (mp_socket p1) = wire (mp_socket p) @ map MarketUpdate_as_bytes ws"
    "ws = [] \<or> (\<exists>m. ws = u # take m (all_snapshots p1 ?ks))" using log1(3) by blast
  have dom1: "fset (fmdom (mp_ticker_state p1)) \<subseteq> T"
    using log1(2) Cons.prems by (auto simp: tracked_def update_ticker_state_def Let_def update_typed_def)
  have t: "list_all (update_typed T) us" "update_typed T u" using Cons.prems(2) by simp_all
  from Cons.IH [OF dom1 t(1)] obtain vs where
    vs: "wire (mp_socket (publish_all api iter us p1)) = wire (mp_socket p1) @ map MarketUpdate_as_bytes vs"
    "list_all (update_typed T) vs" by blast
  have "update_typed T w" if "w \<in> set ws" for w
    using that ws(2) t(2) snapshot_typed [OF snapshots_quote dom1]
    by (auto dest!: in_set_takeD)
  then have "list_all (update_typed T) (ws @ vs)" using vs(2) by (auto simp: list_all_iff)
  moreover have "publish_all api iter (u # us) p = publish_all api iter us p1" by (simp add: publish_all_Cons 1)
  ultimately show ?case using ws(1) vs(1) by (intro exI [where x = "ws @ vs"]) simp
qed

text \<open>A concrete session: one client is waiting to connect and has sent one order.\<close>

definition example_api :: "script socket_api" where
  "example_api = script_api\<lparr>sk_new := \<lambda>_. Inr \<lparr>sc_mode = False, sc_incoming = [], sc_sent = [],
     sc_pending = [[Inr (ClientRequest_as_bytes (ClientRequest_new RNew 7 1 42 1 100 10))]]\<rparr>\<rparr>"

definition example_resolve :: "string \<Rightarrow> u16 \<Rightarrow> socket_addr list io" where
  "example_resolve host port = Inr [SockV4 (0, 0, 0, 0) port]"

lemma example_dgrams: "dgram_logs example_api sc_sent" "never_refuses example_api"
  using script_dgrams by (simp_all add: dgram_logs_def never_refuses_def example_api_def)

lemma default_tickers: "parse_tickers (ar_tickers Args_default) = [1, 2, 3]"
  by (simp add: parse_tickers_def Args_default_def parse_u32_def trim_def is_space_def digit_value_def
      List.map_filter_def)

lemma default_addresses: "parse_ipv4 ''0.0.0.0'' = Some (0, 0, 0, 0)" "parse_ipv4 ''239.255.0.1'' = Some (239, 255, 0, 1)"
  by code_simp+

lemma example_server_polls:
  "\<exists>sv out. OrderServer_new example_api example_resolve cfg = Inr sv \<and> poll example_api [1] sv = Some out \<and>
     map sr_request (fst out) = [ClientRequest_new RNew 7 1 42 1 100 10]"
proof -
  let ?rq = "ClientRequest_new RNew 7 1 42 1 100 10"
  let ?l = "\<lparr>sc_mode = True, sc_incoming = [], sc_sent = [], sc_pending = [[Inr (ClientRequest_as_bytes ?rq)]]\<rparr>"
  let ?sv = "\<lparr>os_listener = ?l, os_clients = fmempty, os_sequencer = FifoSequencer_new,
    os_next_client_id = 1, os_config = cfg\<rparr>"
  let ?c = "ClientConnection_new 1 \<lparr>tcp_socket = \<lparr>sc_mode = True,
    sc_incoming = [Inr (ClientRequest_as_bytes ?rq)], sc_sent = [], sc_pending = []\<rparr>,
    tcp_send_buffer = replicate BUFFER_SIZE 0\<rparr>"
  have new: "OrderServer_new example_api example_resolve cfg = Inr ?sv"
    by (simp add: OrderServer_new_def script_defs example_api_def example_resolve_def)
  have idle: "accept_connections example_api (?sv\<lparr>os_listener := ?l\<lparr>sc_pending := []\<rparr>, os_next_client_id := 2,
      os_clients := C\<rparr>) = Some (?sv\<lparr>os_listener := ?l\<lparr>sc_pending := []\<rparr>, os_next_client_id := 2, os_clients := C\<rparr>)" for C
    by (subst accept_connections.simps) (simp add: script_defs example_api_def)
  have acc: "accept_connections example_api ?sv = Some (?sv\<lparr>os_listener := ?l\<lparr>sc_pending := []\<rparr>,
      os_next_client_id := 2, os_clients := fmupd 1 ?c fmempty\<rparr>)"
    using idle by (subst accept_connections.simps)
      (simp add: script_defs example_api_def TcpSocket_set_nonblocking_def TcpSocket_from_socket_def Let_def)
  have "parse_frames ClientRequest_from_bytes CLIENT_REQUEST_SIZE (ClientRequest_as_bytes ?rq) = ([?rq], [])"
    using rq.parse_concat [of "[]" "[?rq]"] rq.size_pos by simp
  moreover have "ClientRequest_as_bytes ?rq \<noteq> []" using rq.enc_len [of ?rq] rq.size_pos by fastforce
  ultimately obtain c' where "ClientConnection_receive example_api ?c = (Inr [?rq], c')"
    by (simp add: script_defs Let_def ClientConnection_new_def example_api_def)
  then have "\<exists>out. poll example_api [1] ?sv = Some out \<and> map sr_request (fst out) = [?rq]"
    by (simp add: poll_def acc FifoSequencer_next_def Let_def)
  then show ?thesis using new by (intro exI [where x = ?sv]) simp
qed

lemma example_run:
  "\<exists>ex0 rps ex b. Exchange_start example_api example_resolve Args_default = Some (Inr ex0) \<and>
     exchange_loop example_api (\<lambda>_. []) [[1]] ex0 = Some (Inr (rps, ex)) \<and>
     concat (map snd rps) = [MarketUpdate_new UAdd 1 1 1 100 10 1] \<and> get_order_book (ex_matching_engine ex) 1 = Some b"
proof -
  let ?rq = "ClientRequest_new RNew 7 1 42 1 100 10"
  let ?cfg = "OrderServerConfig_new (ar_interface Args_default) (ar_port Args_default)"
  obtain sv srs sv' where sv: "OrderServer_new example_api example_resolve ?cfg = Inr sv"
    "poll example_api [1] sv = Some (srs, sv')" "map sr_request srs = [?rq]"
    using example_server_polls [of ?cfg] by auto
  obtain me where me: "add_tickers [1, 2, 3] MatchingEngine_new = Inr me" "me_ok me"
    "engine_abs me = aengine_start {1, 2, 3}"
    using add_tickers_ok [OF MatchingEngine_new_ok, of "[1, 2, 3]"] by auto
  obtain p where p: "MarketDataPublisher_new example_api (md_config Args_default) = Inr p"
    by (simp add: MarketDataPublisher_new_def md_config_def Args_default_def script_defs example_api_def default_addresses)
  let ?ex = "\<lparr>ex_order_server = sv, ex_matching_engine = me, ex_publisher = fold register_ticker [1, 2, 3] p\<rparr>"
  have st: "Exchange_start example_api example_resolve Args_default = Some (Inr ?ex)"
    by (simp add: Exchange_start_def default_tickers sv(1) me(1) p del: add_tickers.simps)
  obtain rps ex where run: "run_outcome (handle_request example_api (\<lambda>_. [])) srs (?ex\<lparr>ex_order_server := sv'\<rparr>) = Inr (rps, ex)"
    "run_outcome (\<lambda>rq me. process_request me rq) [?rq] me = Inr (rps, ex_matching_engine ex)"
    using run_handle_request [of "?ex\<lparr>ex_order_server := sv'\<rparr>" example_api "\<lambda>_. []" srs] sv(3) me(2) by auto
  have loop: "exchange_loop example_api (\<lambda>_. []) [[1]] ?ex = Some (Inr (rps, ex))"
    using run(1) sv(2) by (simp add: loop_body_def)
  have spec: "run_spec aengine_step [?rq] (aengine_start {1, 2, 3}) = (rps, engine_abs (ex_matching_engine ex))"
    using en.run_refines [OF me(2), of "[?rq]"] run(2) me(3) by auto
  moreover have "request_type ?rq = Some RNew" "rq_ticker_id ?rq = 1" "parse_side (rq_side ?rq) = Some Buy"
    by (simp_all add: ClientRequest_new_def request_type_def ClientRequestType_from_u8_def parse_side_def)
  ultimately have "rps = [accept_reply ?rq 1]"
    by (auto simp: aengine_step_def aengine_start_def abook_new_def ORDER_POOL_SIZE_def split: if_splits)
  moreover have "fst (engine_abs (ex_matching_engine ex)) 1 \<noteq> None"
    using dom_aengine_run [of "[?rq]" "aengine_start {1, 2, 3}"] spec by (auto simp: aengine_start_def dom_def)
  ultimately have "concat (map snd rps) = [MarketUpdate_new UAdd 1 1 1 100 10 1]"
    "\<exists>b. get_order_book (ex_matching_engine ex) 1 = Some b"
    by (auto simp: accept_reply_def ClientRequest_new_def engine_abs_def get_order_book_def)
  with st loop show ?thesis by blast
qed

lemma script_try_recv:
  "MulticastSocket_try_recv script_api \<lparr>sc_mode = m, sc_incoming = Inr d # ds, sc_sent = l, sc_pending = c\<rparr> =
     (Inr (Some d), \<lparr>sc_mode = m, sc_incoming = ds, sc_sent = l, sc_pending = c\<rparr>)"
  "fst (MulticastSocket_try_recv script_api \<lparr>sc_mode = m, sc_incoming = [], sc_sent = l, sc_pending = c\<rparr>) = Inr None"
  by (simp_all add: script_defs)

lemma script_delivers:
  "delivers script_api us \<lparr>sc_mode = m, sc_incoming = map (\<lambda>u. Inr (MarketUpdate_as_bytes u)) us, sc_sent = l, sc_pending = c\<rparr>"
  by (induction us) (simp_all add: script_try_recv)

section \<open>Properties\<close>

text \<open>C2: what traders see is what rests in the book. Take an exchange from its start-up through
  any number of iterations, whose multicast socket accepts its datagrams, and a receiver that
  starts with nothing and is delivered exactly the datagrams the exchange sent, snapshots
  included. For every ticker of which no order has been cancelled and whose prices are positive
  and not the reserved one, whatever happens on the other tickers, draining the socket returns
  and leaves the receiver with the best bid and the best ask of the exchange's book, and with no
  price on a side that is empty.\<close>

theorem receiver_shows_book:
  assumes start: "Exchange_start api resolve args = Some (Inr ex0)"
    and loop: "exchange_loop api iter kss ex0 = Some (Inr (rps, ex))"
    and quotes: "list_all feed_quote (ticker_updates t (concat (map snd rps)))"
    and net: "dgram_logs api wire" "never_refuses api" "parse_ipv4 (ar_multicast_addr args) \<noteq> None"
    and arrives: "wire (mp_socket (ex_publisher ex)) =
        wire (mp_socket (ex_publisher ex0)) @ map MarketUpdate_as_bytes ws"
      "delivers rapi ws (md_socket r)" "md_bbo r = fmempty"
    and book: "get_order_book (ex_matching_engine ex) t = Some b"
  shows "\<exists>calls r'. poll_and_process rapi r 0 [] = Some (of_nat (length ws), calls, r') \<and>
    bb_bid_price (get_or (md_bbo r') t BBO_new) = (case best_bid b of None \<Rightarrow> INVALID_PRICE | Some p \<Rightarrow> p) \<and>
    bb_ask_price (get_or (md_bbo r') t BBO_new) = (case best_ask b of None \<Rightarrow> INVALID_PRICE | Some p \<Rightarrow> p)"
proof -
  let ?us = "concat (map snd rps)"
  let ?init = "ex_publisher ex0" and ?p = "ex_publisher ex"
  let ?st = "get_or (mp_ticker_state ?p) t TickerState_default"
  note P = Exchange_start_publisher [OF start]
  have pub: "?p = publish_all api iter ?us ?init" by (rule exchange_loop_publisher [OF loop])
  have cfg: "parse_ipv4 (mc_multicast_addr (mp_config ?init)) \<noteq> None" "mc_enable_snapshots (mp_config ?init)"
    using net(3) by (simp_all add: P(1) md_config_def)
  obtain ws' where ws': "wire (mp_socket ?p) = wire (mp_socket ?init) @ map MarketUpdate_as_bytes ws'"
    "view_mirrors t (mp_ticker_state ?init) (md_bbo r) \<Longrightarrow> view_mirrors t (mp_ticker_state ?p) (md_bbo (process_all ws' r))"
    and st: "bid_of ?st = fold (quote_step sint 0) (map price_qty (side_updates Buy (ticker_updates t ?us))) (0, 0)"
      "ask_of ?st = fold (quote_step (\<lambda>p. - sint p) 0) (map price_qty (side_updates Sell (ticker_updates t ?us))) (0, 0)"
    using publish_all_mirrored [OF net(1,2) cfg quotes, of iter] unfolding pub P(2) default_sides by blast
  have "ws = ws'" using arrives(1) ws'(1) by (intro as_bytes_inj) simp
  have "view_mirrors t (mp_ticker_state ?init) (md_bbo r)"
    using P(2) arrives(3) by (simp add: view_mirrors_def mirrors_def INVALID_PRICE_def)
  then have mir: "view_mirrors t (mp_ticker_state ?p) (md_bbo (process_all ws r))" using ws'(2) \<open>ws = ws'\<close> by simp
  obtain calls r' where r': "poll_and_process rapi r 0 [] = Some (of_nat (length ws), calls, r')"
    "md_bbo r' = md_bbo (process_all ws r)" using poll_and_process_delivers [OF arrives(2), of 0 "[]"] by auto
  let ?q = "get_or (md_bbo r') t BBO_new"
  have m: "mirrors (bid_of ?st) (bbo_bid ?q)" "mirrors (ask_of ?st) (bbo_ask ?q)"
    using mir by (simp_all add: view_mirrors_def r'(2))
  have nz: "\<forall>u \<in> set (side_updates sd (ticker_updates t ?us)). mu_price u \<noteq> 0" for sd
    using quotes by (auto simp: list_all_iff feed_quote_def quotes_def side_updates_def word_sless_alt)
  have qs: "list_all quotes (ticker_updates t ?us)" using quotes by (simp add: list_all_iff feed_quote_def)
  note B = book_best_from_feed [OF start loop qs book, unfolded quoted_def]
  show ?thesis
    using r'(1) bid_shows_best [OF m(1) st(1) nz best_prices(1) [OF B(1), unfolded B(2)]]
      ask_shows_best [OF m(2) st(2) nz best_prices(2) [OF B(1), unfolded B(2)]] by blast
qed

theorem receiver_shows_book_witness:
  "\<exists>ex0 rps ex ws r calls r'. Exchange_start example_api example_resolve Args_default = Some (Inr ex0) \<and>
     exchange_loop example_api (\<lambda>_. []) [[1]] ex0 = Some (Inr (rps, ex)) \<and>
     sc_sent (mp_socket (ex_publisher ex)) = sc_sent (mp_socket (ex_publisher ex0)) @ map MarketUpdate_as_bytes ws \<and>
     poll_and_process script_api r 0 [] = Some (of_nat (length ws), calls, r') \<and>
     bb_bid_price (get_or (md_bbo r') 1 BBO_new) = 100 \<and>
     bb_ask_price (get_or (md_bbo r') 1 BBO_new) = INVALID_PRICE"
proof -
  obtain ex0 rps ex b where st: "Exchange_start example_api example_resolve Args_default = Some (Inr ex0)"
    and loop: "exchange_loop example_api (\<lambda>_. []) [[1]] ex0 = Some (Inr (rps, ex))"
    and us: "concat (map snd rps) = [MarketUpdate_new UAdd 1 1 1 100 10 1]"
    and book: "get_order_book (ex_matching_engine ex) 1 = Some b" using example_run by blast
  have q: "list_all feed_quote (ticker_updates 1 (concat (map snd rps)))"
    by (simp add: us ticker_updates_def feed_quote_def quotes_def INVALID_PRICE_def word_sless_alt)
  have addr: "parse_ipv4 (ar_multicast_addr Args_default) \<noteq> None" by (simp add: Args_default_def default_addresses)
  have cfg: "parse_ipv4 (mc_multicast_addr (mp_config (ex_publisher ex0))) \<noteq> None"
    "mc_enable_snapshots (mp_config (ex_publisher ex0))"
    using addr by (simp_all add: Exchange_start_publisher(1) [OF st] md_config_def)
  from publish_all_mirrored [OF example_dgrams cfg q, of "\<lambda>_. []"] exchange_loop_publisher [OF loop] obtain ws where
    ws: "sc_sent (mp_socket (ex_publisher ex)) = sc_sent (mp_socket (ex_publisher ex0)) @ map MarketUpdate_as_bytes ws"
    by auto
  let ?r = "\<lparr>md_socket = \<lparr>sc_mode = True, sc_incoming = map (\<lambda>u. Inr (MarketUpdate_as_bytes u)) ws, sc_sent = [],
    sc_pending = []\<rparr>, md_bbo = fmempty, md_subscribers = [], md_last_seq = 0\<rparr>"
  have del: "delivers script_api ws (md_socket ?r)" "md_bbo ?r = fmempty" by (simp_all add: script_delivers)
  from receiver_shows_book [OF st loop q example_dgrams addr ws del book] obtain calls r' where
    r': "poll_and_process script_api ?r 0 [] = Some (of_nat (length ws), calls, r')"
      "bb_bid_price (get_or (md_bbo r') 1 BBO_new) = (case best_bid b of None \<Rightarrow> INVALID_PRICE | Some p \<Rightarrow> p)"
      "bb_ask_price (get_or (md_bbo r') 1 BBO_new) = (case best_ask b of None \<Rightarrow> INVALID_PRICE | Some p \<Rightarrow> p)" by blast
  have "list_all quotes (ticker_updates 1 (concat (map snd rps)))" using q by (simp add: list_all_iff feed_quote_def)
  note B = book_best_from_feed [OF st loop this book, unfolded us]
  have "side_prices (book_view b) Buy = {100}" "side_prices (book_view b) Sell = {}"
    by (simp_all add: B(2) quoted_def side_updates_def ticker_updates_def)
  with best_prices [OF B(1)] have "map_option sint (best_bid b) = Some 100" "best_ask b = None" by simp_all
  moreover from this(1) obtain p where p: "best_bid b = Some p" "sint p = sint (100 :: Price)" by auto
  then have "best_bid b = Some 100" using signed_word_eqI [OF p(2)] by simp
  ultimately show ?thesis using st loop ws r' by auto
qed

text \<open>C15: a snapshot brings a late subscriber up to date. Whatever the publisher tracks, a
  receiver that starts with nothing and is delivered the datagrams of one snapshot knows, for
  every visited ticker, exactly the tracked bid and ask with their quantities, and nothing for a
  side without a positive price and quantity.\<close>

theorem snapshot_recovers_state:
  assumes "dgram_logs api wire" "publish_snapshot api ks p = (Inr n, p')"
    and "wire (mp_socket p') = wire (mp_socket p) @ map MarketUpdate_as_bytes ws"
    and "delivers rapi ws (md_socket r)" "md_bbo r = fmempty" "t \<in> set ks"
  shows "\<exists>calls r'. poll_and_process rapi r 0 [] = Some (of_nat (length ws), calls, r') \<and>
    (let st = get_or (mp_ticker_state p) t TickerState_default; q = get_or (md_bbo r') t BBO_new in
      (bb_bid_price q, bb_bid_qty q) = (if 0 <s ts_bid_price st \<and> 0 < ts_bid_qty st
         then (ts_bid_price st, ts_bid_qty st) else (INVALID_PRICE, 0)) \<and>
      (bb_ask_price q, bb_ask_qty q) = (if 0 <s ts_ask_price st \<and> 0 < ts_ask_qty st
         then (ts_ask_price st, ts_ask_qty st) else (INVALID_PRICE, 0)))"
proof -
  obtain k p1 where 1: "send_all api (all_snapshots p ks) 0 p = (Inr k, p1)" "mp_socket p' = mp_socket p1"
    using assms(2) by (auto simp: publish_snapshot_def snapshot_loop_eq split: prod.splits sum.splits)
  from send_all_log [OF assms(1) 1(1)] 1(2) assms(3) have ws: "ws = all_snapshots p ks"
    by (intro as_bytes_inj) auto
  have q: "list_all is_quote ws"
    unfolding ws list_all_iff by (auto dest!: snapshots_quote simp: snapshot_quote_def is_quote_def)
  obtain calls r' where r': "poll_and_process rapi r 0 [] = Some (of_nat (length ws), calls, r')"
    "md_bbo r' = md_bbo (process_all ws r)" using poll_and_process_delivers [OF assms(4), of 0 "[]"] by auto
  have c: "count_list ks t \<noteq> 0" using assms(6) by (simp add: count_list_0_iff)
  have new: "get_or (md_bbo r) t BBO_new = BBO_new" using assms(5) by simp
  have inv: "fst (INVALID_PRICE, 0 :: Qty) = INVALID_PRICE" by simp
  note f = bbo_fold [OF q, of r t, unfolded new bbo_new_sides, unfolded ws snapshot_sides Let_def
      fold_quote_replicate [OF inv], folded ws]
  show ?thesis using r' f c
    by (intro exI [where x = calls] exI [where x = r'])
      (auto simp: Let_def bbo_bid_def bbo_ask_def bid_of_def ask_of_def)
qed

theorem snapshot_recovers_state_witness:
  "\<exists>p n p' ws r calls r'. publish_snapshot script_api [1] p = (Inr n, p') \<and>
     sc_sent (mp_socket p') = sc_sent (mp_socket p) @ map MarketUpdate_as_bytes ws \<and>
     poll_and_process script_api r 0 [] = Some (of_nat (length ws), calls, r') \<and>
     bb_bid_price (get_or (md_bbo r') 1 BBO_new) = 100 \<and> bb_bid_qty (get_or (md_bbo r') 1 BBO_new) = 10 \<and>
     bb_ask_price (get_or (md_bbo r') 1 BBO_new) = INVALID_PRICE"
proof -
  let ?st = "\<lparr>ts_bid_price = 100, ts_bid_qty = 10, ts_ask_price = 0, ts_ask_qty = 0, ts_last_seq = 1\<rparr>"
  let ?p = "\<lparr>mp_socket = \<lparr>sc_mode = True, sc_incoming = [], sc_sent = [], sc_pending = []\<rparr>,
    mp_config = MarketDataPublisherConfig_default, mp_ticker_state = fmupd 1 ?st fmempty,
    mp_sequence = 1, mp_updates_since_snapshot = 1, mp_total_updates_sent = 1, mp_total_bytes_sent = 34\<rparr>"
  have st: "get_or (mp_ticker_state ?p) 1 TickerState_default = ?st" by (simp add: get_or_def)
  have msgs: "snapshot_messages 1 ?st 1 = [MarketUpdate_new USnapshot 1 0 1 100 10 1]"
    by (simp add: snapshot_messages_def word_sless_alt word_less_nat_alt)
  obtain n p' where pub: "publish_snapshot script_api [1] ?p = (Inr n, p')"
    and sent: "sc_sent (mp_socket p') = sc_sent (mp_socket ?p) @ map MarketUpdate_as_bytes [MarketUpdate_new USnapshot 1 0 1 100 10 1]"
    using st by (simp add: publish_snapshot_def msgs send_update_def script_defs MarketDataPublisherConfig_default_def
        default_addresses)
  let ?r = "\<lparr>md_socket = \<lparr>sc_mode = True, sc_incoming = map (\<lambda>u. Inr (MarketUpdate_as_bytes u))
    [MarketUpdate_new USnapshot 1 0 1 100 10 1], sc_sent = [], sc_pending = []\<rparr>, md_bbo = fmempty,
    md_subscribers = [], md_last_seq = 0\<rparr>"
  have del: "delivers script_api [MarketUpdate_new USnapshot 1 0 1 100 10 1] (md_socket ?r)" "md_bbo ?r = fmempty" "1 \<in> set [1]"
    using script_delivers [of "[MarketUpdate_new USnapshot 1 0 1 100 10 1]"] by simp_all
  from snapshot_recovers_state [OF script_dgrams(1) pub sent del] st obtain calls r' where
    "poll_and_process script_api ?r 0 [] = Some (of_nat (length [MarketUpdate_new USnapshot 1 0 1 100 10 1]), calls, r')"
    "bb_bid_price (get_or (md_bbo r') 1 BBO_new) = 100" "bb_bid_qty (get_or (md_bbo r') 1 BBO_new) = 10"
    "bb_ask_price (get_or (md_bbo r') 1 BBO_new) = INVALID_PRICE"
    by (auto simp: Let_def word_sless_alt word_less_nat_alt)
  with pub sent show ?thesis by blast
qed

text \<open>C16: everything the exchange emits is well typed, whatever bytes its clients send and
  whichever sends fail: every datagram on the multicast group is the encoding of an update whose
  type byte is that of an addition, a cancellation or a snapshot, whose side byte is 1 or -1 and
  whose ticker is one of the configured ones, so no receiver ignores or misreads it; and every
  response has a valid type byte, with a valid side byte when it accepts or cancels an order.\<close>

theorem exchange_output_well_typed:
  assumes "Exchange_start api resolve args = Some (Inr ex0)" "exchange_loop api iter kss ex0 = Some (Inr (rps, ex))"
    and "dgram_logs api wire"
  shows "\<exists>ws. wire (mp_socket (ex_publisher ex)) =
      wire (mp_socket (ex_publisher ex0)) @ map MarketUpdate_as_bytes ws \<and>
    list_all (update_typed (set (parse_tickers (ar_tickers args)))) ws \<and>
    list_all (\<lambda>rp. response_typed (fst rp)) rps"
proof -
  let ?T = "set (parse_tickers (ar_tickers args))"
  have st: "me_ok (ex_matching_engine ex0)" "engine_abs (ex_matching_engine ex0) = aengine_start ?T"
    using Exchange_start_engine [OF assms(1)] by auto
  obtain rqs where
    run: "run_spec aengine_step rqs (engine_abs (ex_matching_engine ex0)) = (rps, engine_abs (ex_matching_engine ex))"
    using exchange_loop_engine [OF st(1) assms(2)] by auto
  have "dom (fst (aengine_start ?T)) = ?T" by (auto simp: aengine_start_def dom_def)
  then have t: "list_all (\<lambda>(rs, us). response_typed rs \<and> list_all (update_typed ?T) us) rps"
    using aengine_run_typed [of "aengine_start ?T" rqs] run st(2) by simp
  then have us: "list_all (update_typed ?T) (concat (map snd rps))" by (auto simp: list_all_iff)
  have "fset (fmdom (mp_ticker_state (ex_publisher ex0))) \<subseteq> ?T"
    using Exchange_start_publisher(3) [OF assms(1)] by simp
  moreover have "list_all (\<lambda>rp. response_typed (fst rp)) rps" using t by (auto simp: list_all_iff)
  ultimately show ?thesis
    using publish_all_typed [OF assms(3) _ us, of _ iter] unfolding exchange_loop_publisher [OF assms(2)] by blast
qed

theorem exchange_output_well_typed_witness:
  "\<exists>ex0 rps ex ws. Exchange_start example_api example_resolve Args_default = Some (Inr ex0) \<and>
     exchange_loop example_api (\<lambda>_. []) [[1]] ex0 = Some (Inr (rps, ex)) \<and> rps \<noteq> [] \<and>
     sc_sent (mp_socket (ex_publisher ex)) = sc_sent (mp_socket (ex_publisher ex0)) @ map MarketUpdate_as_bytes ws \<and>
     list_all (update_typed {1, 2, 3}) ws \<and> list_all (\<lambda>rp. response_typed (fst rp)) rps"
proof -
  obtain ex0 rps ex where st: "Exchange_start example_api example_resolve Args_default = Some (Inr ex0)"
    and loop: "exchange_loop example_api (\<lambda>_. []) [[1]] ex0 = Some (Inr (rps, ex))" and "rps \<noteq> []"
    using example_run by force
  with exchange_output_well_typed [OF st loop example_dgrams(1)] show ?thesis by (auto simp: default_tickers)
qed

end
