(* ===== verification/F64.thy ===== *)
theory F64
  imports Complex_Main Prelude
begin

text \<open>
  The part of binary64 arithmetic the trading code uses, as an executable model: a finite
  number is the rational it denotes, results are rounded to the nearest representable number,
  ties to even, with gradual underflow and overflow to infinity. The sign of a zero is not
  represented: comparisons, casts, \<open>clamp\<close>, \<open>min\<close>, \<open>max\<close> and \<open>round\<close> do not observe it, and
  the one divisor of the program that can be zero is a difference of equal numbers, which is
  positive zero.
\<close>

section \<open>The model\<close>

datatype f64 = Fin rat | PInf | NInf | NaN

abbreviation pow2 :: "int \<Rightarrow> rat" where
  "pow2 e \<equiv> 2 powi e"

fun nlog2 :: "nat \<Rightarrow> nat" where
  "nlog2 n = (if n < 2 then 0 else Suc (nlog2 (n div 2)))"

declare nlog2.simps [simp del]

text \<open>The binary exponent of a positive rational.\<close>

definition ilog2 :: "rat \<Rightarrow> int" where
  "ilog2 x = (case quotient_of x of (n, d) \<Rightarrow>
     let e = int (nlog2 (nat n)) - int (nlog2 (nat d)) in if pow2 e \<le> x then e else e - 1)"

text \<open>The distance of representable numbers around \<open>x\<close>.\<close>

definition quantum :: "rat \<Rightarrow> rat" where
  "quantum x = pow2 (max (ilog2 \<bar>x\<bar> - 52) (- 1074))"

definition rne :: "rat \<Rightarrow> int" where
  "rne x = (let f = \<lfloor>x\<rfloor>; r = x - of_int f in
     if r < 1 / 2 \<or> r = 1 / 2 \<and> even f then f else f + 1)"

definition rnd :: "rat \<Rightarrow> f64" where
  "rnd x = (if x = 0 then Fin 0
     else let y = of_int (rne (x / quantum x)) * quantum x in
       if pow2 1024 \<le> y then PInf else if y \<le> - pow2 1024 then NInf else Fin y)"

fun f_neg :: "f64 \<Rightarrow> f64" where
  "f_neg (Fin x) = Fin (- x)"
| "f_neg PInf = NInf"
| "f_neg NInf = PInf"
| "f_neg NaN = NaN"

fun f_abs :: "f64 \<Rightarrow> f64" where
  "f_abs (Fin x) = Fin \<bar>x\<bar>"
| "f_abs PInf = PInf"
| "f_abs NInf = PInf"
| "f_abs NaN = NaN"

fun f_add :: "f64 \<Rightarrow> f64 \<Rightarrow> f64" where
  "f_add (Fin x) (Fin y) = rnd (x + y)"
| "f_add NaN b = NaN"
| "f_add a NaN = NaN"
| "f_add PInf NInf = NaN"
| "f_add NInf PInf = NaN"
| "f_add PInf b = PInf"
| "f_add a PInf = PInf"
| "f_add NInf b = NInf"
| "f_add a NInf = NInf"

definition f_sub :: "f64 \<Rightarrow> f64 \<Rightarrow> f64" where
  "f_sub a b = f_add a (f_neg b)"

text \<open>The sign of a number that is not \<open>NaN\<close>, and the infinity of a given sign.\<close>

fun f_sgn :: "f64 \<Rightarrow> int" where
  "f_sgn (Fin x) = (if 0 < x then 1 else if x < 0 then - 1 else 0)"
| "f_sgn PInf = 1"
| "f_sgn NInf = - 1"
| "f_sgn NaN = 0"

definition f_inf :: "int \<Rightarrow> f64" where
  "f_inf s = (if 0 < s then PInf else if s < 0 then NInf else NaN)"

fun f_mul :: "f64 \<Rightarrow> f64 \<Rightarrow> f64" where
  "f_mul (Fin x) (Fin y) = rnd (x * y)"
| "f_mul NaN b = NaN"
| "f_mul a NaN = NaN"
| "f_mul a b = f_inf (f_sgn a * f_sgn b)"

fun f_div :: "f64 \<Rightarrow> f64 \<Rightarrow> f64" where
  "f_div (Fin x) (Fin y) = (if y = 0 then f_inf (f_sgn (Fin x)) else rnd (x / y))"
| "f_div NaN b = NaN"
| "f_div a NaN = NaN"
| "f_div (Fin x) b = Fin 0"
| "f_div a (Fin y) = f_inf (f_sgn a * (if y < 0 then - 1 else 1))"
| "f_div a b = NaN"

fun f_lt :: "f64 \<Rightarrow> f64 \<Rightarrow> bool" where
  "f_lt (Fin x) (Fin y) \<longleftrightarrow> x < y"
| "f_lt NaN b \<longleftrightarrow> False"
| "f_lt a NaN \<longleftrightarrow> False"
| "f_lt NInf b \<longleftrightarrow> b \<noteq> NInf"
| "f_lt a PInf \<longleftrightarrow> a \<noteq> PInf"
| "f_lt a b \<longleftrightarrow> False"

definition f_eq :: "f64 \<Rightarrow> f64 \<Rightarrow> bool" where
  "f_eq a b \<longleftrightarrow> a = b \<and> a \<noteq> NaN"

text \<open>\<open>f64::max\<close> and \<open>f64::min\<close> ignore a \<open>NaN\<close>; \<open>f64::clamp\<close> keeps it. The bounds of every
  \<open>clamp\<close> in the program are constants in order, so its assertion holds.\<close>

definition f_max :: "f64 \<Rightarrow> f64 \<Rightarrow> f64" where
  "f_max a b = (if a = NaN then b else if b = NaN then a else if f_lt a b then b else a)"

definition f_min :: "f64 \<Rightarrow> f64 \<Rightarrow> f64" where
  "f_min a b = (if a = NaN then b else if b = NaN then a else if f_lt b a then b else a)"

definition f_clamp :: "f64 \<Rightarrow> f64 \<Rightarrow> f64 \<Rightarrow> f64" where
  "f_clamp lo hi x = (let x = (if f_lt x lo then lo else x) in if f_lt hi x then hi else x)"

text \<open>\<open>f64::round\<close> rounds half away from zero; the casts trunc_rat and saturate, and \<open>NaN\<close>
  becomes zero.\<close>

definition round_away :: "rat \<Rightarrow> int" where
  "round_away x = (if 0 \<le> x then \<lfloor>x + 1 / 2\<rfloor> else - \<lfloor>1 / 2 - x\<rfloor>)"

fun f_round :: "f64 \<Rightarrow> f64" where
  "f_round (Fin x) = Fin (of_int (round_away x))"
| "f_round a = a"

definition trunc_rat :: "rat \<Rightarrow> int" where
  "trunc_rat x = (if 0 \<le> x then \<lfloor>x\<rfloor> else \<lceil>x\<rceil>)"

fun saturate :: "int \<Rightarrow> int \<Rightarrow> f64 \<Rightarrow> int" where
  "saturate lo hi (Fin x) = max lo (min hi (trunc_rat x))"
| "saturate lo hi PInf = hi"
| "saturate lo hi NInf = lo"
| "saturate lo hi NaN = 0"

definition f64_to_i64 :: "f64 \<Rightarrow> i64" where
  "f64_to_i64 a = word_of_int (saturate (- (2 ^ 63)) (2 ^ 63 - 1) a)"

definition f64_to_u64 :: "f64 \<Rightarrow> u64" where
  "f64_to_u64 a = word_of_int (saturate 0 (2 ^ 64 - 1) a)"

definition f64_to_u32 :: "f64 \<Rightarrow> u32" where
  "f64_to_u32 a = word_of_int (saturate 0 (2 ^ 32 - 1) a)"

definition f64_of_i64 :: "i64 \<Rightarrow> f64" where
  "f64_of_i64 w = rnd (of_int (sint w))"

definition f64_of_u64 :: "u64 \<Rightarrow> f64" where
  "f64_of_u64 w = rnd (of_int (uint w))"

definition f64_of_u32 :: "u32 \<Rightarrow> f64" where
  "f64_of_u32 w = rnd (of_int (uint w))"

text \<open>\<open>f64::EPSILON\<close>, and the comparison of two results up to a tolerance.\<close>

definition EPSILON :: f64 where
  "EPSILON = Fin (1 / 2 ^ 52)"

definition f_near :: "f64 \<Rightarrow> f64 \<Rightarrow> f64 \<Rightarrow> bool" where
  "f_near a b eps \<longleftrightarrow> f_lt (f_abs (f_sub a b)) eps"

section \<open>Rounding\<close>

lemma nlog2_bounds: "0 < n \<Longrightarrow> 2 ^ nlog2 n \<le> n \<and> n < 2 ^ Suc (nlog2 n)"
proof (induction n rule: nlog2.induct)
  case (1 n)
  show ?case
  proof (cases "n < 2")
    case True
    with 1 show ?thesis by (simp add: nlog2.simps)
  next
    case False
    with 1 have "2 ^ nlog2 (n div 2) \<le> n div 2 \<and> n div 2 < 2 ^ Suc (nlog2 (n div 2))" by simp
    then show ?thesis using False by (subst (1 2) nlog2.simps) (simp, linarith)
  qed
qed

lemma pow2_pos [simp]: "0 < pow2 e"
  by (simp add: zero_less_power_int)

lemma nlog2_rat:
  assumes "0 < m"
  shows "(2 :: rat) ^ nlog2 (nat m) \<le> of_int m" "of_int m < 2 * (2 :: rat) ^ nlog2 (nat m)"
proof -
  have "2 ^ nlog2 (nat m) \<le> m" "m < 2 * 2 ^ nlog2 (nat m)"
    using nlog2_bounds [of "nat m"] assms by (simp_all add: nat_less_iff le_nat_iff)
  then have "(of_int (2 ^ nlog2 (nat m)) :: rat) \<le> of_int m" "(of_int m :: rat) < of_int (2 * 2 ^ nlog2 (nat m))"
    unfolding of_int_le_iff of_int_less_iff .
  then show "(2 :: rat) ^ nlog2 (nat m) \<le> of_int m" "of_int m < 2 * (2 :: rat) ^ nlog2 (nat m)" by simp_all
qed

lemma ilog2_bounds:
  assumes "0 < x"
  shows "pow2 (ilog2 x) \<le> x" "x < pow2 (ilog2 x + 1)"
proof -
  obtain n d where q: "quotient_of x = (n, d)" by force
  have d: "0 < d" using quotient_of_denom_pos [OF q] .
  have x: "x = of_int n / of_int d" using quotient_of_div [OF q] .
  then have n: "0 < n" using assms d by (simp add: zero_less_divide_iff)
  define a b where "a = nlog2 (nat n)" and "b = nlog2 (nat d)"
  note N = nlog2_rat [OF n, folded a_def] and D = nlog2_rat [OF d, folded b_def]
  define p where "p = pow2 (int a - int b)"
  have p: "p * 2 ^ b = 2 ^ a" by (simp add: p_def power_int_diff)
  have pos: "0 < (of_int d :: rat)" "0 < p" using d by (simp_all add: p_def)
  have "p * of_int d < p * (2 * 2 ^ b)" using D pos by (intro mult_strict_left_mono) auto
  moreover have "p * (2 * 2 ^ b) = 2 * 2 ^ a" using p by simp
  ultimately have "p * of_int d < 2 * of_int n" using N(1) by linarith
  then have lo: "p / 2 < x" using pos by (simp add: x field_simps)
  have "2 * p * 2 ^ b \<le> 2 * p * of_int d" using D pos by (intro mult_left_mono) auto
  moreover have "2 * p * 2 ^ b = 2 * 2 ^ a" using p by simp
  ultimately have "of_int n < 2 * p * of_int d" using N(2) by linarith
  then have hi: "x < 2 * p" using pos by (simp add: x field_simps)
  have "pow2 (int a - int b + 1) = 2 * p" "pow2 (int a - int b - 1) = p / 2"
    by (simp_all add: p_def power_int_add power_int_diff)
  moreover have "ilog2 x = (if p \<le> x then int a - int b else int a - int b - 1)"
    by (simp add: ilog2_def q p_def a_def b_def Let_def)
  ultimately show "pow2 (ilog2 x) \<le> x" "x < pow2 (ilog2 x + 1)" using lo hi by (auto simp: p_def)
qed

lemma ilog2_le: "0 < x \<Longrightarrow> x < pow2 (k + 1) \<Longrightarrow> ilog2 x \<le> k"
proof (rule ccontr)
  assume x: "0 < x" "x < pow2 (k + 1)" and "\<not> ilog2 x \<le> k"
  then have "pow2 (k + 1) \<le> pow2 (ilog2 x)" by (intro power_int_increasing) auto
  with ilog2_bounds(1) [OF x(1)] x(2) show False by simp
qed

lemma rne_error: "\<bar>of_int (rne x) - x\<bar> \<le> 1 / 2"
proof -
  have "of_int \<lfloor>x\<rfloor> \<le> x" "x < of_int \<lfloor>x\<rfloor> + 1" by linarith+
  then show ?thesis by (auto simp: rne_def Let_def)
qed

lemma rne_between:
  assumes "of_int a \<le> x" "x \<le> of_int b"
  shows "a \<le> rne x" "rne x \<le> b"
proof -
  have "a \<le> \<lfloor>x\<rfloor>" using assms(1) by (simp add: le_floor_iff)
  then show "a \<le> rne x" by (simp add: rne_def Let_def)
  show "rne x \<le> b"
  proof (cases "x = of_int b")
    case True
    then show ?thesis by (simp add: rne_def)
  next
    case False
    then have "\<lfloor>x\<rfloor> < b" using assms(2) by (simp add: floor_less_iff)
    then show ?thesis by (simp add: rne_def Let_def)
  qed
qed

lemma quantum_pos [simp]: "0 < quantum x" "quantum x \<noteq> 0" "0 \<le> quantum x"
  by (simp_all add: quantum_def)

text \<open>Rounding stays within every symmetric interval whose bound is representable.\<close>

lemma rnd_within:
  assumes "\<bar>x\<bar> \<le> of_int m * quantum x" "of_int m * quantum x < pow2 1024" "x \<noteq> 0"
  shows "\<exists>y. rnd x = Fin y \<and> \<bar>y\<bar> \<le> of_int m * quantum x \<and> \<bar>y - x\<bar> \<le> quantum x / 2"
proof -
  let ?q = "quantum x"
  have "of_int (- m) \<le> x / ?q" "x / ?q \<le> of_int m"
    using assms(1) by (simp_all add: field_simps abs_le_iff)
  from rne_between [OF this] have r: "- m \<le> rne (x / ?q)" "rne (x / ?q) \<le> m" by auto
  define y where "y = of_int (rne (x / ?q)) * ?q"
  have "\<bar>of_int (rne (x / ?q)) :: rat\<bar> \<le> of_int m" using r by linarith
  then have y: "\<bar>y\<bar> \<le> of_int m * ?q" unfolding y_def abs_mult using quantum_pos(1) [of x]
    by (metis abs_of_pos less_imp_le mult_right_mono)
  have "y - x = (of_int (rne (x / ?q)) - x / ?q) * ?q" by (simp add: y_def field_simps)
  then have "\<bar>y - x\<bar> = \<bar>of_int (rne (x / ?q)) - x / ?q\<bar> * ?q"
    using quantum_pos(1) [of x] by (simp add: abs_mult abs_of_pos)
  then have "\<bar>y - x\<bar> \<le> ?q / 2"
    using mult_right_mono [OF rne_error [of "x / ?q"], of ?q] by simp
  moreover have "y < pow2 1024" "- pow2 1024 < y"
    using order_le_less_trans [OF y assms(2)] unfolding abs_less_iff by linarith+
  then have "rnd x = Fin y" using assms(3) by (simp add: rnd_def y_def [symmetric] Let_def not_le)
  ultimately show ?thesis using y by auto
qed

lemma pow2_multiple: "j \<le> k \<Longrightarrow> \<exists>m. pow2 k = of_int m * pow2 j"
proof -
  assume "j \<le> k"
  then have "pow2 k = of_int (2 ^ nat (k - j)) * pow2 j"
    by (simp add: power_int_add [symmetric] flip: power_int_of_nat)
  then show ?thesis by blast
qed

text \<open>For magnitudes up to \<open>2 ^ k\<close> the result is finite, no greater than \<open>2 ^ k\<close>, and off by at
  most \<open>2 ^ (k - 53)\<close>.\<close>

lemma rnd_pow2:
  assumes "\<bar>x\<bar> \<le> pow2 k" "- 1022 \<le> k" "k < 1024"
  shows "\<exists>y. rnd x = Fin y \<and> \<bar>y\<bar> \<le> pow2 k \<and> \<bar>y - x\<bar> \<le> pow2 (k - 53)"
proof (cases "x = 0")
  case True
  then show ?thesis by (simp add: rnd_def)
next
  case False
  show ?thesis
  proof (cases "\<bar>x\<bar> = pow2 k")
    case True
    have e: "ilog2 \<bar>x\<bar> = k"
    proof (rule antisym)
      show "ilog2 \<bar>x\<bar> \<le> k" using True by (intro ilog2_le) (simp_all add: power_int_add)
      show "k \<le> ilog2 \<bar>x\<bar>"
      proof (rule ccontr)
        assume "\<not> k \<le> ilog2 \<bar>x\<bar>"
        then have "pow2 (ilog2 \<bar>x\<bar> + 1) \<le> pow2 k" by (intro power_int_increasing) auto
        with ilog2_bounds(2) [of "\<bar>x\<bar>"] False True show False by simp
      qed
    qed
    have "quantum x = pow2 (k - 52)" using assms(2) by (simp add: quantum_def e)
    then obtain m where m: "pow2 k = of_int m * quantum x" using pow2_multiple [of "k - 52" k] by auto
    have "pow2 k < pow2 1024" using assms(3) by (intro power_int_strict_increasing) auto
    with rnd_within [of x m] m True False obtain y where
      "rnd x = Fin y" "\<bar>y\<bar> \<le> pow2 k" "\<bar>y - x\<bar> \<le> quantum x / 2" by auto
    then show ?thesis using \<open>quantum x = pow2 (k - 52)\<close> by (auto simp: power_int_diff)
  next
    case lt: False
    then have "ilog2 \<bar>x\<bar> \<le> k - 1" using assms(1) False by (intro ilog2_le) auto
    then have e: "max (ilog2 \<bar>x\<bar> - 52) (- 1074) \<le> k - 52" using assms(2) by simp
    then obtain m where m: "pow2 k = of_int m * quantum x"
      using pow2_multiple [of "max (ilog2 \<bar>x\<bar> - 52) (- 1074)" k] by (auto simp: quantum_def)
    have q: "quantum x \<le> pow2 (k - 52)" unfolding quantum_def using e by (intro power_int_increasing) auto
    have "pow2 k < pow2 1024" using assms(3) by (intro power_int_strict_increasing) auto
    with rnd_within [of x m] m assms(1) False obtain y where
      "rnd x = Fin y" "\<bar>y\<bar> \<le> pow2 k" "\<bar>y - x\<bar> \<le> quantum x / 2" by auto
    moreover have "quantum x / 2 \<le> pow2 (k - 53)" using q by (simp add: power_int_diff)
    ultimately show ?thesis by (meson order_trans)
  qed
qed

lemma rnd_exact:
  assumes "x = of_int m * quantum x" "\<bar>x\<bar> < pow2 1024"
  shows "rnd x = Fin x"
proof (cases "x = 0")
  case False
  have "x / quantum x = of_int m" using assms(1) by (metis nonzero_mult_div_cancel_right quantum_pos(2))
  then have "rne (x / quantum x) = m" by (simp add: rne_def)
  with assms(1) have "of_int (rne (x / quantum x)) * quantum x = x" by simp
  moreover have "x < pow2 1024" "- pow2 1024 < x" using assms(2) unfolding abs_less_iff by linarith+
  ultimately show ?thesis using False unfolding rnd_def Let_def by (simp add: not_le)
qed (simp add: rnd_def)

lemma rnd_int:
  assumes "\<bar>n\<bar> < 2 ^ 53"
  shows "rnd (of_int n) = Fin (of_int n)"
proof (cases "n = 0")
  case False
  let ?x = "of_int n :: rat"
  have abs: "\<bar>?x\<bar> < 2 ^ 53" using assms by (simp flip: of_int_abs)
  then have "ilog2 \<bar>?x\<bar> \<le> 52" using False by (intro ilog2_le) simp_all
  then obtain m where m: "pow2 0 = of_int m * quantum ?x"
    using pow2_multiple [of "max (ilog2 \<bar>?x\<bar> - 52) (- 1074)" 0] by (auto simp: quantum_def)
  then have "?x = of_int (n * m) * quantum ?x" by simp
  moreover have "(2 :: rat) ^ 53 < pow2 1024" by simp
  ultimately show ?thesis using abs by (intro rnd_exact) (assumption, linarith)
qed (simp add: rnd_def)

lemma rnd_0 [simp]: "rnd 0 = Fin 0"
  by (simp add: rnd_def)

lemma f64_of_u32_exact: "f64_of_u32 q = Fin (of_int (uint q))"
  unfolding f64_of_u32_def using uint_u32_bounds [of q] by (intro rnd_int) simp

lemma f64_of_i64_exact: "\<bar>sint w\<bar> < 2 ^ 53 \<Longrightarrow> f64_of_i64 w = Fin (of_int (sint w))"
  unfolding f64_of_i64_def by (rule rnd_int)

text \<open>Clamping a number that is not \<open>NaN\<close> gives a finite number within the bounds.\<close>

definition unit_f64 :: "f64 \<Rightarrow> bool" where
  "unit_f64 a \<longleftrightarrow> (\<exists>q. a = Fin q \<and> \<bar>q\<bar> \<le> 1)"

lemma unit_f64_Fin [simp]: "unit_f64 (Fin q) \<longleftrightarrow> \<bar>q\<bar> \<le> 1"
  by (simp add: unit_f64_def)

lemma f_clamp_unit: "a \<noteq> NaN \<Longrightarrow> unit_f64 (f_clamp (Fin (- 1)) (Fin 1) a)"
  by (cases a) (auto simp: f_clamp_def unit_f64_def Let_def)

lemma rnd_not_NaN [simp]: "rnd x \<noteq> NaN"
  by (simp add: rnd_def Let_def)

lemma rnd_unit: "\<bar>x\<bar> \<le> 1 \<Longrightarrow> unit_f64 (rnd x)"
  using rnd_pow2 [of x 0] by (auto simp: unit_f64_def)

text \<open>Every 64-bit integer has a finite image.\<close>

lemma f64_of_i64_finite: "\<exists>y. f64_of_i64 w = Fin y \<and> \<bar>y\<bar> \<le> 2 ^ 63"
proof -
  have "- (2 ^ 63) \<le> sint w" "sint w < 2 ^ 63" using sint_greater_eq [of w] sint_less [of w] by simp_all
  then have "\<bar>of_int (sint w) :: rat\<bar> \<le> pow2 63" by (simp del: of_int_sint add: abs_le_iff)
  then show ?thesis using rnd_pow2 [of "of_int (sint w)" 63] unfolding f64_of_i64_def by auto
qed

lemma f64_of_u64_finite: "\<exists>y. f64_of_u64 w = Fin y \<and> \<bar>y\<bar> \<le> 2 ^ 64"
proof -
  have "0 \<le> uint w" "uint w < 2 ^ 64" using uint_lt2p [of w] by simp_all
  then have "\<bar>of_int (uint w) :: rat\<bar> \<le> pow2 64" by (simp del: of_int_uint add: abs_le_iff)
  then show ?thesis using rnd_pow2 [of "of_int (uint w)" 64] unfolding f64_of_u64_def by auto
qed

text \<open>Rounding does not cross a power of two, in particular not zero.\<close>

lemma rnd_ge_pow2:
  assumes "pow2 k \<le> x" "- 1022 \<le> k" "rnd x = Fin y"
  shows "pow2 k \<le> y"
proof -
  have x: "0 < x" using assms(1) pow2_pos [of k] by linarith
  have k: "k \<le> ilog2 x"
  proof (rule ccontr)
    assume "\<not> k \<le> ilog2 x"
    then have "pow2 (ilog2 x + 1) \<le> pow2 k" by (intro power_int_increasing) auto
    with ilog2_bounds(2) [OF x] assms(1) show False by linarith
  qed
  then obtain m where m: "pow2 (ilog2 x) = of_int m * quantum x"
    using pow2_multiple [of "max (ilog2 x - 52) (- 1074)" "ilog2 x"] assms(2) x by (auto simp: quantum_def)
  have "of_int m * quantum x \<le> x" using ilog2_bounds(1) [OF x] m by simp
  then have "of_int m \<le> x / quantum x" by (simp add: pos_le_divide_eq)
  moreover have "x / quantum x \<le> of_int \<lceil>x / quantum x\<rceil>" by (rule le_of_int_ceiling)
  ultimately have "m \<le> rne (x / quantum x)" by (rule rne_between(1))
  then have "of_int m * quantum x \<le> of_int (rne (x / quantum x)) * quantum x" by (intro mult_right_mono) simp_all
  moreover have "y = of_int (rne (x / quantum x)) * quantum x"
    using assms(3) x by (auto simp: rnd_def Let_def split: if_splits)
  moreover have "pow2 k \<le> pow2 (ilog2 x)" using k by (intro power_int_increasing) auto
  ultimately show ?thesis using m by linarith
qed

text \<open>\<open>round\<close> followed by the cast returns to integers.\<close>

lemma round_away_between:
  assumes "of_int l - 1 / 2 < x" "x < of_int h + 1 / 2"
  shows "l \<le> round_away x" "round_away x \<le> h"
proof -
  show "l \<le> round_away x"
  proof (cases "0 \<le> x")
    case True
    then show ?thesis using assms(1) by (simp add: round_away_def le_floor_iff)
  next
    case False
    have "\<lfloor>1 / 2 - x\<rfloor> < 1 - l" using assms(1) by (simp add: floor_less_iff)
    with False show ?thesis by (simp add: round_away_def)
  qed
  show "round_away x \<le> h"
  proof (cases "0 \<le> x")
    case True
    have "x + 1 / 2 < of_int (h + 1)" using assms(2) by simp
    then have "\<lfloor>x + 1 / 2\<rfloor> < h + 1" by (simp only: floor_less_iff)
    with True show ?thesis by (simp add: round_away_def)
  next
    case False
    have "- h \<le> \<lfloor>1 / 2 - x\<rfloor>" using assms(2) by (simp add: le_floor_iff)
    with False show ?thesis by (simp add: round_away_def)
  qed
qed

lemma sint_f64_to_i64: "fits_i64 n \<Longrightarrow> sint (f64_to_i64 (Fin (of_int n))) = n"
  by (auto simp: f64_to_i64_def trunc_rat_def fits_i64_def sint_of_int_i64)

text \<open>Rounding respects integer bounds of up to 53 bits, from above and from below.\<close>

lemma quantum_divides_int:
  assumes "\<bar>x\<bar> < 2 ^ 53" "x \<noteq> 0"
  shows "\<exists>m. of_int n = of_int m * quantum x"
proof -
  have "ilog2 \<bar>x\<bar> \<le> 52" using assms by (intro ilog2_le) simp_all
  then obtain m where "pow2 0 = of_int m * quantum x"
    using pow2_multiple [of "max (ilog2 \<bar>x\<bar> - 52) (- 1074)" 0] by (auto simp: quantum_def)
  then have "of_int n = of_int (n * m) * quantum x" by simp
  then show ?thesis by blast
qed

lemma rnd_int_bound:
  assumes "\<bar>x\<bar> \<le> of_int n" "n < 2 ^ 53"
  shows "\<exists>y. rnd x = Fin y \<and> \<bar>y\<bar> \<le> of_int n"
proof (cases "x = 0")
  case True
  then show ?thesis using assms(1) by (auto simp: rnd_def)
next
  case False
  have "of_int n < (2 :: rat) ^ 53" using assms(2) by (simp flip: of_int_power [where 'a = rat])
  then have x: "\<bar>x\<bar> < 2 ^ 53" and big: "of_int n < pow2 1024" using assms(1) by simp_all
  from quantum_divides_int [OF x False, of n] obtain m where "of_int n = of_int m * quantum x" by blast
  with rnd_within [of x m] assms(1) big False show ?thesis by auto
qed

lemma rnd_int_lower:
  assumes "of_int n \<le> x" "0 \<le> n" "n < 2 ^ 53" "rnd x = Fin y"
  shows "of_int n \<le> y"
proof (cases "x < 2 ^ 53 \<and> x \<noteq> 0")
  case True
  have x0: "0 \<le> x" using assms(1,2) by (meson of_int_0_le_iff order_trans)
  with True quantum_divides_int [of x n] obtain m where m: "of_int n = of_int m * quantum x" by auto
  then have "of_int m \<le> x / quantum x" using assms(1) by (simp add: pos_le_divide_eq)
  then have "m \<le> rne (x / quantum x)" using le_of_int_ceiling by (rule rne_between(1))
  then have "of_int m * quantum x \<le> of_int (rne (x / quantum x)) * quantum x" by (intro mult_right_mono) simp_all
  with m assms(4) True show ?thesis by (auto simp: rnd_def Let_def split: if_splits)
next
  case False
  show ?thesis
  proof (cases "x = 0")
    case True
    with assms show ?thesis by (auto simp: rnd_def)
  next
    case nz: False
    with False have "pow2 53 \<le> x" by simp
    from rnd_ge_pow2 [OF this _ assms(4)] have "2 ^ 53 \<le> y" by simp
    moreover have "of_int n < (2 :: rat) ^ 53" using assms(3) by (simp flip: of_int_power [where 'a = rat])
    ultimately show ?thesis by linarith
  qed
qed

lemma trunc_rat_abs: "\<bar>y\<bar> \<le> of_int n \<Longrightarrow> \<bar>trunc_rat y\<bar> \<le> n"
  by (auto simp: trunc_rat_def abs_le_iff floor_le_iff le_floor_iff ceiling_le_iff le_ceiling_iff) linarith+

lemma trunc_rat_nonneg: "0 \<le> y \<Longrightarrow> 0 \<le> trunc_rat y"
  by (simp add: trunc_rat_def)

lemma sint_f64_to_i64_trunc:
  assumes "\<bar>y\<bar> \<le> of_int n" "n < 2 ^ 63"
  shows "sint (f64_to_i64 (Fin y)) = trunc_rat y"
proof -
  have "\<bar>trunc_rat y\<bar> \<le> n" using assms(1) by (rule trunc_rat_abs)
  with assms(2) have f: "fits_i64 (trunc_rat y)" "- (2 ^ 63) \<le> trunc_rat y" "trunc_rat y \<le> 2 ^ 63 - 1"
    unfolding fits_i64_def by linarith+
  then have "max (- (2 ^ 63)) (min (2 ^ 63 - 1) (trunc_rat y)) = trunc_rat y" by simp
  then show ?thesis using f(1) by (simp only: f64_to_i64_def saturate.simps sint_of_int_i64)
qed

text \<open>A value of at least \<open>n\<close> converts to an unsigned integer of at least \<open>n\<close>, overflow included.\<close>

lemma rnd_nonneg_NInf: "0 \<le> x \<Longrightarrow> rnd x \<noteq> NInf"
proof -
  assume "0 \<le> x"
  then have "0 \<le> rne (x / quantum x)" by (simp add: rne_def Let_def)
  then have "0 \<le> of_int (rne (x / quantum x)) * quantum x" by simp
  moreover have "- pow2 1024 < 0" using pow2_pos [of 1024] by linarith
  ultimately have "\<not> of_int (rne (x / quantum x)) * quantum x \<le> - pow2 1024" by linarith
  then show ?thesis by (simp add: rnd_def Let_def)
qed

lemma f64_to_u64_lower:
  assumes "of_int n \<le> x" "0 \<le> n" "n < 2 ^ 53"
  shows "n \<le> uint (f64_to_u64 (rnd x))"
proof -
  have "0 \<le> x" using assms(1,2) by (meson of_int_0_le_iff order_trans)
  then have "n \<le> saturate 0 (2 ^ 64 - 1) (rnd x)"
  proof (cases "rnd x")
    case (Fin y)
    have "of_int n \<le> y" by (rule rnd_int_lower [OF assms Fin])
    moreover then have "0 \<le> y" using assms(2) by (meson of_int_0_le_iff order_trans)
    ultimately show ?thesis using assms(3) by (simp add: Fin trunc_rat_def le_floor_iff)
  qed (use assms(3) rnd_nonneg_NInf in auto)
  moreover have "0 \<le> saturate 0 (2 ^ 64 - 1) (rnd x)" "saturate 0 (2 ^ 64 - 1) (rnd x) < 2 ^ 64"
    by (cases "rnd x"; simp)+
  then have "uint (f64_to_u64 (rnd x)) = saturate 0 (2 ^ 64 - 1) (rnd x)"
    by (simp add: f64_to_u64_def uint_word_of_int)
  ultimately show ?thesis by simp
qed

section \<open>Evaluation\<close>

text \<open>Equations by which the kernel computes a rounding in time proportional to the number of bits.\<close>

function zlog2 :: "int \<Rightarrow> int" where
  "zlog2 n = (if n < 2 then 0 else 1 + zlog2 (n div 2))"
  by auto
termination by (relation "measure nat") auto

declare zlog2.simps [simp del]

lemma int_nlog2: "int (nlog2 (nat n)) = zlog2 n"
proof (induction n rule: zlog2.induct)
  case (1 n)
  then show ?case
    by (subst nlog2.simps, subst zlog2.simps) (auto simp: nat_div_distrib)
qed

function zpow2 :: "int \<Rightarrow> int" where
  "zpow2 e = (if e \<le> 0 then 1 else let h = zpow2 (e div 2) in if e mod 2 = 0 then h * h else 2 * (h * h))"
  by auto
termination by (relation "measure nat") auto

declare zpow2.simps [simp del]

lemma zpow2_eq: "0 \<le> e \<Longrightarrow> zpow2 e = 2 ^ nat e"
proof (induction e rule: zpow2.induct)
  case (1 e)
  show ?case
  proof (cases "e = 0")
    case True
    then show ?thesis by (simp add: zpow2.simps)
  next
    case False
    then have IH: "zpow2 (e div 2) = 2 ^ nat (e div 2)" using 1 by simp
    have "e = e div 2 + e div 2 + e mod 2" by presburger
    moreover have "0 \<le> e div 2" "0 \<le> e mod 2" using 1(2) by simp_all
    ultimately have e: "nat e = nat (e div 2) + nat (e div 2) + nat (e mod 2)" by (metis add_nonneg_nonneg nat_add_distrib)
    have "e mod 2 = 0 \<or> e mod 2 = 1" by presburger
    then show ?thesis using 1(2) False IH unfolding e power_add
      by (subst zpow2.simps) (auto simp: Let_def)
  qed
qed

definition rat_pow2 :: "int \<Rightarrow> rat" where
  "rat_pow2 e = (if 0 \<le> e then of_int (zpow2 e) else inverse (of_int (zpow2 (- e))))"

lemma rat_pow2: "pow2 e = rat_pow2 e"
  by (auto simp: rat_pow2_def zpow2_eq power_int_def power_one_over inverse_eq_divide)

lemma ilog2_code [code]:
  "ilog2 x = (case quotient_of x of (n, d) \<Rightarrow>
     let e = zlog2 n - zlog2 d in if rat_pow2 e \<le> x then e else e - 1)"
  by (simp add: ilog2_def int_nlog2 rat_pow2 split: prod.split)

lemma quantum_code [code]: "quantum x = rat_pow2 (max (ilog2 \<bar>x\<bar> - 52) (- 1074))"
  by (simp add: quantum_def rat_pow2)

lemma rnd_code [code]:
  "rnd x = (if x = 0 then Fin 0
     else let q = quantum x; y = of_int (rne (x / q)) * q in
       if rat_pow2 1024 \<le> y then PInf else if y \<le> - rat_pow2 1024 then NInf else Fin y)"
  unfolding rnd_def Let_def rat_pow2 ..

end
