(* ===== verification/Time.thy ===== *)
theory Time
  imports F64
begin

text \<open>
  Timestamps and latency statistics, \<open>common/src/time.rs\<close>. Readings of the monotonic clock are
  arguments; the cycle counter instructions are not represented.
\<close>

section \<open>The model\<close>

datatype Nanos = Nanos (nanos_val: u64)

definition Nanos_new :: "u64 \<Rightarrow> Nanos" where
  "Nanos_new nanos = Nanos nanos"

definition as_u64 :: "Nanos \<Rightarrow> u64" where
  "as_u64 t = nanos_val t"

definition Nanos_sub :: "Nanos \<Rightarrow> Nanos \<Rightarrow> u64" where
  "Nanos_sub a b = saturating_sub (nanos_val a) (nanos_val b)"

definition Nanos_add :: "Nanos \<Rightarrow> u64 \<Rightarrow> Nanos" where
  "Nanos_add a d = Nanos (saturating_add (nanos_val a) d)"

text \<open>\<open>now_nanos\<close>: the nanoseconds elapsed since the epoch, a \<open>u128\<close> cut to 64 bits.\<close>

definition now_nanos :: "nat \<Rightarrow> Nanos" where
  "now_nanos elapsed = Nanos (of_nat elapsed)"

definition nanos_since :: "Nanos \<Rightarrow> Nanos \<Rightarrow> u64" where
  "nanos_since now start = saturating_sub (nanos_val now) (nanos_val start)"

definition Nanos_elapsed :: "Nanos \<Rightarrow> Nanos \<Rightarrow> u64" where
  "Nanos_elapsed now t = nanos_since now t"

record LatencyStats =
  ls_count :: u64
  ls_sum :: u64
  ls_min :: u64
  ls_max :: u64

definition LatencyStats_new :: LatencyStats where
  "LatencyStats_new = \<lparr>ls_count = 0, ls_sum = 0, ls_min = - 1, ls_max = 0\<rparr>"

definition LatencyStats_default :: LatencyStats where
  "LatencyStats_default = LatencyStats_new"

definition record_latency :: "u64 \<Rightarrow> LatencyStats \<Rightarrow> LatencyStats" where
  "record_latency latency_nanos st =
     \<lparr>ls_count = ls_count st + 1, ls_sum = saturating_add (ls_sum st) latency_nanos,
      ls_min = min (ls_min st) latency_nanos, ls_max = max (ls_max st) latency_nanos\<rparr>"

definition reset_stats :: "LatencyStats \<Rightarrow> LatencyStats" where
  "reset_stats st = st\<lparr>ls_count := 0, ls_sum := 0, ls_min := - 1, ls_max := 0\<rparr>"

definition latency_mean :: "LatencyStats \<Rightarrow> f64" where
  "latency_mean st = (if ls_count st = 0 then Fin 0 else f_div (f64_of_u64 (ls_sum st)) (f64_of_u64 (ls_count st)))"

text \<open>A scoped timer borrows the statistics: it holds them until it is dropped.\<close>

record ScopedTimer =
  st_stats :: LatencyStats
  st_start :: Nanos

definition ScopedTimer_new :: "Nanos \<Rightarrow> LatencyStats \<Rightarrow> ScopedTimer" where
  "ScopedTimer_new now stats = \<lparr>st_stats = stats, st_start = now\<rparr>"

definition ScopedTimer_elapsed :: "Nanos \<Rightarrow> ScopedTimer \<Rightarrow> u64" where
  "ScopedTimer_elapsed now timer = nanos_since now (st_start timer)"

definition ScopedTimer_drop :: "Nanos \<Rightarrow> ScopedTimer \<Rightarrow> LatencyStats" where
  "ScopedTimer_drop now timer =
     (let elapsed = nanos_since now (st_start timer) in record_latency elapsed (st_stats timer))"

section \<open>Properties\<close>

text \<open>Timestamps never run backwards: differences are truncated at zero and sums saturate.\<close>

lemma Nanos_arith:
  "unat (Nanos_sub a b) = unat (nanos_val a) - unat (nanos_val b)"
  "unat (nanos_val (Nanos_add a d)) = min (unat (nanos_val a) + unat d) (2 ^ 64 - 1)"
  by (simp_all add: Nanos_sub_def Nanos_add_def unat_saturating_add)

lemma fold_record_latency:
  "fold record_latency xs st =
     \<lparr>ls_count = ls_count st + of_nat (length xs), ls_sum = fold (\<lambda>x s. saturating_add s x) xs (ls_sum st),
      ls_min = fold min xs (ls_min st), ls_max = fold max xs (ls_max st)\<rparr>"
  by (induction xs arbitrary: st) (simp_all add: record_latency_def min.commute max.commute)

lemma unat_fold_saturating_add:
  "unat (fold (\<lambda>x s. saturating_add s x) xs (a :: u64)) = min (unat a + (\<Sum>x\<leftarrow>xs. unat x)) (2 ^ 64 - 1)"
proof (induction xs arbitrary: a)
  case Nil
  have "unat a < 2 ^ 64" using unsigned_less [of a, where 'a = nat] by simp
  then show ?case by simp
next
  case (Cons x xs)
  then show ?case by (simp add: unat_saturating_add min_def)
qed

text \<open>Latency statistics are exact: after any measurements, starting from new or reset
  statistics, the count is their number (modulo \<open>2 ^ 64\<close>), the sum their sum capped at the
  greatest 64-bit value, and minimum and maximum are those of the measurements, or the
  documented sentinels when there are none.\<close>

lemma latency_stats_exact:
  "let st = fold record_latency xs (reset_stats st0) in
   st = fold record_latency xs LatencyStats_new \<and>
   ls_count st = of_nat (length xs) \<and> unat (ls_sum st) = min (\<Sum>x\<leftarrow>xs. unat x) (2 ^ 64 - 1) \<and>
   (if xs = [] then ls_min st = - 1 \<and> ls_max st = 0
    else ls_min st = Min (set xs) \<and> ls_max st = Max (set xs))"
proof -
  have reset: "reset_stats st0 = LatencyStats_new" by (simp add: reset_stats_def LatencyStats_new_def)
  have "fold min xs (- 1 :: u64) = Min (set ((- 1) # xs))" "fold max xs (0 :: u64) = Max (set (0 # xs))"
    by (simp_all only: Min.set_eq_fold Max.set_eq_fold)
  moreover have "min (- 1) x = (x :: u64)" "max 0 x = x" for x
    by (simp_all add: min_absorb2 word_order.extremum)
  ultimately have "fold min xs (- 1 :: u64) = (if xs = [] then - 1 else Min (set xs))"
    "fold max xs (0 :: u64) = (if xs = [] then 0 else Max (set xs))"
    by auto
  then show ?thesis
    unfolding reset Let_def fold_record_latency
    by (simp add: LatencyStats_new_def unat_fold_saturating_add)
qed

text \<open>The mean of at least one measurement lies between the least and the greatest, rounding
  included, while sum and count are exact as floating-point numbers.\<close>

lemma rat_mean_between:
  fixes s n lo hi :: int
  assumes "0 < n" "lo * n \<le> s" "s \<le> hi * n" "0 \<le> lo" "lo < 2 ^ 53" "hi < 2 ^ 53"
  shows "\<exists>y. rnd (of_int s / of_int n) = Fin y \<and> of_int lo \<le> y \<and> y \<le> of_int hi"
proof -
  have n: "(0 :: rat) < of_int n" using assms(1) by simp
  have lo: "(of_int lo :: rat) \<le> of_int s / of_int n"
    using assms(2) n by (simp add: pos_le_divide_eq flip: of_int_mult)
  have hi: "of_int s / of_int n \<le> (of_int hi :: rat)"
    using assms(3) n by (simp add: pos_divide_le_eq flip: of_int_mult)
  have "(0 :: rat) \<le> of_int lo" using assms(4) by simp
  then have "\<bar>of_int s / of_int n :: rat\<bar> \<le> of_int hi" using lo hi by linarith
  then obtain y where y: "rnd (of_int s / of_int n) = Fin y" "\<bar>y\<bar> \<le> of_int hi"
    using rnd_int_bound [OF _ assms(6)] by blast
  moreover have "of_int lo \<le> y" by (rule rnd_int_lower [OF lo assms(4,5) y(1)])
  ultimately show ?thesis by (intro exI [of _ y]) simp
qed

lemma mean_between:
  assumes "xs \<noteq> []" "(\<Sum>x\<leftarrow>xs. unat x) < 2 ^ 53" "length xs < 2 ^ 53"
  shows "\<exists>y. latency_mean (fold record_latency xs LatencyStats_new) = Fin y \<and>
    of_int (uint (Min (set xs))) \<le> y \<and> y \<le> of_int (uint (Max (set xs)))"
proof -
  let ?st = "fold record_latency xs LatencyStats_new"
  define S n where "S = int (\<Sum>x\<leftarrow>xs. unat x)" and "n = int (length xs)"
  have st: "ls_count ?st = of_nat (length xs)" "unat (ls_sum ?st) = (\<Sum>x\<leftarrow>xs. unat x)"
    using assms(2) by (simp_all add: fold_record_latency LatencyStats_new_def unat_fold_saturating_add)
  have u: "uint (ls_sum ?st) = S" "uint (ls_count ?st) = n"
    using st assms(3) by (simp_all add: S_def n_def uint_nat unat_of_nat)
  have bounds: "0 \<le> S" "S < 2 ^ 53" "0 < n" "n < 2 ^ 53" using assms by (simp_all add: S_def n_def)
  have mean: "latency_mean ?st = rnd (of_int S / of_int n)"
  proof -
    have "f64_of_u64 (ls_sum ?st) = Fin (of_int S)" "f64_of_u64 (ls_count ?st) = Fin (of_int n)"
      unfolding f64_of_u64_def u using rnd_int [of S] rnd_int [of n] bounds by simp_all
    moreover have "ls_count ?st \<noteq> 0" using u(2) bounds(3) by auto
    ultimately show ?thesis using bounds(3) by (simp add: latency_mean_def)
  qed
  have sum: "length ys * unat (Min (set xs)) \<le> (\<Sum>x\<leftarrow>ys. unat x) \<and> (\<Sum>x\<leftarrow>ys. unat x) \<le> length ys * unat (Max (set xs))"
    if "set ys \<subseteq> set xs" for ys
    using that by (induction ys) (auto simp: word_le_nat_alt [symmetric] intro!: add_mono)
  have small: "unat x < 2 ^ 53" if "x \<in> set xs" for x
  proof -
    have "unat x \<le> (\<Sum>x\<leftarrow>xs. unat x)" using that by (simp add: member_le_sum_list)
    with assms(2) show ?thesis by (rule order_le_less_trans [rotated])
  qed
  have "Min (set xs) \<in> set xs" "Max (set xs) \<in> set xs" using assms(1) by simp_all
  note le = this [THEN small]
  have lo: "uint (Min (set xs)) * n \<le> S" and hi: "S \<le> uint (Max (set xs)) * n"
    using sum [OF subset_refl] unfolding S_def n_def uint_nat of_nat_mult [symmetric] of_nat_le_iff
    by (simp_all only: mult.commute)
  have "int (unat (Min (set xs))) < int (2 ^ 53)" "int (unat (Max (set xs))) < int (2 ^ 53)"
    unfolding of_nat_less_iff by (rule le)+
  then have "uint (Min (set xs)) < 2 ^ 53" "uint (Max (set xs)) < 2 ^ 53" by simp_all
  from rat_mean_between [OF bounds(3) lo hi _ this] show ?thesis unfolding mean by simp
qed

end
