(* ===== verification/OrderGateway.thy ===== *)
theory OrderGateway
  imports Protocol Net Time
begin

text \<open>
  The order gateway of a trading client (\<open>trading/src/order_gateway.rs\<close>): it numbers and sends
  orders over a TCP connection, keeps the orders it has not seen end, and cuts the incoming
  stream into responses, one per poll. The clock value read by \<open>send_new_order\<close> is an argument,
  and the results of sends are ignored, as in the code.
\<close>

section \<open>The model\<close>

record PendingOrder =
  po_order_id :: OrderId
  po_ticker_id :: TickerId
  po_side :: Side
  po_price :: Price
  po_qty :: Qty
  po_sent_time :: Nanos

record 's OrderGateway =
  og_socket :: "'s TcpSocket"
  og_client_id :: ClientId
  og_next_order_id :: OrderId
  og_pending_orders :: "(OrderId, PendingOrder) fmap"
  og_recv_buffer :: "u8 list"

definition OrderGateway_of_socket :: "'s TcpSocket \<Rightarrow> ClientId \<Rightarrow> 's OrderGateway" where
  "OrderGateway_of_socket socket client_id =
     \<lparr>og_socket = socket, og_client_id = client_id, og_next_order_id = 1,
      og_pending_orders = fmempty, og_recv_buffer = []\<rparr>"

definition OrderGateway_connect ::
  "'s socket_api \<Rightarrow> socket_addr list io \<Rightarrow> ClientId \<Rightarrow> 's OrderGateway io" where
  "OrderGateway_connect api resolved client_id =
     (case TcpSocket_connect api resolved of
        Inl e \<Rightarrow> Inl e
      | Inr socket \<Rightarrow>
          (case TcpSocket_set_nonblocking api True socket of
             (Inl e, _) \<Rightarrow> Inl e
           | (Inr _, socket) \<Rightarrow> Inr (OrderGateway_of_socket socket client_id)))"

definition send_new_order :: "'s socket_api \<Rightarrow> Nanos \<Rightarrow> TickerId \<Rightarrow> Side \<Rightarrow> Price \<Rightarrow> Qty \<Rightarrow>
    's OrderGateway \<Rightarrow> OrderId \<times> 's OrderGateway" where
  "send_new_order api now ticker_id side price qty g =
     (let order_id = og_next_order_id g;
          g = g\<lparr>og_next_order_id := og_next_order_id g + 1\<rparr>;
          request = ClientRequest_new RNew (og_client_id g) ticker_id order_id (side_i8 side) price qty;
          g = g\<lparr>og_socket := snd (TcpSocket_send api (ClientRequest_as_bytes request) (og_socket g))\<rparr>;
          pending = \<lparr>po_order_id = order_id, po_ticker_id = ticker_id, po_side = side, po_price = price,
                     po_qty = qty, po_sent_time = now\<rparr>
      in (order_id, g\<lparr>og_pending_orders := fmupd order_id pending (og_pending_orders g)\<rparr>))"

definition cancel_request :: "OrderId \<Rightarrow> TickerId \<Rightarrow> 's OrderGateway \<Rightarrow> ClientRequest" where
  "cancel_request order_id ticker_id g =
     (let (side, price, qty) =
        (case fmlookup (og_pending_orders g) order_id of
           Some pending \<Rightarrow> (side_i8 (po_side pending), po_price pending, po_qty pending)
         | None \<Rightarrow> (0, 0, 0))
      in ClientRequest_new RCancel (og_client_id g) ticker_id order_id side price qty)"

definition send_cancel :: "'s socket_api \<Rightarrow> OrderId \<Rightarrow> TickerId \<Rightarrow> 's OrderGateway \<Rightarrow> 's OrderGateway" where
  "send_cancel api order_id ticker_id g =
     g\<lparr>og_socket := snd (TcpSocket_send api (ClientRequest_as_bytes (cancel_request order_id ticker_id g))
                          (og_socket g))\<rparr>"

text \<open>The update of the pending orders by a response.\<close>

definition settle :: "ClientResponse \<Rightarrow> 's OrderGateway \<Rightarrow> 's OrderGateway" where
  "settle response g =
     (let drop_it = g\<lparr>og_pending_orders := fmdrop (rs_client_order_id response) (og_pending_orders g)\<rparr>
      in case response_type response of
           None \<Rightarrow> g
         | Some Canceled \<Rightarrow> drop_it
         | Some CancelRejected \<Rightarrow> drop_it
         | Some InvalidRequest \<Rightarrow> drop_it
         | Some Filled \<Rightarrow> if rs_leaves_qty response = 0 then drop_it else g
         | Some Accepted \<Rightarrow> g)"

definition next_response :: "'s OrderGateway \<Rightarrow> ClientResponse option \<times> 's OrderGateway" where
  "next_response g =
     (if CLIENT_RESPONSE_SIZE \<le> length (og_recv_buffer g)
      then case ClientResponse_from_bytes (take CLIENT_RESPONSE_SIZE (og_recv_buffer g)) of
             Some response \<Rightarrow>
               (Some response,
                settle response (g\<lparr>og_recv_buffer := drop CLIENT_RESPONSE_SIZE (og_recv_buffer g)\<rparr>))
           | None \<Rightarrow> (None, g)
      else (None, g))"

definition og_poll :: "'s socket_api \<Rightarrow> 's OrderGateway \<Rightarrow> ClientResponse option \<times> 's OrderGateway" where
  "og_poll api g =
     (case TcpSocket_try_recv api (og_socket g) of (r, socket) \<Rightarrow>
        let g = g\<lparr>og_socket := socket\<rparr> in
        (case r of
           Inr (Some data) \<Rightarrow> next_response (g\<lparr>og_recv_buffer := og_recv_buffer g @ data\<rparr>)
         | Inr None \<Rightarrow> next_response g
         | Inl e \<Rightarrow> (None, g)))"

definition get_pending :: "'s OrderGateway \<Rightarrow> OrderId \<Rightarrow> PendingOrder option" where
  "get_pending g order_id = fmlookup (og_pending_orders g) order_id"

definition pending_count :: "'s OrderGateway \<Rightarrow> nat" where
  "pending_count g = hm_len (og_pending_orders g)"

section \<open>Runs of a gateway\<close>

text \<open>A session: the client's calls in order, and what each returned.\<close>

datatype gateway_op = Send_New Nanos TickerId Side Price Qty | Send_Cancel OrderId TickerId | Poll

datatype gateway_event = Sent OrderId | Cancel_Sent | Polled "ClientResponse option"

primrec gateway_step :: "'s socket_api \<Rightarrow> gateway_op \<Rightarrow> 's OrderGateway \<Rightarrow> gateway_event \<times> 's OrderGateway" where
  "gateway_step api (Send_New now ticker_id side price qty) g =
     map_prod Sent id (send_new_order api now ticker_id side price qty g)"
| "gateway_step api (Send_Cancel order_id ticker_id) g = (Cancel_Sent, send_cancel api order_id ticker_id g)"
| "gateway_step api Poll g = map_prod Polled id (og_poll api g)"

text \<open>The response ends the order it names.\<close>

definition ends_order :: "ClientResponse \<Rightarrow> OrderId \<Rightarrow> bool" where
  "ends_order r i \<longleftrightarrow> rs_client_order_id r = i \<and>
     (response_type r \<in> {Some Canceled, Some CancelRejected, Some InvalidRequest} \<or>
      response_type r = Some Filled \<and> rs_leaves_qty r = 0)"

definition pending_order :: "Nanos \<Rightarrow> TickerId \<Rightarrow> Side \<Rightarrow> Price \<Rightarrow> Qty \<Rightarrow> OrderId \<Rightarrow> PendingOrder" where
  "pending_order now t sd p q i =
     \<lparr>po_order_id = i, po_ticker_id = t, po_side = sd, po_price = p, po_qty = q, po_sent_time = now\<rparr>"

lemma settle_fields [simp]:
  "og_socket (settle r g) = og_socket g" "og_client_id (settle r g) = og_client_id g"
  "og_next_order_id (settle r g) = og_next_order_id g" "og_recv_buffer (settle r g) = og_recv_buffer g"
  by (simp_all add: settle_def Let_def split: option.splits ClientResponseType.splits)

lemma settle_pending:
  "fmlookup (og_pending_orders (settle r g)) i =
     (if ends_order r i then None else fmlookup (og_pending_orders g) i)"
  by (auto simp: settle_def Let_def ends_order_def split: option.splits ClientResponseType.splits)

lemma next_response_cases:
  obtains (none) "next_response g = (None, g)" "length (og_recv_buffer g) < CLIENT_RESPONSE_SIZE"
  | (some) r rest where "og_recv_buffer g = ClientResponse_as_bytes r @ rest"
      "next_response g = (Some r, settle r (g\<lparr>og_recv_buffer := rest\<rparr>))"
proof (cases "CLIENT_RESPONSE_SIZE \<le> length (og_recv_buffer g)")
  case True
  then obtain r where r: "ClientResponse_from_bytes (take CLIENT_RESPONSE_SIZE (og_recv_buffer g)) = Some r"
    using rs.dec_total by fastforce
  have "og_recv_buffer g = ClientResponse_as_bytes r @ drop CLIENT_RESPONSE_SIZE (og_recv_buffer g)"
    using rs.enc_dec [OF r] by simp
  then show ?thesis by (rule some) (simp add: next_response_def True r)
qed (rule none, auto simp: next_response_def)

text \<open>The bytes a poll takes from the socket, and a poll as receive followed by parse.\<close>

definition poll_chunk :: "'s socket_api \<Rightarrow> 's OrderGateway \<Rightarrow> u8 list" where
  "poll_chunk api g =
     (case fst (TcpSocket_try_recv api (og_socket g)) of Inr (Some data) \<Rightarrow> data | _ \<Rightarrow> [])"

lemma og_poll_cases:
  obtains (failed) e where "fst (TcpSocket_try_recv api (og_socket g)) = Inl e" "poll_chunk api g = []"
      "og_poll api g = (None, g\<lparr>og_socket := snd (TcpSocket_try_recv api (og_socket g))\<rparr>)"
  | (received) g1 where "g1 = g\<lparr>og_socket := snd (TcpSocket_try_recv api (og_socket g)),
        og_recv_buffer := og_recv_buffer g @ poll_chunk api g\<rparr>"
      "og_poll api g = next_response g1"
proof (cases "TcpSocket_try_recv api (og_socket g)")
  case (Pair r socket)
  show ?thesis
  proof (cases r)
    case (Inl e)
    with Pair show ?thesis by (intro failed [of e]) (simp_all add: og_poll_def poll_chunk_def Let_def)
  next
    case (Inr d)
    with Pair show ?thesis
      by (intro received [OF refl]) (cases d; simp add: og_poll_def poll_chunk_def Let_def)
  qed
qed

lemma gateway_step_pending:
  "fmlookup (og_pending_orders (snd (gateway_step api op g))) i =
     (case op of
        Send_New now t sd p q \<Rightarrow>
          if i = og_next_order_id g then Some (pending_order now t sd p q i) else fmlookup (og_pending_orders g) i
      | Send_Cancel k t \<Rightarrow> fmlookup (og_pending_orders g) i
      | Poll \<Rightarrow>
          (case fst (og_poll api g) of
             Some r \<Rightarrow> if ends_order r i then None else fmlookup (og_pending_orders g) i
           | None \<Rightarrow> fmlookup (og_pending_orders g) i))"
proof (cases op)
  case Poll
  show ?thesis
  proof (cases rule: og_poll_cases [of api g])
    case (received g1)
    then show ?thesis using Poll
      by (cases rule: next_response_cases [of g1]) (simp_all add: settle_pending)
  qed (simp add: Poll)
qed (simp_all add: send_new_order_def send_cancel_def pending_order_def Let_def)

lemma gateway_step_id:
  "og_next_order_id (snd (gateway_step api op g)) =
     (case fst (gateway_step api op g) of Sent i \<Rightarrow> og_next_order_id g + 1 | _ \<Rightarrow> og_next_order_id g)"
  "og_client_id (snd (gateway_step api op g)) = og_client_id g"
proof -
  have poll: "og_next_order_id (snd (og_poll api g)) = og_next_order_id g \<and>
      og_client_id (snd (og_poll api g)) = og_client_id g"
  proof (cases rule: og_poll_cases [of api g])
    case (received g1)
    then show ?thesis by (cases rule: next_response_cases [of g1]) simp_all
  qed simp
  then show "og_client_id (snd (gateway_step api op g)) = og_client_id g"
    "og_next_order_id (snd (gateway_step api op g)) =
     (case fst (gateway_step api op g) of Sent i \<Rightarrow> og_next_order_id g + 1 | _ \<Rightarrow> og_next_order_id g)"
    by (cases op; simp add: send_new_order_def send_cancel_def Let_def)+
qed

lemma gateway_step_Sent: "fst (gateway_step api op g) = Sent i \<longleftrightarrow>
    i = og_next_order_id g \<and> (\<exists>now t sd p q. op = Send_New now t sd p q)"
  by (cases op) (auto simp: send_new_order_def Let_def)

section \<open>Numbering\<close>

definition sent_ids :: "gateway_event list \<Rightarrow> OrderId list" where
  "sent_ids evs = List.map_filter (\<lambda>ev. case ev of Sent i \<Rightarrow> Some i | _ \<Rightarrow> None) evs"

lemma sent_ids_snoc: "sent_ids (evs @ [ev]) = sent_ids evs @ (case ev of Sent i \<Rightarrow> [i] | _ \<Rightarrow> [])"
  by (simp add: sent_ids_def List.map_filter_def split: gateway_event.splits)

lemma sent_ids_Cons: "sent_ids (ev # evs) = (case ev of Sent i \<Rightarrow> [i] | _ \<Rightarrow> []) @ sent_ids evs"
  by (simp add: sent_ids_def List.map_filter_def split: gateway_event.splits)

lemma sent_ids_set: "i \<in> set (sent_ids evs) \<longleftrightarrow> Sent i \<in> set evs"
  by (induction evs rule: rev_induct)
    (auto simp: sent_ids_snoc sent_ids_def List.map_filter_def split: gateway_event.splits)

lemma sent_ids_length: "length (sent_ids evs) \<le> length evs"
  by (simp add: sent_ids_def List.map_filter_def)

lemma run_ids:
  "run_spec (gateway_step api) ops g = (evs, g') \<Longrightarrow>
     sent_ids evs = map (\<lambda>n. og_next_order_id g + of_nat n) [0..<length (sent_ids evs)] \<and>
     og_next_order_id g' = og_next_order_id g + of_nat (length (sent_ids evs))"
proof (induction ops arbitrary: evs g' rule: rev_induct)
  case Nil
  then show ?case by (simp add: sent_ids_def List.map_filter_def)
next
  case (snoc op ops)
  obtain evs1 g1 where r: "run_spec (gateway_step api) ops g = (evs1, g1)" by force
  with snoc.prems have e: "evs = evs1 @ [fst (gateway_step api op g1)]" "g' = snd (gateway_step api op g1)"
    by (auto simp: run_spec_append split_beta)
  from snoc.IH [OF r] show ?case unfolding e
    by (cases "fst (gateway_step api op g1)") (auto simp: sent_ids_snoc gateway_step_id gateway_step_Sent send_new_order_def Let_def)
qed

lemma unat_of_nat_u64: "n < 2 ^ 64 \<Longrightarrow> unat (of_nat n :: u64) = n"
  by (simp add: unat_of_nat)

lemma run_ids_distinct:
  assumes "run_spec (gateway_step api) ops g = (evs, g')" "length ops < 2 ^ 64"
  shows "distinct (sent_ids evs)" and "og_next_order_id g' \<notin> set (sent_ids evs)"
proof -
  have "length evs = length ops" using assms(1) length_run_spec [of "gateway_step api" ops g] by simp
  with sent_ids_length [of evs] assms(2) have n: "length (sent_ids evs) < 2 ^ 64" by simp
  have inj: "m = n" if "of_nat m = (of_nat n :: u64)" "m < 2 ^ 64" "n < 2 ^ 64" for m n
    using that by (metis unat_of_nat_u64)
  let ?f = "\<lambda>n. og_next_order_id g + of_nat n :: u64"
  let ?n = "length (sent_ids evs)"
  note ids = run_ids [OF assms(1)]
  have "inj_on ?f {0..<Suc ?n}" using inj n by (fastforce simp: inj_on_def)
  then have "distinct (map ?f [0..<Suc ?n])" by (simp add: distinct_map del: upt_Suc)
  moreover have "map ?f [0..<Suc ?n] = sent_ids evs @ [og_next_order_id g']"
    using ids by (simp add: upt_Suc_append)
  ultimately have "distinct (sent_ids evs @ [og_next_order_id g'])" by (simp only:)
  then show "distinct (sent_ids evs)" "og_next_order_id g' \<notin> set (sent_ids evs)" by simp_all
qed

section \<open>Outstanding orders\<close>

text \<open>Order \<open>i\<close> was sent by one of the calls and no response returned since then ended it.\<close>

definition outstanding :: "gateway_op list \<Rightarrow> gateway_event list \<Rightarrow> OrderId \<Rightarrow> PendingOrder \<Rightarrow> bool" where
  "outstanding ops evs i po \<longleftrightarrow>
     (\<exists>j now t sd p q. j < length ops \<and> ops ! j = Send_New now t sd p q \<and> evs ! j = Sent i \<and>
        po = pending_order now t sd p q i \<and>
        (\<forall>r. Polled (Some r) \<in> set (drop j evs) \<longrightarrow> \<not> ends_order r i))"

lemma outstanding_snoc:
  assumes "length evs = length ops"
  shows "outstanding (ops @ [op]) (evs @ [ev]) i po \<longleftrightarrow>
    ev = Sent i \<and> (\<exists>now t sd p q. op = Send_New now t sd p q \<and> po = pending_order now t sd p q i) \<or>
    outstanding ops evs i po \<and> (\<forall>r. ev = Polled (Some r) \<longrightarrow> \<not> ends_order r i)"
    (is "?L \<longleftrightarrow> ?A \<or> ?B")
proof
  assume ?L
  then obtain j now t sd p q where j: "j < Suc (length ops)" "(ops @ [op]) ! j = Send_New now t sd p q"
      "(evs @ [ev]) ! j = Sent i" "po = pending_order now t sd p q i"
      "\<And>r. Polled (Some r) \<in> set (drop j (evs @ [ev])) \<Longrightarrow> \<not> ends_order r i"
    unfolding outstanding_def by (simp del: drop_append set_append) blast
  show "?A \<or> ?B"
  proof (cases "j = length ops")
    case True
    with j assms show ?thesis by (simp add: nth_append)
  next
    case False
    with j assms have "outstanding ops evs i po"
      unfolding outstanding_def by (intro exI conjI) (auto simp: nth_append)
    with False j assms show ?thesis by simp
  qed
next
  assume "?A \<or> ?B"
  then show ?L
  proof
    assume ?A
    with assms show ?L by (auto simp: outstanding_def nth_append intro!: exI [where x = "length ops"])
  next
    assume ?B
    then obtain j now t sd p q where j: "j < length ops" "ops ! j = Send_New now t sd p q"
      "evs ! j = Sent i" "po = pending_order now t sd p q i"
      "\<And>r. Polled (Some r) \<in> set (drop j evs) \<Longrightarrow> \<not> ends_order r i"
      unfolding outstanding_def by blast
    have "set (drop j (evs @ [ev])) = insert ev (set (drop j evs))" using j(1) assms by simp
    with j \<open>?B\<close> have "\<forall>r. Polled (Some r) \<in> set (drop j (evs @ [ev])) \<longrightarrow> \<not> ends_order r i" by auto
    moreover have "j < length (ops @ [op])" "(ops @ [op]) ! j = Send_New now t sd p q" "(evs @ [ev]) ! j = Sent i"
      using j assms by (simp_all add: nth_append)
    ultimately show ?L using j(4) unfolding outstanding_def by blast
  qed
qed

lemma outstanding_sent: "outstanding ops evs i po \<Longrightarrow> length evs = length ops \<Longrightarrow> Sent i \<in> set evs"
  by (auto simp: outstanding_def in_set_conv_nth)

lemma run_outstanding:
  "run_spec (gateway_step api) ops (OrderGateway_of_socket s k) = (evs, g) \<Longrightarrow> length ops < 2 ^ 64 \<Longrightarrow>
     get_pending g i = Some po \<longleftrightarrow> outstanding ops evs i po"
proof (induction ops arbitrary: evs g rule: rev_induct)
  case Nil
  then show ?case by (auto simp: get_pending_def OrderGateway_of_socket_def outstanding_def)
next
  case (snoc op ops)
  obtain evs1 g1 where r: "run_spec (gateway_step api) ops (OrderGateway_of_socket s k) = (evs1, g1)" by force
  with snoc.prems have e: "evs = evs1 @ [fst (gateway_step api op g1)]" "g = snd (gateway_step api op g1)"
    by (auto simp: run_spec_append split_beta)
  have len: "length evs1 = length ops" using r length_run_spec [of "gateway_step api" ops] by (metis fst_conv)
  have short: "length ops < 2 ^ 64" using snoc.prems(2) by simp
  note IH = snoc.IH [OF r short]
  have fresh: "\<not> outstanding ops evs1 (og_next_order_id g1) po"
    using run_ids_distinct(2) [OF r short] outstanding_sent [OF _ len] by (auto simp: sent_ids_set)
  show ?case unfolding e outstanding_snoc [OF len]
  proof (cases op)
    case (Send_New now t sd p q)
    then show "get_pending (snd (gateway_step api op g1)) i = Some po \<longleftrightarrow>
      fst (gateway_step api op g1) = Sent i \<and>
        (\<exists>now t sd p q. op = Send_New now t sd p q \<and> po = pending_order now t sd p q i) \<or>
      outstanding ops evs1 i po \<and>
        (\<forall>r. fst (gateway_step api op g1) = Polled (Some r) \<longrightarrow> \<not> ends_order r i)"
      using fresh IH
      by (auto simp: get_pending_def gateway_step_pending send_new_order_def pending_order_def Let_def)
  next
    case Poll
    then show "get_pending (snd (gateway_step api op g1)) i = Some po \<longleftrightarrow>
      fst (gateway_step api op g1) = Sent i \<and>
        (\<exists>now t sd p q. op = Send_New now t sd p q \<and> po = pending_order now t sd p q i) \<or>
      outstanding ops evs1 i po \<and>
        (\<forall>r. fst (gateway_step api op g1) = Polled (Some r) \<longrightarrow> \<not> ends_order r i)"
      using IH by (auto simp: get_pending_def gateway_step_pending simp del: gateway_step.simps(3)
          split: option.splits) (auto simp: map_prod_def split_beta)
  qed (use IH in \<open>simp add: get_pending_def send_cancel_def\<close>)
qed

section \<open>The response stream\<close>

primrec arrived :: "'s socket_api \<Rightarrow> gateway_op list \<Rightarrow> 's OrderGateway \<Rightarrow> u8 list" where
  "arrived api [] g = []"
| "arrived api (op # ops) g =
     (if op = Poll then poll_chunk api g else []) @ arrived api ops (snd (gateway_step api op g))"

definition responses :: "gateway_event list \<Rightarrow> ClientResponse list" where
  "responses evs = List.map_filter (\<lambda>ev. case ev of Polled r \<Rightarrow> r | _ \<Rightarrow> None) evs"

lemma responses_Cons: "responses (ev # evs) = (case ev of Polled (Some r) \<Rightarrow> [r] | _ \<Rightarrow> []) @ responses evs"
  by (simp add: responses_def List.map_filter_def split: gateway_event.splits option.splits)

lemma gateway_step_stream:
  "concat (map ClientResponse_as_bytes (responses [fst (gateway_step api op g)])) @
     og_recv_buffer (snd (gateway_step api op g)) =
   og_recv_buffer g @ (if op = Poll then poll_chunk api g else [])"
proof (cases op)
  case Poll
  show ?thesis
  proof (cases rule: og_poll_cases [of api g])
    case (received g1)
    then show ?thesis using Poll
      by (cases rule: next_response_cases [of g1]) (auto simp: responses_Cons responses_def List.map_filter_def)
  qed (simp add: Poll responses_def List.map_filter_def)
qed (simp_all add: responses_def List.map_filter_def send_new_order_def send_cancel_def Let_def)

lemma run_stream:
  "run_spec (gateway_step api) ops g = (evs, g') \<Longrightarrow>
     concat (map ClientResponse_as_bytes (responses evs)) @ og_recv_buffer g' =
       og_recv_buffer g @ arrived api ops g"
proof (induction ops arbitrary: g evs)
  case Nil
  then show ?case by (simp add: responses_def List.map_filter_def)
next
  case (Cons op ops)
  obtain ev g1 where 1: "gateway_step api op g = (ev, g1)" by force
  with Cons.prems obtain evs1 where 2: "run_spec (gateway_step api) ops g1 = (evs1, g')" "evs = ev # evs1"
    by (cases "run_spec (gateway_step api) ops g1") auto
  from Cons.IH [OF 2(1)] gateway_step_stream [of api op g] 1 2(2) show ?case
    by (simp add: responses_Cons [of ev evs1] responses_Cons [of ev "[]"] responses_def [of "[]"] List.map_filter_def
        split: gateway_event.splits option.splits)
qed

section \<open>The request stream\<close>

text \<open>The requests the calls of a session put on the wire.\<close>

primrec requested :: "'s socket_api \<Rightarrow> gateway_op list \<Rightarrow> 's OrderGateway \<Rightarrow> ClientRequest list" where
  "requested api [] g = []"
| "requested api (op # ops) g =
     (case op of
        Send_New now t sd p q \<Rightarrow> [ClientRequest_new RNew (og_client_id g) t (og_next_order_id g) (side_i8 sd) p q]
      | Send_Cancel i t \<Rightarrow> [cancel_request i t g]
      | Poll \<Rightarrow> []) @ requested api ops (snd (gateway_step api op g))"

lemma gateway_step_log:
  assumes "send_logs api wire" "recv_keeps api wire"
  shows "wire (tcp_socket (og_socket (snd (gateway_step api op g)))) =
    wire (tcp_socket (og_socket g)) @ map ClientRequest_as_bytes (requested api [op] g)"
proof (cases op)
  case Poll
  show ?thesis
  proof (cases rule: og_poll_cases [of api g])
    case (received g1)
    then show ?thesis using Poll TcpSocket_try_recv_keeps [OF assms(2)]
      by (cases rule: next_response_cases [of g1]) auto
  qed (use Poll TcpSocket_try_recv_keeps [OF assms(2)] in auto)
qed (simp_all add: send_new_order_def send_cancel_def Let_def TcpSocket_send_log [OF assms(1)])

lemma run_log:
  assumes "send_logs api wire" "recv_keeps api wire"
  shows "run_spec (gateway_step api) ops g = (evs, g') \<Longrightarrow>
    wire (tcp_socket (og_socket g')) =
      wire (tcp_socket (og_socket g)) @ map ClientRequest_as_bytes (requested api ops g)"
proof (induction ops arbitrary: g evs)
  case (Cons op ops)
  obtain ev g1 where 1: "gateway_step api op g = (ev, g1)" by force
  with Cons.prems obtain evs1 where 2: "run_spec (gateway_step api) ops g1 = (evs1, g')"
    by (cases "run_spec (gateway_step api) ops g1") auto
  from Cons.IH [OF 2] gateway_step_log [OF assms, of op g] 1 show ?case by simp
qed simp

lemma cancel_request_type: "request_type (cancel_request i t g) = Some RCancel"
  by (simp add: cancel_request_def split: option.splits)

lemma requested_ids:
  "run_spec (gateway_step api) ops g = (evs, g') \<Longrightarrow>
     map rq_order_id (filter (\<lambda>rq. request_type rq = Some RNew) (requested api ops g)) = sent_ids evs"
proof (induction ops arbitrary: g evs)
  case Nil
  then show ?case by (simp add: sent_ids_def List.map_filter_def)
next
  case (Cons op ops)
  obtain ev g1 where 1: "gateway_step api op g = (ev, g1)" by force
  with Cons.prems obtain evs1 where 2: "run_spec (gateway_step api) ops g1 = (evs1, g')" "evs = ev # evs1"
    by (cases "run_spec (gateway_step api) ops g1") auto
  have "rq_order_id (ClientRequest_new ty c t i sd p q) = i" for ty c t i sd p q
    by (simp add: ClientRequest_new_def)
  with Cons.IH [OF 2(1)] 1 2(2) show ?case
    by (cases op; cases "og_poll api g")
      (auto simp: sent_ids_Cons cancel_request_type send_new_order_def Let_def)
qed

section \<open>Properties\<close>

text \<open>C27: the gateway tracks its orders exactly. In a session of fewer than \<open>2 ^ 64\<close> calls the ids
  it assigns are \<open>1, 2, 3, ...\<close> without repetition, and an order is pending, with the data it was
  sent with, exactly when it was sent and no response returned since then ended it (cancelled,
  rejected, invalid, or filled with nothing left).\<close>

theorem gateway_pending_exact:
  assumes "run_spec (gateway_step api) ops (OrderGateway_of_socket s k) = (evs, g)" "length ops < 2 ^ 64"
  shows "sent_ids evs = map (\<lambda>n. of_nat (Suc n)) [0..<length (sent_ids evs)] \<and> distinct (sent_ids evs) \<and>
    (\<forall>i po. get_pending g i = Some po \<longleftrightarrow> outstanding ops evs i po)"
proof -
  have "og_next_order_id (OrderGateway_of_socket s k) = 1" by (simp add: OrderGateway_of_socket_def)
  with run_ids [OF assms(1)] have "sent_ids evs = map (\<lambda>n. of_nat (Suc n)) [0..<length (sent_ids evs)]" by simp
  with run_ids_distinct(1) [OF assms] run_outstanding [OF assms] show ?thesis by blast
qed

theorem gateway_pending_exact_witness:
  "\<exists>evs g. run_spec (gateway_step script_api) [Send_New (Nanos 5) 1 Buy 100 10, Send_Cancel 1 1]
       (OrderGateway_of_socket \<lparr>tcp_socket = \<lparr>sc_mode = True, sc_incoming = [], sc_sent = [], sc_pending = []\<rparr>,
          tcp_send_buffer = []\<rparr> 7) = (evs, g) \<and>
     sent_ids evs = [1] \<and> get_pending g 1 = Some (pending_order (Nanos 5) 1 Buy 100 10 1) \<and> get_pending g 2 = None"
proof -
  let ?ops = "[Send_New (Nanos 5) 1 Buy 100 10, Send_Cancel 1 1]"
  let ?s = "\<lparr>tcp_socket = \<lparr>sc_mode = True, sc_incoming = [], sc_sent = [], sc_pending = []\<rparr>, tcp_send_buffer = []\<rparr>"
  obtain evs g where r: "run_spec (gateway_step script_api) ?ops (OrderGateway_of_socket ?s 7) = (evs, g)" by force
  then have evs: "evs = [Sent 1, Cancel_Sent]"
    by (auto simp: send_new_order_def Let_def OrderGateway_of_socket_def split_beta)
  have "outstanding ?ops evs 1 (pending_order (Nanos 5) 1 Buy 100 10 1)" unfolding outstanding_def evs
    by (rule exI [of _ 0]) auto
  moreover have "\<not> outstanding ?ops evs 2 po" for po
    using outstanding_sent [of ?ops evs 2 po] by (auto simp: evs)
  moreover note gateway_pending_exact [OF r]
  ultimately show ?thesis using r evs
    by (auto simp: sent_ids_def List.map_filter_def not_Some_eq [symmetric] simp del: run_spec.simps not_Some_eq)
qed

text \<open>No response is lost, duplicated or reordered by the framing: whatever calls the client
  makes and however the network cuts the stream, the responses returned so far followed by the
  buffered bytes are exactly the bytes that arrived. A poll returns a response unless the socket
  reports an error or less than one response is buffered.\<close>

lemma gateway_stream_exact:
  "concat (map ClientResponse_as_bytes (responses (fst (run_spec (gateway_step api) ops (OrderGateway_of_socket s k))))) @
     og_recv_buffer (snd (run_spec (gateway_step api) ops (OrderGateway_of_socket s k))) =
   arrived api ops (OrderGateway_of_socket s k) \<and>
   ((\<exists>r. fst (og_poll api g) = Some r) \<or> (\<exists>e. fst (TcpSocket_try_recv api (og_socket g)) = Inl e) \<or>
    length (og_recv_buffer (snd (og_poll api g))) < CLIENT_RESPONSE_SIZE)"
proof -
  have "og_recv_buffer (OrderGateway_of_socket s k) = []" by (simp add: OrderGateway_of_socket_def)
  with run_stream [OF prod.collapse [symmetric], of api ops "OrderGateway_of_socket s k"]
  have stream: "concat (map ClientResponse_as_bytes
        (responses (fst (run_spec (gateway_step api) ops (OrderGateway_of_socket s k))))) @
     og_recv_buffer (snd (run_spec (gateway_step api) ops (OrderGateway_of_socket s k))) =
   arrived api ops (OrderGateway_of_socket s k)" by simp
  show ?thesis
  proof (cases rule: og_poll_cases [of api g])
    case (received g1)
    then show ?thesis using stream by (cases rule: next_response_cases [of g1]) simp_all
  qed (use stream in blast)
qed

text \<open>A rejected cancellation removes the order from the pending orders although it may still rest
  at the exchange.\<close>

lemma cancel_reject_forgets_order:
  "response_type r = Some CancelRejected \<Longrightarrow> get_pending (settle r g) (rs_client_order_id r) = None"
  by (simp add: get_pending_def settle_pending ends_order_def)

end
