(* ===== verification/Features.thy ===== *)
theory Features
  imports MarketData F64
begin

text \<open>
  The feature engine of \<open>trading/src/features.rs\<close>: per ticker the mid price, a fair value
  smoothed exponentially, the spread, the imbalance of the quoted quantities and a trade
  signal. Floating-point numbers are those of the theory \<open>F64\<close>; decimal literals are rounded
  to them.
\<close>

section \<open>The model\<close>

record TickerFeatures =
  tf_ticker_id :: TickerId
  tf_fair_value :: Price
  tf_spread :: Price
  tf_mid_price :: Price
  tf_imbalance :: f64
  tf_trade_signal :: f64

definition TickerFeatures_new :: "TickerId \<Rightarrow> TickerFeatures" where
  "TickerFeatures_new ticker_id =
     \<lparr>tf_ticker_id = ticker_id, tf_fair_value = 0, tf_spread = 0, tf_mid_price = 0,
      tf_imbalance = Fin 0, tf_trade_signal = Fin 0\<rparr>"

definition TickerFeatures_is_valid :: "TickerFeatures \<Rightarrow> bool" where
  "TickerFeatures_is_valid f \<longleftrightarrow> 0 <s tf_mid_price f \<and> 0 <s tf_fair_value f"

record FeatureEngine =
  fe_features :: "(TickerId, TickerFeatures) fmap"
  fe_fair_value_alpha :: f64

definition DEFAULT_FAIR_VALUE_ALPHA :: f64 where
  "DEFAULT_FAIR_VALUE_ALPHA = rnd (1 / 10)"

definition FeatureEngine_new :: FeatureEngine where
  "FeatureEngine_new = \<lparr>fe_features = fmempty, fe_fair_value_alpha = DEFAULT_FAIR_VALUE_ALPHA\<rparr>"

definition FeatureEngine_default :: FeatureEngine where
  "FeatureEngine_default = FeatureEngine_new"

definition FeatureEngine_with_alpha :: "f64 \<Rightarrow> FeatureEngine" where
  "FeatureEngine_with_alpha alpha =
     \<lparr>fe_features = fmempty, fe_fair_value_alpha = f_clamp (Fin 0) (Fin 1) alpha\<rparr>"

definition calculate_imbalance :: "BBO \<Rightarrow> f64" where
  "calculate_imbalance bbo =
     (let bid_qty = f64_of_u32 (bb_bid_qty bbo); ask_qty = f64_of_u32 (bb_ask_qty bbo);
          total_qty = f_add bid_qty ask_qty
      in if f_eq total_qty (Fin 0) then Fin 0 else f_div (f_sub bid_qty ask_qty) total_qty)"

definition calculate_trade_signal_from_features :: "TickerFeatures \<Rightarrow> f64" where
  "calculate_trade_signal_from_features f =
     (if \<not> TickerFeatures_is_valid f \<or> tf_spread f \<le>s 0 then Fin 0
      else let fv_deviation = f64_of_i64 (tf_fair_value f - tf_mid_price f);
               spread_f64 = f64_of_i64 (tf_spread f);
               fv_signal = f_clamp (Fin (- 1)) (Fin 1) (f_div fv_deviation spread_f64);
               combined_signal = f_add (f_mul (rnd (7 / 10)) fv_signal) (f_mul (rnd (3 / 10)) (tf_imbalance f))
           in f_clamp (Fin (- 1)) (Fin 1) combined_signal)"

text \<open>The exponential moving average.\<close>

definition ema :: "f64 \<Rightarrow> Price \<Rightarrow> Price \<Rightarrow> Price" where
  "ema alpha mid fv =
     (let mid_f64 = f64_of_i64 mid; fv_f64 = f64_of_i64 fv;
          new_fv = f_add (f_mul alpha mid_f64) (f_mul (f_sub (Fin 1) alpha) fv_f64)
      in f64_to_i64 (f_round new_fv))"

definition refresh :: "f64 \<Rightarrow> BBO \<Rightarrow> TickerFeatures \<Rightarrow> TickerFeatures" where
  "refresh alpha bbo f =
     (let mid = trunc_div (bb_bid_price bbo + bb_ask_price bbo) 2;
          f = f\<lparr>tf_mid_price := mid\<rparr>;
          f = (if tf_fair_value f = 0 then f\<lparr>tf_fair_value := mid\<rparr>
               else f\<lparr>tf_fair_value := ema alpha mid (tf_fair_value f)\<rparr>);
          f = f\<lparr>tf_spread := bb_ask_price bbo - bb_bid_price bbo\<rparr>;
          f = f\<lparr>tf_imbalance := calculate_imbalance bbo\<rparr>
      in f\<lparr>tf_trade_signal := calculate_trade_signal_from_features f\<rparr>)"

definition on_bbo_update :: "TickerId \<Rightarrow> BBO \<Rightarrow> FeatureEngine \<Rightarrow> FeatureEngine" where
  "on_bbo_update ticker_id bbo e =
     (if \<not> BBO_is_valid bbo then e
      else let f = get_or (fe_features e) ticker_id (TickerFeatures_new ticker_id)
           in e\<lparr>fe_features := fmupd ticker_id (refresh (fe_fair_value_alpha e) bbo f) (fe_features e)\<rparr>)"

definition get_features :: "FeatureEngine \<Rightarrow> TickerId \<Rightarrow> TickerFeatures option" where
  "get_features e ticker_id = fmlookup (fe_features e) ticker_id"

definition calculate_trade_signal :: "FeatureEngine \<Rightarrow> TickerId \<Rightarrow> f64" where
  "calculate_trade_signal e ticker_id =
     (case fmlookup (fe_features e) ticker_id of
        Some f \<Rightarrow> calculate_trade_signal_from_features f
      | None \<Rightarrow> Fin 0)"

text \<open>The iteration over the hash map, in the order \<open>iter\<close>.\<close>

definition iter_features :: "TickerId list \<Rightarrow> FeatureEngine \<Rightarrow> (TickerId \<times> TickerFeatures) list" where
  "iter_features iter fe = List.map_filter (\<lambda>t. map_option (Pair t) (fmlookup (fe_features fe) t)) iter"

definition fe_ticker_count :: "FeatureEngine \<Rightarrow> nat" where
  "fe_ticker_count e = hm_len (fe_features e)"

definition fe_reserve_tickers :: "TickerId list \<Rightarrow> FeatureEngine \<Rightarrow> FeatureEngine" where
  "fe_reserve_tickers tickers e =
     e\<lparr>fe_features := fold (\<lambda>t m. fmupd t (get_or m t (TickerFeatures_new t)) m) tickers (fe_features e)\<rparr>"

definition fe_clear :: "FeatureEngine \<Rightarrow> FeatureEngine" where
  "fe_clear e = e\<lparr>fe_features := fmempty\<rparr>"

definition set_fair_value_alpha :: "f64 \<Rightarrow> FeatureEngine \<Rightarrow> FeatureEngine" where
  "set_fair_value_alpha alpha e = e\<lparr>fe_fair_value_alpha := f_clamp (Fin 0) (Fin 1) alpha\<rparr>"

section \<open>Bounds of the signals\<close>

lemma imbalance_unit: "unit_f64 (calculate_imbalance bbo)"
proof -
  define b a where "b = uint (bb_bid_qty bbo)" and "a = uint (bb_ask_qty bbo)"
  have bounds: "0 \<le> b" "b < 4294967296" "0 \<le> a" "a < 4294967296"
    using uint_u32_bounds by (simp_all add: a_def b_def)
  have q: "f64_of_u32 (bb_bid_qty bbo) = Fin (of_int b)" "f64_of_u32 (bb_ask_qty bbo) = Fin (of_int a)"
    unfolding a_def b_def by (rule f64_of_u32_exact)+
  have sum: "f_add (f64_of_u32 (bb_bid_qty bbo)) (f64_of_u32 (bb_ask_qty bbo)) = Fin (of_int (a + b))"
    using rnd_int [of "b + a"] bounds by (simp add: q add.commute)
  have diff: "f_sub (f64_of_u32 (bb_bid_qty bbo)) (f64_of_u32 (bb_ask_qty bbo)) = Fin (of_int (b - a))"
    using rnd_int [of "b - a"] bounds by (simp add: q f_sub_def)
  show ?thesis
  proof (cases "a + b = 0")
    case True
    then show ?thesis by (simp add: calculate_imbalance_def Let_def sum f_eq_def unit_f64_def)
  next
    case False
    have "\<bar>(of_int (b - a) :: rat) / of_int (a + b)\<bar> \<le> 1"
    proof -
      have "\<bar>b - a\<bar> \<le> a + b" "0 < a + b" using bounds False by auto
      then have "\<bar>of_int (b - a) :: rat\<bar> \<le> of_int (a + b)" "0 < (of_int (a + b) :: rat)" by linarith+
      then show ?thesis by (simp add: abs_le_iff field_simps)
    qed
    with rnd_unit False show ?thesis
      by (simp add: calculate_imbalance_def Let_def sum diff f_eq_def)
  qed
qed

text \<open>Products with the weights are finite, and so is their sum.\<close>

lemma unit_scaled: "\<bar>w\<bar> \<le> 1 \<Longrightarrow> unit_f64 a \<Longrightarrow> \<exists>y. f_mul (rnd w) a = Fin y"
proof -
  assume w: "\<bar>w\<bar> \<le> 1" and "unit_f64 a"
  then obtain q v where q: "a = Fin q" "\<bar>q\<bar> \<le> 1" "rnd w = Fin v" "\<bar>v\<bar> \<le> 1"
    using rnd_unit [OF w] by (auto simp: unit_f64_def)
  then have "\<bar>v * q\<bar> \<le> 1" unfolding abs_mult by (simp add: mult_le_one)
  with q show ?thesis using rnd_unit [of "v * q"] by (auto simp: unit_f64_def)
qed

lemma f64_of_pos: "0 <s w \<Longrightarrow> \<exists>y. f64_of_i64 w = Fin y \<and> 1 \<le> y"
proof -
  assume "0 <s w"
  then have "1 \<le> sint w" by (simp add: word_sless_alt)
  then have "pow2 0 \<le> of_int (sint w)" by (simp del: of_int_sint)
  with f64_of_i64_finite [of w] rnd_ge_pow2 [of 0 "of_int (sint w)"] show ?thesis
    by (auto simp: f64_of_i64_def simp del: of_int_sint)
qed

lemma signal_unit: "unit_f64 (tf_imbalance f) \<Longrightarrow> unit_f64 (calculate_trade_signal_from_features f)"
proof (cases "\<not> TickerFeatures_is_valid f \<or> tf_spread f \<le>s 0")
  case True
  then show ?thesis by (simp add: calculate_trade_signal_from_features_def unit_f64_def)
next
  case False
  assume imb: "unit_f64 (tf_imbalance f)"
  have "0 <s tf_spread f" using False by (simp add: word_sless_alt word_sle_eq)
  then obtain x y where "f64_of_i64 (tf_spread f) = Fin y" "1 \<le> y"
    "f64_of_i64 (tf_fair_value f - tf_mid_price f) = Fin x"
    using f64_of_pos f64_of_i64_finite by metis
  then have "unit_f64 (f_clamp (Fin (- 1)) (Fin 1)
      (f_div (f64_of_i64 (tf_fair_value f - tf_mid_price f)) (f64_of_i64 (tf_spread f))))"
    by (intro f_clamp_unit) auto
  with unit_scaled [of "7 / 10"] unit_scaled [of "3 / 10", OF _ imb] obtain a b where
    "f_mul (rnd (7 / 10)) (f_clamp (Fin (- 1)) (Fin 1)
      (f_div (f64_of_i64 (tf_fair_value f - tf_mid_price f)) (f64_of_i64 (tf_spread f)))) = Fin a"
    "f_mul (rnd (3 / 10)) (tf_imbalance f) = Fin b" by fastforce
  then show ?thesis using False
    unfolding calculate_trade_signal_from_features_def Let_def by (simp add: f_clamp_unit)
qed

section \<open>The moving average\<close>

lemma convex_between:
  fixes a x y :: rat
  assumes "0 \<le> a" "a \<le> 1"
  shows "min x y \<le> a * x + (1 - a) * y" "a * x + (1 - a) * y \<le> max x y"
proof -
  have "a * min x y + (1 - a) * min x y \<le> a * x + (1 - a) * y"
    using assms by (intro add_mono mult_left_mono) auto
  then show "min x y \<le> a * x + (1 - a) * y" by (simp add: algebra_simps)
  have "a * x + (1 - a) * y \<le> a * max x y + (1 - a) * max x y"
    using assms by (intro add_mono mult_left_mono) auto
  then show "a * x + (1 - a) * y \<le> max x y" by (simp add: algebra_simps)
qed

text \<open>The four roundings of the average together are off by less than one half.\<close>

lemma ema_rounding:
  assumes a: "0 \<le> a" "a \<le> 1" and m: "\<bar>m\<bar> \<le> 2 ^ 49" and f: "\<bar>f\<bar> \<le> 2 ^ 49"
  shows "\<exists>s. f_add (f_mul (Fin a) (Fin m)) (f_mul (f_sub (Fin 1) (Fin a)) (Fin f)) = Fin s \<and>
    \<bar>s - (a * m + (1 - a) * f)\<bar> \<le> 5 / 16"
proof -
  have prod: "\<bar>u * v\<bar> \<le> pow2 49" if "\<bar>u\<bar> \<le> 1" "\<bar>v\<bar> \<le> 2 ^ 49" for u v :: rat
    using mult_mono [OF that(1) that(2)] by (simp add: abs_mult)
  obtain p where p: "rnd (a * m) = Fin p" "\<bar>p\<bar> \<le> 2 ^ 49" "\<bar>p - a * m\<bar> \<le> 1 / 16"
    using rnd_pow2 [of "a * m" 49] prod [of a m] a m by (auto simp: power_int_minus)
  obtain c where c: "rnd (1 - a) = Fin c" "\<bar>c\<bar> \<le> 1" "\<bar>c - (1 - a)\<bar> \<le> 1 / 2 ^ 53"
    using rnd_pow2 [of "1 - a" 0] a by (auto simp: power_int_minus field_simps)
  obtain r where r: "rnd (c * f) = Fin r" "\<bar>r\<bar> \<le> 2 ^ 49" "\<bar>r - c * f\<bar> \<le> 1 / 16"
    using rnd_pow2 [of "c * f" 49] prod [of c f] c f by (auto simp: power_int_minus)
  have "\<bar>p + r\<bar> \<le> pow2 50" using p(2) r(2) by simp
  then obtain s where s: "rnd (p + r) = Fin s" "\<bar>s - (p + r)\<bar> \<le> 1 / 8"
    using rnd_pow2 [of "p + r" 50] by (auto simp: power_int_minus)
  have "\<bar>c * f - (1 - a) * f\<bar> = \<bar>c - (1 - a)\<bar> * \<bar>f\<bar>"
    by (simp add: abs_mult [symmetric] algebra_simps)
  also have "\<dots> \<le> 1 / 2 ^ 53 * 2 ^ 49" using c(3) f by (intro mult_mono) auto
  finally have "\<bar>c * f - (1 - a) * f\<bar> \<le> 1 / 16" by simp
  with p(3) r(3) s(2) have "\<bar>s - (a * m + (1 - a) * f)\<bar> \<le> 5 / 16" by linarith
  moreover have "f_add (f_mul (Fin a) (Fin m)) (f_mul (f_sub (Fin 1) (Fin a)) (Fin f)) = Fin s"
    using p c r s by (simp add: f_sub_def)
  ultimately show ?thesis by blast
qed

lemma ema_between:
  assumes a: "0 \<le> a" "a \<le> 1" and m: "\<bar>sint mid\<bar> \<le> 2 ^ 49" and f: "\<bar>sint fv\<bar> \<le> 2 ^ 49"
  shows "min (sint mid) (sint fv) \<le> sint (ema (Fin a) mid fv) \<and>
    sint (ema (Fin a) mid fv) \<le> max (sint mid) (sint fv)"
proof -
  define M F where "M = sint mid" and "F = sint fv"
  have e: "f64_of_i64 mid = Fin (of_int M)" "f64_of_i64 fv = Fin (of_int F)"
    unfolding M_def F_def by (rule f64_of_i64_exact, use m f in simp)+
  have MF: "\<bar>of_int M :: rat\<bar> \<le> 2 ^ 49" "\<bar>of_int F :: rat\<bar> \<le> 2 ^ 49"
    using m f unfolding M_def [symmetric] F_def [symmetric] by (simp_all flip: of_int_abs)
  from ema_rounding [OF a MF] obtain s where s:
    "f_add (f_mul (Fin a) (Fin (of_int M))) (f_mul (f_sub (Fin 1) (Fin a)) (Fin (of_int F))) = Fin s"
    "\<bar>s - (a * of_int M + (1 - a) * of_int F)\<bar> \<le> 5 / 16" by blast
  note cv = convex_between [OF a, of "of_int M" "of_int F"]
  have "of_int (min M F) - 1 / 2 < s" "s < of_int (max M F) + 1 / 2"
    using cv s(2) unfolding of_int_min of_int_max by linarith+
  note rb = round_away_between [OF this]
  have "fits_i64 (round_away s)" using rb m f by (auto simp: fits_i64_def M_def F_def)
  then have "sint (ema (Fin a) mid fv) = round_away s"
    by (simp add: ema_def Let_def e s(1) sint_f64_to_i64 del: f_add.simps f_mul.simps)
  with rb show ?thesis by (simp add: M_def F_def)
qed

section \<open>Sequences of operations\<close>

datatype feature_op = Bbo TickerId BBO | Reserve "TickerId list" | Clear_All | Set_Alpha f64

primrec feature_step :: "feature_op \<Rightarrow> FeatureEngine \<Rightarrow> FeatureEngine" where
  "feature_step (Bbo t b) e = on_bbo_update t b e"
| "feature_step (Reserve ts) e = fe_reserve_tickers ts e"
| "feature_step Clear_All e = fe_clear e"
| "feature_step (Set_Alpha a) e = set_fair_value_alpha a e"

definition signals_ok :: "TickerId \<Rightarrow> TickerFeatures \<Rightarrow> bool" where
  "signals_ok t f \<longleftrightarrow> tf_ticker_id f = t \<and> unit_f64 (tf_imbalance f) \<and> unit_f64 (tf_trade_signal f)"

lemma signals_ok_new: "signals_ok t (TickerFeatures_new t)"
  by (simp add: signals_ok_def TickerFeatures_new_def unit_f64_def)

lemma signals_ok_refresh: "signals_ok t f \<Longrightarrow> signals_ok t (refresh a b f)"
  by (simp add: signals_ok_def refresh_def Let_def imbalance_unit signal_unit)

lemma fmpred_get_or: "fmpred P m \<Longrightarrow> P t v \<Longrightarrow> P t (get_or m t v)"
  by (auto simp: get_or_def split: option.splits dest: fmpredD)

lemma fmpred_reserve:
  assumes "fmpred P m" "\<And>t. P t (new t)"
  shows "fmpred P (fold (\<lambda>t m. fmupd t (get_or m t (new t)) m) ts m)"
  using assms(1) by (induction ts arbitrary: m) (simp_all add: fmpred_upd fmpred_get_or assms(2))

lemma feature_step_ok:
  "fmpred signals_ok (fe_features e) \<Longrightarrow> fmpred signals_ok (fe_features (feature_step op e))"
  by (cases op) (simp_all add: on_bbo_update_def fe_reserve_tickers_def fe_clear_def set_fair_value_alpha_def Let_def
      fmpred_reserve fmpred_upd signals_ok_new signals_ok_refresh fmpred_get_or)

text \<open>Prices within an interval keep the mid price and the fair value of every ticker within it.\<close>

definition quotes_within :: "int \<Rightarrow> int \<Rightarrow> BBO \<Rightarrow> bool" where
  "quotes_within lo hi b \<longleftrightarrow> {sint (bb_bid_price b), sint (bb_ask_price b)} \<subseteq> {lo..hi}"

definition values_within :: "int \<Rightarrow> int \<Rightarrow> TickerFeatures \<Rightarrow> bool" where
  "values_within lo hi f \<longleftrightarrow> {sint (tf_mid_price f), sint (tf_fair_value f)} \<subseteq> {lo..hi}"

lemma values_within_refresh:
  assumes a: "0 \<le> a" "a \<le> 1" and lh: "- (2 ^ 49) \<le> lo" "hi \<le> 2 ^ 49"
    and b: "quotes_within lo hi b" and f: "values_within lo hi f \<or> tf_fair_value f = 0"
  shows "values_within lo hi (refresh (Fin a) b f)"
proof -
  let ?mid = "trunc_div (bb_bid_price b + bb_ask_price b) 2"
  have "fits_i64 (sint (bb_bid_price b) + sint (bb_ask_price b))"
    using b lh by (auto simp: quotes_within_def fits_i64_def)
  from sint_average [OF this] b have mid: "lo \<le> sint ?mid" "sint ?mid \<le> hi"
    by (auto simp: quotes_within_def)
  show ?thesis
  proof (cases "tf_fair_value f = 0")
    case True
    with mid show ?thesis by (simp add: refresh_def Let_def values_within_def)
  next
    case False
    with f have "lo \<le> sint (tf_fair_value f)" "sint (tf_fair_value f) \<le> hi" by (auto simp: values_within_def)
    with mid lh ema_between [OF a, of ?mid "tf_fair_value f"] False show ?thesis
      by (auto simp: refresh_def Let_def values_within_def abs_le_iff)
  qed
qed

lemma values_within_run:
  assumes a: "fe_fair_value_alpha e = Fin a" "0 \<le> a" "a \<le> 1" and lh: "- (2 ^ 49) \<le> lo" "hi \<le> 2 ^ 49"
    and ups: "list_all (\<lambda>(t, b). quotes_within lo hi b) ups"
    and e: "fmpred (\<lambda>t. values_within lo hi) (fe_features e)"
  shows "fmpred (\<lambda>t. values_within lo hi) (fe_features (fold (\<lambda>(t, b). on_bbo_update t b) ups e))"
  using ups e a(1)
proof (induction ups arbitrary: e)
  case (Cons u ups)
  obtain t b where u: "u = (t, b)" by force
  let ?f = "get_or (fe_features e) t (TickerFeatures_new t)"
  have "values_within lo hi ?f \<or> tf_fair_value ?f = 0"
    using fmpred_get_or [of "\<lambda>t f. values_within lo hi f \<or> tf_fair_value f = 0" "fe_features e" t "TickerFeatures_new t"]
      Cons.prems(2) by (auto simp: TickerFeatures_new_def fmpred_iff)
  with Cons.prems u have "values_within lo hi (refresh (Fin a) b ?f)"
    by (intro values_within_refresh [OF a(2,3) lh]) auto
  with Cons.prems have "fmpred (\<lambda>t. values_within lo hi) (fe_features (on_bbo_update t b e))"
    "fe_fair_value_alpha (on_bbo_update t b e) = Fin a"
    by (simp_all add: on_bbo_update_def Let_def fmpred_upd)
  with Cons.IH Cons.prems(1) u show ?case by simp
qed simp

section \<open>Properties\<close>

text \<open>C35: signals are always usable: after any sequence of updates (of arbitrary quotes, crossed or
  negative ones included), reservations, clearings and changes of the smoothing factor (\<open>NaN\<close> and
  infinities included), imbalance and trade signal of every ticker are numbers from -1 to 1,
  never \<open>NaN\<close>.\<close>

theorem signals_bounded:
  "fmpred (\<lambda>t f. tf_ticker_id f = t \<and> unit_f64 (tf_imbalance f) \<and> unit_f64 (tf_trade_signal f))
     (fe_features (fold feature_step ops (FeatureEngine_with_alpha alpha)))"
proof -
  have "fmpred signals_ok (fe_features e) \<Longrightarrow> fmpred signals_ok (fe_features (fold feature_step ops e))" for e
    by (induction ops arbitrary: e) (simp_all add: feature_step_ok)
  from this [of "FeatureEngine_with_alpha alpha"] show ?thesis
    by (simp add: FeatureEngine_with_alpha_def signals_ok_def [abs_def])
qed

text \<open>C22: the fair value never leaves the range of the quotes: with a smoothing factor between 0
  and 1, if all quoted prices lie between \<open>lo\<close> and \<open>hi\<close> (magnitudes up to \<open>2 ^ 49\<close>), then after any
  sequence of updates so do the mid price and the fair value of every ticker, although the
  average is computed with rounding.\<close>

theorem fair_value_within_quotes:
  assumes "fe_fair_value_alpha e = Fin a" "0 \<le> a" "a \<le> 1" "fe_features e = fmempty"
    and "- (2 ^ 49) \<le> lo" "hi \<le> 2 ^ 49" "list_all (\<lambda>(t, b). quotes_within lo hi b) ups"
    and "get_features (fold (\<lambda>(t, b). on_bbo_update t b) ups e) t = Some f"
  shows "lo \<le> sint (tf_mid_price f) \<and> sint (tf_mid_price f) \<le> hi \<and>
    lo \<le> sint (tf_fair_value f) \<and> sint (tf_fair_value f) \<le> hi"
proof -
  have "fmpred (\<lambda>t. values_within lo hi) (fe_features e)" by (simp add: assms(4))
  from values_within_run [OF assms(1-3,5-7) this] assms(8) have "values_within lo hi f"
    by (auto simp: get_features_def dest: fmpredD)
  then show ?thesis by (simp add: values_within_def)
qed

theorem fair_value_within_quotes_witness:
  "\<exists>f. get_features (fold (\<lambda>(t, b). on_bbo_update t b)
       [(1, \<lparr>bb_bid_price = 100, bb_bid_qty = 5, bb_ask_price = 104, bb_ask_qty = 7\<rparr>),
        (1, \<lparr>bb_bid_price = 98, bb_bid_qty = 5, bb_ask_price = 103, bb_ask_qty = 7\<rparr>)]
       (FeatureEngine_with_alpha (Fin (1 / 2)))) 1 = Some f \<and>
     98 \<le> sint (tf_fair_value f) \<and> sint (tf_fair_value f) \<le> 104"
proof -
  let ?b1 = "\<lparr>bb_bid_price = 100, bb_bid_qty = 5, bb_ask_price = 104, bb_ask_qty = 7\<rparr>"
  let ?b2 = "\<lparr>bb_bid_price = 98, bb_bid_qty = 5, bb_ask_price = 103, bb_ask_qty = 7\<rparr>"
  let ?e = "FeatureEngine_with_alpha (Fin (1 / 2))"
  have a: "fe_fair_value_alpha ?e = Fin (1 / 2)" "fe_features ?e = fmempty"
    by (simp_all add: FeatureEngine_with_alpha_def f_clamp_def)
  have v: "BBO_is_valid ?b1" "BBO_is_valid ?b2"
    by (simp_all add: BBO_is_valid_def has_bid_def has_ask_def INVALID_PRICE_def)
  have w: "list_all (\<lambda>(t, b). quotes_within 98 104 b) [(1, ?b1), (1, ?b2)]"
    by (simp add: quotes_within_def)
  obtain f where f: "get_features (fold (\<lambda>(t, b). on_bbo_update t b) [(1, ?b1), (1, ?b2)] ?e) 1 = Some f"
    by (simp add: on_bbo_update_def v get_features_def Let_def)
  with fair_value_within_quotes [OF a(1) _ _ a(2) _ _ w f] show ?thesis by auto
qed

end
