(* ===== verification/Strategies.thy ===== *)
theory Strategies
  imports Features
begin

text \<open>
  The vocabulary of the strategies, \<open>trading/src/strategies/mod.rs\<close>: order requests, quote pairs
  and actions; and the checked \<open>Ord::clamp\<close> of the standard library, which panics when its
  bounds are out of order.
\<close>

record OrderRequest =
  or_ticker_id :: TickerId
  or_side :: Side
  or_price :: Price
  or_qty :: Qty

definition OrderRequest_new :: "TickerId \<Rightarrow> Side \<Rightarrow> Price \<Rightarrow> Qty \<Rightarrow> OrderRequest" where
  "OrderRequest_new ticker_id side price qty =
     \<lparr>or_ticker_id = ticker_id, or_side = side, or_price = price, or_qty = qty\<rparr>"

definition OrderRequest_buy :: "TickerId \<Rightarrow> Price \<Rightarrow> Qty \<Rightarrow> OrderRequest" where
  "OrderRequest_buy ticker_id price qty = OrderRequest_new ticker_id Buy price qty"

definition OrderRequest_sell :: "TickerId \<Rightarrow> Price \<Rightarrow> Qty \<Rightarrow> OrderRequest" where
  "OrderRequest_sell ticker_id price qty = OrderRequest_new ticker_id Sell price qty"

record QuotePair =
  qp_bid :: "OrderRequest option"
  qp_ask :: "OrderRequest option"

definition QuotePair_new :: "OrderRequest \<Rightarrow> OrderRequest \<Rightarrow> QuotePair" where
  "QuotePair_new bid ask = \<lparr>qp_bid = Some bid, qp_ask = Some ask\<rparr>"

definition QuotePair_empty :: QuotePair where
  "QuotePair_empty = \<lparr>qp_bid = None, qp_ask = None\<rparr>"

definition bid_only :: "OrderRequest \<Rightarrow> QuotePair" where
  "bid_only bid = \<lparr>qp_bid = Some bid, qp_ask = None\<rparr>"

definition ask_only :: "OrderRequest \<Rightarrow> QuotePair" where
  "ask_only ask = \<lparr>qp_bid = None, qp_ask = Some ask\<rparr>"

definition is_two_sided :: "QuotePair \<Rightarrow> bool" where
  "is_two_sided p \<longleftrightarrow> qp_bid p \<noteq> None \<and> qp_ask p \<noteq> None"

definition has_quotes :: "QuotePair \<Rightarrow> bool" where
  "has_quotes p \<longleftrightarrow> qp_bid p \<noteq> None \<or> qp_ask p \<noteq> None"

text \<open>The action \<open>None\<close> of the source is called \<open>NoAction\<close>.\<close>

datatype StrategyAction = NoAction | Quote QuotePair | Take OrderRequest | CancelAll TickerId

definition requires_orders :: "StrategyAction \<Rightarrow> bool" where
  "requires_orders a \<longleftrightarrow> (case a of Quote _ \<Rightarrow> True | Take _ \<Rightarrow> True | _ \<Rightarrow> False)"

definition u32_clamp :: "u32 \<Rightarrow> u32 \<Rightarrow> u32 \<Rightarrow> u32 outcome" where
  "u32_clamp lo hi x =
     (if hi < lo then Inl Assertion_Failed else Inr (if x < lo then lo else if hi < x then hi else x))"

lemma u32_clamp_ok: "lo \<le> hi \<Longrightarrow> \<exists>y. u32_clamp lo hi x = Inr y \<and> lo \<le> y \<and> y \<le> hi"
  by (auto simp: u32_clamp_def)

text \<open>The orders of an action.\<close>

definition action_orders :: "StrategyAction \<Rightarrow> OrderRequest list" where
  "action_orders a =
     (case a of
        Quote p \<Rightarrow> (case qp_bid p of Some b \<Rightarrow> [b] | None \<Rightarrow> []) @ (case qp_ask p of Some b \<Rightarrow> [b] | None \<Rightarrow> [])
      | Take order \<Rightarrow> [order]
      | _ \<Rightarrow> [])"

section \<open>What a strategy promises\<close>

text \<open>A strategy that is ready reacts without a panic, stays ready, keeps its ticker and the
  position it was told, and orders only for its ticker. A client relies on nothing else.\<close>

locale strategy =
  fixes react :: "'x \<Rightarrow> 's \<Rightarrow> (StrategyAction \<times> 's) outcome"
    and ready :: "'s \<Rightarrow> bool"
    and ticker :: "'s \<Rightarrow> TickerId"
    and pos :: "'s \<Rightarrow> i64"
  assumes react_ok: "ready s \<Longrightarrow> \<exists>act s'. react x s = Inr (act, s') \<and> ready s' \<and> ticker s' = ticker s \<and>
    pos s' = pos s \<and> (\<forall>r \<in> set (action_orders act). or_ticker_id r = ticker s)"
begin

lemma run_ok:
  assumes "ready s"
  shows "\<exists>acts s'. run_outcome react xs s = Inr (acts, s') \<and> ready s' \<and> ticker s' = ticker s \<and> pos s' = pos s \<and>
    (\<forall>act \<in> set acts. \<forall>r \<in> set (action_orders act). or_ticker_id r = ticker s)"
  using assms
proof (induction xs arbitrary: s)
  case (Cons x xs)
  obtain act s1 where 1: "react x s = Inr (act, s1)" "ready s1" "ticker s1 = ticker s" "pos s1 = pos s"
    "\<forall>r \<in> set (action_orders act). or_ticker_id r = ticker s" using react_ok [OF Cons.prems] by blast
  obtain acts s' where "run_outcome react xs s1 = Inr (acts, s')" "ready s'" "ticker s' = ticker s1" "pos s' = pos s1"
    "\<forall>act \<in> set acts. \<forall>r \<in> set (action_orders act). or_ticker_id r = ticker s1" using Cons.IH [OF 1(2)] by blast
  with 1 show ?case by simp
qed simp

end

end
