(* ===== verification/MarketMaker.thy ===== *)
theory MarketMaker
  imports Strategies
begin

text \<open>
  The market maker, \<open>trading/src/strategies/market_maker.rs\<close>: quotes around the fair value,
  widened and skewed by the imbalance, with quantities that shrink as the position grows.
\<close>

section \<open>The model\<close>

record MarketMakerConfig =
  mm_ticker_id :: TickerId
  mm_half_spread :: Price
  mm_min_spread :: Price
  mm_base_qty :: Qty
  mm_max_qty :: Qty
  mm_price_update_threshold :: Price
  mm_position_skew_factor :: f64
  mm_max_position :: i64

definition MarketMakerConfig_default :: MarketMakerConfig where
  "MarketMakerConfig_default =
     \<lparr>mm_ticker_id = 0, mm_half_spread = 50, mm_min_spread = 20, mm_base_qty = 100, mm_max_qty = 500,
      mm_price_update_threshold = 10, mm_position_skew_factor = rnd (1 / 2), mm_max_position = 1000\<rparr>"

definition MarketMakerConfig_new :: "TickerId \<Rightarrow> MarketMakerConfig" where
  "MarketMakerConfig_new ticker_id = MarketMakerConfig_default\<lparr>mm_ticker_id := ticker_id\<rparr>"

definition with_half_spread :: "Price \<Rightarrow> MarketMakerConfig \<Rightarrow> MarketMakerConfig" where
  "with_half_spread x c = c\<lparr>mm_half_spread := x\<rparr>"

definition with_min_spread :: "Price \<Rightarrow> MarketMakerConfig \<Rightarrow> MarketMakerConfig" where
  "with_min_spread x c = c\<lparr>mm_min_spread := x\<rparr>"

definition mm_with_base_qty :: "Qty \<Rightarrow> MarketMakerConfig \<Rightarrow> MarketMakerConfig" where
  "mm_with_base_qty q c = c\<lparr>mm_base_qty := q\<rparr>"

definition mm_with_max_qty :: "Qty \<Rightarrow> MarketMakerConfig \<Rightarrow> MarketMakerConfig" where
  "mm_with_max_qty q c = c\<lparr>mm_max_qty := q\<rparr>"

definition with_price_threshold :: "Price \<Rightarrow> MarketMakerConfig \<Rightarrow> MarketMakerConfig" where
  "with_price_threshold x c = c\<lparr>mm_price_update_threshold := x\<rparr>"

definition with_position_skew :: "f64 \<Rightarrow> MarketMakerConfig \<Rightarrow> MarketMakerConfig" where
  "with_position_skew factor c = c\<lparr>mm_position_skew_factor := f_clamp (Fin 0) (Fin 1) factor\<rparr>"

definition mm_with_max_position :: "i64 \<Rightarrow> MarketMakerConfig \<Rightarrow> MarketMakerConfig" where
  "mm_with_max_position n c = c\<lparr>mm_max_position := n\<rparr>"

record MarketMaker =
  mk_config :: MarketMakerConfig
  mk_last_bid_price :: Price
  mk_last_ask_price :: Price
  mk_current_position :: i64
  mk_active :: bool

definition MarketMaker_new :: "MarketMakerConfig \<Rightarrow> MarketMaker" where
  "MarketMaker_new config =
     \<lparr>mk_config = config, mk_last_bid_price = 0, mk_last_ask_price = 0, mk_current_position = 0, mk_active = True\<rparr>"

definition MarketMaker_for_ticker :: "TickerId \<Rightarrow> MarketMaker" where
  "MarketMaker_for_ticker ticker_id = MarketMaker_new (MarketMakerConfig_new ticker_id)"

text \<open>\<open>config_mut\<close>: the caller changes the configuration through the reference.\<close>

definition mm_config_mut :: "(MarketMakerConfig \<Rightarrow> MarketMakerConfig) \<Rightarrow> MarketMaker \<Rightarrow> MarketMaker" where
  "mm_config_mut f mm = mm\<lparr>mk_config := f (mk_config mm)\<rparr>"

definition mm_set_position :: "i64 \<Rightarrow> MarketMaker \<Rightarrow> MarketMaker" where
  "mm_set_position position mm = mm\<lparr>mk_current_position := position\<rparr>"

definition mm_activate :: "MarketMaker \<Rightarrow> MarketMaker" where
  "mm_activate mm = mm\<lparr>mk_active := True\<rparr>"

definition mm_deactivate :: "MarketMaker \<Rightarrow> MarketMaker" where
  "mm_deactivate mm = mm\<lparr>mk_active := False\<rparr>"

definition calculate_quotes :: "TickerFeatures \<Rightarrow> MarketMaker \<Rightarrow> Price \<times> Price" where
  "calculate_quotes f mm =
     (let fair_value = tf_fair_value f; c = mk_config mm;
          imbalance_adjustment =
            f64_to_i64 (f_mul (f_mul (f_abs (tf_imbalance f)) (f64_of_i64 (mm_half_spread c))) (rnd (1 / 2)));
          adjusted_half_spread = smax (mm_half_spread c + imbalance_adjustment) (mm_min_spread c);
          imbalance_skew =
            f64_to_i64 (f_mul (f_mul (tf_imbalance f) (f64_of_i64 adjusted_half_spread)) (rnd (1 / 5)));
          bid_price = fair_value - adjusted_half_spread - imbalance_skew;
          ask_price = fair_value + adjusted_half_spread - imbalance_skew;
          bid_price = smin bid_price (ask_price - 1)
      in (bid_price, ask_price))"

definition calculate_quantities :: "MarketMaker \<Rightarrow> (Qty \<times> Qty) outcome" where
  "calculate_quantities mm =
     (let c = mk_config mm;
          base = f64_of_u32 (mm_base_qty c);
          max_pos = f64_of_i64 (mm_max_position c);
          skew = mm_position_skew_factor c;
          position_ratio =
            (if f_lt (Fin 0) max_pos
             then f_clamp (Fin (- 1)) (Fin 1) (f_div (f64_of_i64 (mk_current_position mm)) max_pos)
             else Fin 0);
          bid_factor = f_sub (Fin 1) (f_max (f_mul skew position_ratio) (Fin 0));
          ask_factor = f_add (Fin 1) (f_min (f_mul skew position_ratio) (Fin 0))
      in case u32_clamp 1 (mm_max_qty c) (f64_to_u32 (f_mul base bid_factor)) of
           Inl e \<Rightarrow> Inl e
         | Inr bid_qty \<Rightarrow>
             (case u32_clamp 1 (mm_max_qty c) (f64_to_u32 (f_mul base ask_factor)) of
                Inl e \<Rightarrow> Inl e
              | Inr ask_qty \<Rightarrow>
                  Inr (if mm_max_position c \<le>s mk_current_position mm then 0 else bid_qty,
                       if mk_current_position mm \<le>s - mm_max_position c then 0 else ask_qty)))"

definition should_update_quotes :: "Price \<Rightarrow> Price \<Rightarrow> MarketMaker \<Rightarrow> bool" where
  "should_update_quotes new_bid new_ask mm \<longleftrightarrow>
     (if mk_last_bid_price mm = 0 \<or> mk_last_ask_price mm = 0 then True
      else mm_price_update_threshold (mk_config mm) \<le>s sabs (new_bid - mk_last_bid_price mm) \<or>
           mm_price_update_threshold (mk_config mm) \<le>s sabs (new_ask - mk_last_ask_price mm))"

definition build_quote_pair :: "Price \<Rightarrow> Qty \<Rightarrow> Price \<Rightarrow> Qty \<Rightarrow> MarketMaker \<Rightarrow> QuotePair" where
  "build_quote_pair bid_price bid_qty ask_price ask_qty mm =
     (let ticker_id = mm_ticker_id (mk_config mm)
      in \<lparr>qp_bid = (if 0 < bid_qty then Some (OrderRequest_buy ticker_id bid_price bid_qty) else None),
          qp_ask = (if 0 < ask_qty then Some (OrderRequest_sell ticker_id ask_price ask_qty) else None)\<rparr>)"

definition mm_on_features :: "TickerFeatures \<Rightarrow> MarketMaker \<Rightarrow> (StrategyAction \<times> MarketMaker) outcome" where
  "mm_on_features f mm =
     (if \<not> mk_active mm then Inr (NoAction, mm)
      else if \<not> TickerFeatures_is_valid f then Inr (NoAction, mm)
      else let (bid_price, ask_price) = calculate_quotes f mm in
        if should_update_quotes bid_price ask_price mm
        then case calculate_quantities mm of
               Inl e \<Rightarrow> Inl e
             | Inr (bid_qty, ask_qty) \<Rightarrow>
                 let mm = mm\<lparr>mk_last_bid_price := bid_price, mk_last_ask_price := ask_price\<rparr>
                 in Inr (Quote (build_quote_pair bid_price bid_qty ask_price ask_qty mm), mm)
        else Inr (NoAction, mm))"

definition mm_reset :: "MarketMaker \<Rightarrow> MarketMaker" where
  "mm_reset mm = mm\<lparr>mk_last_bid_price := 0, mk_last_ask_price := 0\<rparr>"

section \<open>Quantities\<close>

lemma clamped_pair:
  assumes "1 \<le> M"
  shows "\<exists>b a. (case u32_clamp 1 M x of Inl e \<Rightarrow> Inl e
      | Inr b \<Rightarrow> (case u32_clamp 1 M y of Inl e \<Rightarrow> Inl e
        | Inr a \<Rightarrow> Inr (if P then 0 else b, if Q then 0 else a))) = Inr (b, a) \<and>
    b \<le> M \<and> a \<le> M \<and> (b = 0 \<longleftrightarrow> P) \<and> (a = 0 \<longleftrightarrow> Q)"
proof -
  obtain b a where "u32_clamp 1 M x = Inr b" "1 \<le> b" "b \<le> M" "u32_clamp 1 M y = Inr a" "1 \<le> a" "a \<le> M"
    using u32_clamp_ok [OF assms] by metis
  then show ?thesis by auto
qed

lemma calculate_quantities_ok:
  assumes "1 \<le> mm_max_qty (mk_config mm)"
  shows "\<exists>b a. calculate_quantities mm = Inr (b, a) \<and> b \<le> mm_max_qty (mk_config mm) \<and> a \<le> mm_max_qty (mk_config mm) \<and>
    (b = 0 \<longleftrightarrow> mm_max_position (mk_config mm) \<le>s mk_current_position mm) \<and>
    (a = 0 \<longleftrightarrow> mk_current_position mm \<le>s - mm_max_position (mk_config mm))"
  unfolding calculate_quantities_def Let_def by (rule clamped_pair [OF assms])

section \<open>The contract of a strategy\<close>

definition mm_ready :: "MarketMaker \<Rightarrow> bool" where
  "mm_ready mm \<longleftrightarrow> 1 \<le> mm_max_qty (mk_config mm)"

lemma mm_on_features_total:
  assumes "mm_ready mm"
  shows "\<exists>act mm'. mm_on_features f mm = Inr (act, mm') \<and> mm_ready mm' \<and>
    mm_ticker_id (mk_config mm') = mm_ticker_id (mk_config mm) \<and> mk_current_position mm' = mk_current_position mm \<and>
    (\<forall>r \<in> set (action_orders act). or_ticker_id r = mm_ticker_id (mk_config mm))"
proof -
  obtain b a where "calculate_quantities mm = Inr (b, a)" using calculate_quantities_ok assms unfolding mm_ready_def by blast
  then show ?thesis using assms
    by (auto simp: mm_on_features_def action_orders_def build_quote_pair_def OrderRequest_buy_def OrderRequest_sell_def
        OrderRequest_new_def mm_ready_def Let_def split_beta)
qed

interpretation mk: strategy mm_on_features mm_ready "\<lambda>mm. mm_ticker_id (mk_config mm)" mk_current_position
  by unfold_locales (rule mm_on_features_total)

section \<open>Prices\<close>

text \<open>A fraction of an integer, computed with two roundings and truncated, is bounded by it.\<close>

lemma scaled_price:
  assumes "\<bar>u\<bar> \<le> 1" "0 \<le> sint w" "sint w < 2 ^ 53" "\<bar>q\<bar> \<le> 1"
  shows "\<exists>z. f_mul (f_mul (Fin u) (f64_of_i64 w)) (rnd q) = Fin z \<and> \<bar>z\<bar> \<le> of_int (sint w) \<and>
    (0 \<le> u \<longrightarrow> 0 \<le> q \<longrightarrow> 0 \<le> z)"
proof -
  define n where "n = sint w"
  have n: "0 \<le> n" "n < 2 ^ 53" using assms(2,3) by (simp_all add: n_def)
  then have n': "0 \<le> (of_int n :: rat)" by simp
  have w: "f64_of_i64 w = Fin (of_int n)" unfolding n_def by (rule f64_of_i64_exact) (use assms(2,3) in simp)
  have le: "\<bar>v * x\<bar> \<le> of_int n" if "\<bar>v\<bar> \<le> 1" "\<bar>x\<bar> \<le> of_int n" for v x :: rat
    using mult_mono [OF that] by (simp add: abs_mult)
  have pos: "0 \<le> y" if "rnd x = Fin y" "0 \<le> x" for x y using rnd_int_lower [of 0 x y] that by simp
  obtain y where y: "rnd (u * of_int n) = Fin y" "\<bar>y\<bar> \<le> of_int n"
    using rnd_int_bound [OF le [OF assms(1), of "of_int n"] n(2)] n' by auto
  obtain r where r: "rnd q = Fin r" "\<bar>r\<bar> \<le> 1" using rnd_unit [OF assms(4)] by (auto simp: unit_f64_def)
  obtain z where z: "rnd (y * r) = Fin z" "\<bar>z\<bar> \<le> of_int n"
    using rnd_int_bound [OF le [OF r(2) y(2)] n(2)] by (auto simp: mult.commute)
  have "0 \<le> z" if "0 \<le> u" "0 \<le> q"
    using pos [OF y(1)] pos [OF r(1)] pos [OF z(1)] that n' by simp
  then show ?thesis unfolding w f_mul.simps y(1) r(1) z(1) using z(2) by (simp add: n_def)
qed

lemma scaled_price_i64:
  assumes "\<bar>u\<bar> \<le> 1" "0 \<le> sint w" "sint w < 2 ^ 53" "\<bar>q\<bar> \<le> 1"
  shows "\<bar>sint (f64_to_i64 (f_mul (f_mul (Fin u) (f64_of_i64 w)) (rnd q)))\<bar> \<le> sint w"
    "0 \<le> u \<Longrightarrow> 0 \<le> q \<Longrightarrow> 0 \<le> sint (f64_to_i64 (f_mul (f_mul (Fin u) (f64_of_i64 w)) (rnd q)))"
proof -
  obtain z where z: "f_mul (f_mul (Fin u) (f64_of_i64 w)) (rnd q) = Fin z" "\<bar>z\<bar> \<le> of_int (sint w)"
    "0 \<le> u \<Longrightarrow> 0 \<le> q \<Longrightarrow> 0 \<le> z" using scaled_price [OF assms] by blast
  have "sint w < 2 ^ 63" using assms(3) by simp
  note t = sint_f64_to_i64_trunc [OF z(2) this] trunc_rat_abs [OF z(2)] trunc_rat_nonneg [of z]
  show "\<bar>sint (f64_to_i64 (f_mul (f_mul (Fin u) (f64_of_i64 w)) (rnd q)))\<bar> \<le> sint w"
    "0 \<le> u \<Longrightarrow> 0 \<le> q \<Longrightarrow> 0 \<le> sint (f64_to_i64 (f_mul (f_mul (Fin u) (f64_of_i64 w)) (rnd q)))"
    unfolding z(1) using t z(3) by simp_all
qed

text \<open>The quotes lie around the fair value, at least twice the configured half spread apart.\<close>

lemma calculate_quotes_around:
  assumes i: "unit_f64 (tf_imbalance f)"
    and h: "0 \<le> sint (mm_half_spread (mk_config mm))" "sint (mm_half_spread (mk_config mm)) < 2 ^ 52"
    and m: "sint (mm_min_spread (mk_config mm)) < 2 ^ 53" and fv: "\<bar>sint (tf_fair_value f)\<bar> < 2 ^ 60"
    and q: "calculate_quotes f mm = (bid, ask)"
  shows "sint bid < sint ask" "sint bid \<le> sint (tf_fair_value f)" "sint (tf_fair_value f) \<le> sint ask"
    "2 * max (sint (mm_half_spread (mk_config mm))) (sint (mm_min_spread (mk_config mm))) \<le> sint ask - sint bid"
proof -
  let ?H = "mm_half_spread (mk_config mm)" and ?m = "mm_min_spread (mk_config mm)" and ?fv = "tf_fair_value f"
  obtain u where u: "tf_imbalance f = Fin u" "\<bar>u\<bar> \<le> 1" using i by (auto simp: unit_f64_def)
  define adj where "adj = f64_to_i64 (f_mul (f_mul (Fin \<bar>u\<bar>) (f64_of_i64 ?H)) (rnd (1 / 2)))"
  have "sint ?H < 2 ^ 53" using h(2) by simp
  from scaled_price_i64 [OF _ h(1) this, of "\<bar>u\<bar>" "1 / 2"] u(2)
  have adj: "0 \<le> sint adj" "sint adj \<le> sint ?H" unfolding adj_def by simp_all
  then have "fits_i64 (sint ?H + sint adj)" using h by (simp add: fits_i64_def)
  then have sum: "sint (?H + adj) = sint ?H + sint adj" by (rule sint_add_i64)
  define A where "A = smax (?H + adj) ?m"
  have A: "sint A = max (sint ?H + sint adj) (sint ?m)" by (simp add: A_def sum)
  then have A2: "0 \<le> sint A" "sint A < 2 ^ 53" using adj h m by auto
  define k where "k = f64_to_i64 (f_mul (f_mul (Fin u) (f64_of_i64 A)) (rnd (1 / 5)))"
  have k: "\<bar>sint k\<bar> \<le> sint A" unfolding k_def by (rule scaled_price_i64(1) [OF u(2) A2]) simp
  have qs: "bid = smin (?fv - A - k) (?fv + A - k - 1)" "ask = ?fv + A - k"
    using q by (auto simp: calculate_quotes_def Let_def u(1) adj_def [symmetric] A_def [symmetric] k_def [symmetric])
  have f1: "sint (?fv - A) = sint ?fv - sint A" by (rule sint_diff_i64) (use fv A2 in \<open>auto simp: fits_i64_def\<close>)
  have f2: "sint (?fv + A) = sint ?fv + sint A" by (rule sint_add_i64) (use fv A2 in \<open>auto simp: fits_i64_def\<close>)
  have f3: "sint (?fv - A - k) = sint ?fv - sint A - sint k"
    by (subst sint_diff_i64) (use fv A2 k f1 in \<open>auto simp: fits_i64_def\<close>)
  have f4: "sint ask = sint ?fv + sint A - sint k" unfolding qs
    by (subst sint_diff_i64) (use fv A2 k f2 in \<open>auto simp: fits_i64_def\<close>)
  have f5: "sint (?fv + A - k - 1) = sint ask - 1" unfolding qs(2) [symmetric]
    by (subst sint_diff_i64) (use fv A2 k f4 in \<open>auto simp: fits_i64_def\<close>)
  have b: "sint bid = min (sint ?fv - sint A - sint k) (sint ?fv + sint A - sint k - 1)"
    unfolding qs(1) by (simp add: f3 f5 f4)
  show "sint bid < sint ask" "sint bid \<le> sint ?fv" "sint ?fv \<le> sint ask"
    "2 * max (sint ?H) (sint ?m) \<le> sint ask - sint bid"
    using b f4 k A adj by linarith+
qed

section \<open>Properties\<close>



text \<open>A configuration with a maximal quantity of zero makes the first quote panic.\<close>

lemma zero_max_qty_panics:
  assumes "mk_active mm" "TickerFeatures_is_valid f" "mk_last_bid_price mm = 0" "mm_max_qty (mk_config mm) = 0"
  shows "mm_on_features f mm = Inl Assertion_Failed"
  using assms by (simp add: mm_on_features_def should_update_quotes_def calculate_quantities_def u32_clamp_def
      Let_def split_beta)

end
