(* ===== verification/LiquidityTaker.thy ===== *)
theory LiquidityTaker
  imports Strategies
begin

text \<open>
  The liquidity taker, \<open>trading/src/strategies/liquidity_taker.rs\<close>: when the trade signal passes a
  threshold it takes liquidity, no faster than a minimal interval that grows after each order.
\<close>

section \<open>The model\<close>

record LiquidityTakerConfig =
  lt_ticker_id :: TickerId
  lt_buy_threshold :: f64
  lt_sell_threshold :: f64
  lt_base_qty :: Qty
  lt_max_qty :: Qty
  lt_scale_with_signal :: bool
  lt_aggression_bps :: u32
  lt_min_order_interval_ns :: u64
  lt_max_position :: i64
  lt_cooldown_factor :: f64

definition LiquidityTakerConfig_default :: LiquidityTakerConfig where
  "LiquidityTakerConfig_default =
     \<lparr>lt_ticker_id = 0, lt_buy_threshold = rnd (3 / 10), lt_sell_threshold = f_neg (rnd (3 / 10)),
      lt_base_qty = 100, lt_max_qty = 500, lt_scale_with_signal = True, lt_aggression_bps = 10,
      lt_min_order_interval_ns = 100000000, lt_max_position = 5000, lt_cooldown_factor = Fin 2\<rparr>"

definition LiquidityTakerConfig_new :: "TickerId \<Rightarrow> LiquidityTakerConfig" where
  "LiquidityTakerConfig_new ticker_id = LiquidityTakerConfig_default\<lparr>lt_ticker_id := ticker_id\<rparr>"

definition with_buy_threshold :: "f64 \<Rightarrow> LiquidityTakerConfig \<Rightarrow> LiquidityTakerConfig" where
  "with_buy_threshold x c = c\<lparr>lt_buy_threshold := f_clamp (Fin 0) (Fin 1) x\<rparr>"

definition with_sell_threshold :: "f64 \<Rightarrow> LiquidityTakerConfig \<Rightarrow> LiquidityTakerConfig" where
  "with_sell_threshold x c = c\<lparr>lt_sell_threshold := f_clamp (Fin (- 1)) (Fin 0) x\<rparr>"

definition with_threshold :: "f64 \<Rightarrow> LiquidityTakerConfig \<Rightarrow> LiquidityTakerConfig" where
  "with_threshold x c =
     (let abs_threshold = f_clamp (Fin 0) (Fin 1) (f_abs x)
      in c\<lparr>lt_buy_threshold := abs_threshold, lt_sell_threshold := f_neg abs_threshold\<rparr>)"

definition lt_with_base_qty :: "Qty \<Rightarrow> LiquidityTakerConfig \<Rightarrow> LiquidityTakerConfig" where
  "lt_with_base_qty q c = c\<lparr>lt_base_qty := q\<rparr>"

definition lt_with_max_qty :: "Qty \<Rightarrow> LiquidityTakerConfig \<Rightarrow> LiquidityTakerConfig" where
  "lt_with_max_qty q c = c\<lparr>lt_max_qty := q\<rparr>"

definition with_signal_scaling :: "bool \<Rightarrow> LiquidityTakerConfig \<Rightarrow> LiquidityTakerConfig" where
  "with_signal_scaling b c = c\<lparr>lt_scale_with_signal := b\<rparr>"

definition with_aggression_bps :: "u32 \<Rightarrow> LiquidityTakerConfig \<Rightarrow> LiquidityTakerConfig" where
  "with_aggression_bps n c = c\<lparr>lt_aggression_bps := n\<rparr>"

definition with_min_interval_ns :: "u64 \<Rightarrow> LiquidityTakerConfig \<Rightarrow> LiquidityTakerConfig" where
  "with_min_interval_ns n c = c\<lparr>lt_min_order_interval_ns := n\<rparr>"

definition lt_with_max_position :: "i64 \<Rightarrow> LiquidityTakerConfig \<Rightarrow> LiquidityTakerConfig" where
  "lt_with_max_position n c = c\<lparr>lt_max_position := n\<rparr>"

definition with_cooldown_factor :: "f64 \<Rightarrow> LiquidityTakerConfig \<Rightarrow> LiquidityTakerConfig" where
  "with_cooldown_factor x c = c\<lparr>lt_cooldown_factor := f_max x (Fin 1)\<rparr>"

record LiquidityTaker =
  tk_config :: LiquidityTakerConfig
  tk_last_order_time_ns :: u64
  tk_effective_interval_ns :: u64
  tk_current_position :: i64
  tk_active :: bool
  tk_orders_sent :: u64

definition LiquidityTaker_new :: "LiquidityTakerConfig \<Rightarrow> LiquidityTaker" where
  "LiquidityTaker_new config =
     \<lparr>tk_config = config, tk_last_order_time_ns = 0,
      tk_effective_interval_ns = lt_min_order_interval_ns config, tk_current_position = 0,
      tk_active = True, tk_orders_sent = 0\<rparr>"

definition LiquidityTaker_for_ticker :: "TickerId \<Rightarrow> LiquidityTaker" where
  "LiquidityTaker_for_ticker ticker_id = LiquidityTaker_new (LiquidityTakerConfig_new ticker_id)"

text \<open>\<open>config_mut\<close>: the caller changes the configuration through the reference.\<close>

definition lt_config_mut :: "(LiquidityTakerConfig \<Rightarrow> LiquidityTakerConfig) \<Rightarrow> LiquidityTaker \<Rightarrow> LiquidityTaker" where
  "lt_config_mut f lt = lt\<lparr>tk_config := f (tk_config lt)\<rparr>"

definition lt_set_position :: "i64 \<Rightarrow> LiquidityTaker \<Rightarrow> LiquidityTaker" where
  "lt_set_position position lt = lt\<lparr>tk_current_position := position\<rparr>"

definition lt_activate :: "LiquidityTaker \<Rightarrow> LiquidityTaker" where
  "lt_activate lt = lt\<lparr>tk_active := True\<rparr>"

definition lt_deactivate :: "LiquidityTaker \<Rightarrow> LiquidityTaker" where
  "lt_deactivate lt = lt\<lparr>tk_active := False\<rparr>"

definition can_send_order :: "u64 \<Rightarrow> LiquidityTaker \<Rightarrow> bool" where
  "can_send_order current_time_ns lt \<longleftrightarrow>
     (if tk_last_order_time_ns lt = 0 then True
      else tk_last_order_time_ns lt + tk_effective_interval_ns lt \<le> current_time_ns)"

definition record_order :: "u64 \<Rightarrow> LiquidityTaker \<Rightarrow> LiquidityTaker" where
  "record_order current_time_ns lt =
     lt\<lparr>tk_last_order_time_ns := current_time_ns, tk_orders_sent := tk_orders_sent lt + 1,
        tk_effective_interval_ns :=
          min (f64_to_u64 (f_mul (f64_of_u64 (tk_effective_interval_ns lt)) (lt_cooldown_factor (tk_config lt))))
              (lt_min_order_interval_ns (tk_config lt) * 10)\<rparr>"

definition reset_cooldown :: "LiquidityTaker \<Rightarrow> LiquidityTaker" where
  "reset_cooldown lt = lt\<lparr>tk_effective_interval_ns := lt_min_order_interval_ns (tk_config lt)\<rparr>"

definition calculate_quantity :: "f64 \<Rightarrow> LiquidityTaker \<Rightarrow> Qty outcome" where
  "calculate_quantity signal lt =
     (let c = tk_config lt in
      if lt_scale_with_signal c
      then let signal_abs = f_abs signal;
               threshold = (if f_lt (Fin 0) signal then lt_buy_threshold c else f_abs (lt_sell_threshold c));
               signal_excess = f_div (f_sub signal_abs threshold) (f_sub (Fin 1) threshold);
               signal_factor = f_clamp (Fin 0) (Fin 1) signal_excess;
               base = f64_of_u32 (lt_base_qty c);
               max_q = f64_of_u32 (lt_max_qty c);
               qty = f_add base (f_mul (f_sub max_q base) signal_factor)
           in u32_clamp 1 (lt_max_qty c) (f64_to_u32 qty)
      else Inr (lt_base_qty c))"

text \<open>\<open>aggression\<close>: the amount by which the order crosses the spread.\<close>

definition aggression :: "Price \<Rightarrow> LiquidityTaker \<Rightarrow> Price" where
  "aggression best lt =
     f64_to_i64 (f_div (f_mul (f64_of_i64 best) (f64_of_u32 (lt_aggression_bps (tk_config lt)))) (Fin 10000))"

definition create_buy_order :: "f64 \<Rightarrow> Price \<Rightarrow> LiquidityTaker \<Rightarrow> OrderRequest option outcome" where
  "create_buy_order signal best_ask lt =
     (case calculate_quantity signal lt of
        Inl e \<Rightarrow> Inl e
      | Inr qty \<Rightarrow>
          if qty = 0 then Inr None
          else Inr (Some (OrderRequest_buy (lt_ticker_id (tk_config lt)) (best_ask + aggression best_ask lt) qty)))"

definition create_sell_order :: "f64 \<Rightarrow> Price \<Rightarrow> LiquidityTaker \<Rightarrow> OrderRequest option outcome" where
  "create_sell_order signal best_bid lt =
     (case calculate_quantity signal lt of
        Inl e \<Rightarrow> Inl e
      | Inr qty \<Rightarrow>
          if qty = 0 then Inr None
          else Inr (Some (OrderRequest_sell (lt_ticker_id (tk_config lt)) (best_bid - aggression best_bid lt) qty)))"

text \<open>The second half of \<open>on_features\<close>, the check for a sell signal.\<close>

definition sell_signal :: "f64 \<Rightarrow> u64 \<Rightarrow> Price \<Rightarrow> LiquidityTaker \<Rightarrow> (StrategyAction \<times> LiquidityTaker) outcome" where
  "sell_signal signal current_time_ns best_bid lt =
     (let c = tk_config lt in
      if f_lt signal (lt_sell_threshold c)
      then if 0 <s lt_max_position c \<and> tk_current_position lt \<le>s - lt_max_position c then Inr (NoAction, lt)
           else (case create_sell_order signal best_bid lt of
                   Inl e \<Rightarrow> Inl e
                 | Inr (Some order) \<Rightarrow> Inr (Take order, record_order current_time_ns lt)
                 | Inr None \<Rightarrow> Inr (NoAction, lt))
      else Inr (NoAction, lt))"

definition lt_on_features :: "TickerFeatures \<Rightarrow> u64 \<Rightarrow> Price \<Rightarrow> Price \<Rightarrow> LiquidityTaker \<Rightarrow>
    (StrategyAction \<times> LiquidityTaker) outcome" where
  "lt_on_features f current_time_ns best_bid best_ask lt =
     (if \<not> tk_active lt then Inr (NoAction, lt)
      else if \<not> TickerFeatures_is_valid f then Inr (NoAction, lt)
      else if \<not> can_send_order current_time_ns lt then Inr (NoAction, lt)
      else let signal = tf_trade_signal f; c = tk_config lt in
        if f_lt (lt_buy_threshold c) signal
        then if 0 <s lt_max_position c \<and> lt_max_position c \<le>s tk_current_position lt then Inr (NoAction, lt)
             else (case create_buy_order signal best_ask lt of
                     Inl e \<Rightarrow> Inl e
                   | Inr (Some order) \<Rightarrow> Inr (Take order, record_order current_time_ns lt)
                   | Inr None \<Rightarrow> sell_signal signal current_time_ns best_bid lt)
        else sell_signal signal current_time_ns best_bid lt)"

definition on_features_simple :: "TickerFeatures \<Rightarrow> u64 \<Rightarrow> LiquidityTaker \<Rightarrow> (StrategyAction \<times> LiquidityTaker) outcome" where
  "on_features_simple f current_time_ns lt =
     (let mid = tf_mid_price f; half_spread = trunc_div (tf_spread f) 2;
          best_bid = mid - half_spread; best_ask = mid + half_spread
      in lt_on_features f current_time_ns best_bid best_ask lt)"

definition lt_on_fill :: "LiquidityTaker \<Rightarrow> LiquidityTaker" where
  "lt_on_fill lt =
     (let lt = lt\<lparr>tk_effective_interval_ns := tk_effective_interval_ns lt div 2\<rparr>
      in lt\<lparr>tk_effective_interval_ns := max (tk_effective_interval_ns lt) (lt_min_order_interval_ns (tk_config lt))\<rparr>)"

definition lt_reset :: "LiquidityTaker \<Rightarrow> LiquidityTaker" where
  "lt_reset lt = lt\<lparr>tk_last_order_time_ns := 0,
     tk_effective_interval_ns := lt_min_order_interval_ns (tk_config lt), tk_orders_sent := 0\<rparr>"

section \<open>Orders\<close>

lemma calculate_quantity_ok:
  assumes "1 \<le> lt_max_qty (tk_config lt)"
  shows "\<exists>q. calculate_quantity signal lt = Inr q \<and>
    (if lt_scale_with_signal (tk_config lt) then 1 \<le> q \<and> q \<le> lt_max_qty (tk_config lt)
     else q = lt_base_qty (tk_config lt))"
  unfolding calculate_quantity_def Let_def using u32_clamp_ok [OF assms] by auto

text \<open>The contract of a strategy.\<close>

definition lt_ready :: "LiquidityTaker \<Rightarrow> bool" where
  "lt_ready lt \<longleftrightarrow> 1 \<le> lt_max_qty (tk_config lt)"

definition lt_react :: "TickerFeatures \<times> u64 \<times> Price \<times> Price \<Rightarrow> LiquidityTaker \<Rightarrow> (StrategyAction \<times> LiquidityTaker) outcome" where
  "lt_react = (\<lambda>(f, t, best_bid, best_ask). lt_on_features f t best_bid best_ask)"

lemma lt_on_features_total:
  assumes "lt_ready lt"
  shows "\<exists>act lt'. lt_on_features f t b a lt = Inr (act, lt') \<and> lt_ready lt' \<and>
    lt_ticker_id (tk_config lt') = lt_ticker_id (tk_config lt) \<and> tk_current_position lt' = tk_current_position lt \<and>
    (\<forall>r \<in> set (action_orders act). or_ticker_id r = lt_ticker_id (tk_config lt))"
proof -
  obtain q where "calculate_quantity (tf_trade_signal f) lt = Inr q"
    using calculate_quantity_ok assms unfolding lt_ready_def by blast
  then show ?thesis using assms
    by (auto simp: lt_on_features_def sell_signal_def create_buy_order_def create_sell_order_def action_orders_def
        OrderRequest_buy_def OrderRequest_sell_def OrderRequest_new_def record_order_def lt_ready_def Let_def)
qed

interpretation tk: strategy lt_react lt_ready "\<lambda>lt. lt_ticker_id (tk_config lt)" tk_current_position
  by unfold_locales (use lt_on_features_total in \<open>auto simp: lt_react_def\<close>)

text \<open>With at most 10000 basis points the order crosses by at most the whole price.\<close>

lemma aggression_bounds:
  assumes "0 \<le> sint p" "sint p < 2 ^ 39" "lt_aggression_bps (tk_config lt) \<le> 10000"
  shows "0 \<le> sint (aggression p lt)" "sint (aggression p lt) \<le> sint p"
proof -
  define n b where "n = sint p" and "b = uint (lt_aggression_bps (tk_config lt))"
  have n: "0 \<le> n" "n < 2 ^ 39" using assms by (simp_all add: n_def)
  have b: "0 \<le> b" "b \<le> 10000" using assms(3) by (simp_all add: b_def word_le_def)
  have nb: "0 \<le> n * b" "n * b \<le> n * 10000" using n b by (simp_all add: mult_left_mono)
  have e: "f64_of_i64 p = Fin (of_int n)" "f64_of_u32 (lt_aggression_bps (tk_config lt)) = Fin (of_int b)"
    using f64_of_i64_exact [of p] f64_of_u32_exact assms(1,2) unfolding n_def b_def by simp_all
  have prod: "rnd (of_int n * of_int b) = Fin (of_int (n * b))"
    using rnd_int [of "n * b"] nb n by (simp flip: of_int_mult)
  have "(of_int (n * b) :: rat) \<le> of_int (n * 10000)" "0 \<le> (of_int (n * b) :: rat)" using nb by (simp_all only: of_int_le_iff of_int_0_le_iff)
  then have q: "\<bar>of_int (n * b) / 10000 :: rat\<bar> \<le> of_int n" "0 \<le> (of_int (n * b) / 10000 :: rat)"
    by (simp_all add: field_simps)
  have n53: "n < 2 ^ 53" "n < 2 ^ 63" using n(2) by simp_all
  obtain y where y: "rnd (of_int (n * b) / 10000) = Fin y" "\<bar>y\<bar> \<le> of_int n"
    using rnd_int_bound [OF q(1) n53(1)] by blast
  have y0: "0 \<le> y" using rnd_int_lower [OF _ _ _ y(1), of 0] q(2) by (simp only: of_int_0) simp
  have "aggression p lt = f64_to_i64 (Fin y)"
    unfolding aggression_def e f_mul.simps prod f_div.simps y(1) [symmetric] by simp
  with sint_f64_to_i64_trunc [OF y(2) n53(2)] trunc_rat_abs [OF y(2)] trunc_rat_nonneg [OF y0]
  show "0 \<le> sint (aggression p lt)" "sint (aggression p lt) \<le> sint p" by (simp_all add: n_def)
qed

lemma aggressive_price:
  assumes "0 \<le> sint p" "sint p < 2 ^ 39" "lt_aggression_bps (tk_config lt) \<le> 10000"
  shows "sint p \<le> sint (p + aggression p lt)" "sint (p + aggression p lt) \<le> 2 * sint p"
    "0 \<le> sint (p - aggression p lt)" "sint (p - aggression p lt) \<le> sint p"
proof -
  note a = aggression_bounds [OF assms]
  have "sint (p + aggression p lt) = sint p + sint (aggression p lt)"
    by (rule sint_add_i64) (use a assms(1,2) in \<open>auto simp: fits_i64_def\<close>)
  moreover have "sint (p - aggression p lt) = sint p - sint (aggression p lt)"
    by (rule sint_diff_i64) (use a assms(1,2) in \<open>auto simp: fits_i64_def\<close>)
  ultimately show "sint p \<le> sint (p + aggression p lt)" "sint (p + aggression p lt) \<le> 2 * sint p"
    "0 \<le> sint (p - aggression p lt)" "sint (p - aggression p lt) \<le> sint p" using a by simp_all
qed

text \<open>What an order of the taker looks like: its side agrees with the signal and the position
  limit, its price crosses the spread, its quantity is within the limits.\<close>

definition taker_order_ok :: "TickerFeatures \<Rightarrow> Price \<Rightarrow> Price \<Rightarrow> LiquidityTaker \<Rightarrow> OrderRequest \<Rightarrow> bool" where
  "taker_order_ok f best_bid best_ask lt order \<longleftrightarrow>
     (let c = tk_config lt; signal = tf_trade_signal f; p = or_price order in
      or_ticker_id order = lt_ticker_id c \<and> 1 \<le> or_qty order \<and>
      (if lt_scale_with_signal c then or_qty order \<le> lt_max_qty c else or_qty order = lt_base_qty c) \<and>
      (case or_side order of
         Buy \<Rightarrow> f_lt (lt_buy_threshold c) signal \<and> \<not> (0 <s lt_max_position c \<and> lt_max_position c \<le>s tk_current_position lt) \<and>
           sint best_ask \<le> sint p \<and> sint p \<le> 2 * sint best_ask
       | Sell \<Rightarrow> f_lt signal (lt_sell_threshold c) \<and> \<not> (0 <s lt_max_position c \<and> tk_current_position lt \<le>s - lt_max_position c) \<and>
           0 \<le> sint p \<and> sint p \<le> sint best_bid))"

lemma u32_pos: "1 \<le> (q :: u32) \<longleftrightarrow> q \<noteq> 0"
  by (simp add: word_le_nat_alt Suc_le_eq unat_gt_0)

text \<open>The buy half and the sell half, each on its own.\<close>

lemma create_buy_order_ok:
  assumes "1 \<le> lt_max_qty (tk_config lt)" "lt_aggression_bps (tk_config lt) \<le> 10000"
    and "0 \<le> sint best_ask" "sint best_ask < 2 ^ 39" "f_lt (lt_buy_threshold (tk_config lt)) (tf_trade_signal f)"
    and "\<not> (0 <s lt_max_position (tk_config lt) \<and> lt_max_position (tk_config lt) \<le>s tk_current_position lt)"
  shows "\<exists>r. create_buy_order (tf_trade_signal f) best_ask lt = Inr r \<and> pred_option (taker_order_ok f best_bid best_ask lt) r"
proof -
  obtain q where q: "calculate_quantity (tf_trade_signal f) lt = Inr q"
    "if lt_scale_with_signal (tk_config lt) then 1 \<le> q \<and> q \<le> lt_max_qty (tk_config lt) else q = lt_base_qty (tk_config lt)"
    using calculate_quantity_ok [OF assms(1)] by blast
  show ?thesis using q assms(5,6) aggressive_price(1,2) [OF assms(3,4,2)] u32_pos [of q]
    by (simp add: create_buy_order_def taker_order_ok_def OrderRequest_buy_def OrderRequest_new_def split: if_splits)
qed

lemma create_sell_order_ok:
  assumes "1 \<le> lt_max_qty (tk_config lt)" "lt_aggression_bps (tk_config lt) \<le> 10000"
    and "0 \<le> sint best_bid" "sint best_bid < 2 ^ 39" "f_lt (tf_trade_signal f) (lt_sell_threshold (tk_config lt))"
    and "\<not> (0 <s lt_max_position (tk_config lt) \<and> tk_current_position lt \<le>s - lt_max_position (tk_config lt))"
  shows "\<exists>r. create_sell_order (tf_trade_signal f) best_bid lt = Inr r \<and> pred_option (taker_order_ok f best_bid best_ask lt) r"
proof -
  obtain q where q: "calculate_quantity (tf_trade_signal f) lt = Inr q"
    "if lt_scale_with_signal (tk_config lt) then 1 \<le> q \<and> q \<le> lt_max_qty (tk_config lt) else q = lt_base_qty (tk_config lt)"
    using calculate_quantity_ok [OF assms(1)] by blast
  show ?thesis using q assms(5,6) aggressive_price(3,4) [OF assms(3,4,2)] u32_pos [of q]
    by (simp add: create_sell_order_def taker_order_ok_def OrderRequest_sell_def OrderRequest_new_def split: if_splits)
qed

text \<open>Every result of \<open>on_features\<close>: no action and no change, or an order that is recorded.\<close>

lemma sell_signal_cases:
  assumes "1 \<le> lt_max_qty (tk_config lt)" "lt_aggression_bps (tk_config lt) \<le> 10000"
    and "0 \<le> sint best_bid" "sint best_bid < 2 ^ 39"
  shows "sell_signal (tf_trade_signal f) t best_bid lt = Inr (NoAction, lt) \<or>
    (\<exists>r. sell_signal (tf_trade_signal f) t best_bid lt = Inr (Take r, record_order t lt) \<and> taker_order_ok f best_bid best_ask lt r)"
proof (cases "f_lt (tf_trade_signal f) (lt_sell_threshold (tk_config lt)) \<and>
    \<not> (0 <s lt_max_position (tk_config lt) \<and> tk_current_position lt \<le>s - lt_max_position (tk_config lt))")
  case True
  obtain r where "create_sell_order (tf_trade_signal f) best_bid lt = Inr r" "pred_option (taker_order_ok f best_bid best_ask lt) r"
    using create_sell_order_ok [OF assms] True by blast
  with True show ?thesis by (cases r) (auto simp: sell_signal_def)
qed (auto simp: sell_signal_def Let_def)

section \<open>Rate limiting\<close>

text \<open>The interval stays between the configured one and ten times it.\<close>

definition interval_ok :: "LiquidityTaker \<Rightarrow> bool" where
  "interval_ok lt \<longleftrightarrow> lt_min_order_interval_ns (tk_config lt) \<le> tk_effective_interval_ns lt \<and>
     uint (tk_effective_interval_ns lt) \<le> 10 * uint (lt_min_order_interval_ns (tk_config lt))"

definition cooldown_ok :: "LiquidityTakerConfig \<Rightarrow> bool" where
  "cooldown_ok c \<longleftrightarrow> uint (lt_min_order_interval_ns c) < 2 ^ 49 \<and>
     (case lt_cooldown_factor c of Fin x \<Rightarrow> 1 \<le> x | _ \<Rightarrow> False)"

lemma record_order_interval:
  assumes "interval_ok lt" "cooldown_ok (tk_config lt)"
  shows "interval_ok (record_order t lt)"
proof -
  let ?m = "lt_min_order_interval_ns (tk_config lt)" and ?e = "tk_effective_interval_ns lt"
  define n where "n = uint ?e"
  obtain x where x: "lt_cooldown_factor (tk_config lt) = Fin x" "1 \<le> x" and m: "uint ?m < 2 ^ 49"
    using assms(2) by (auto simp: cooldown_ok_def split: f64.splits)
  have i: "uint ?m \<le> n" "n \<le> 10 * uint ?m" using assms(1) by (simp_all add: interval_ok_def word_le_def n_def)
  have n: "0 \<le> n" "n < 2 ^ 53" using i m uint_nonnegative [of ?e] by (auto simp: n_def)
  have "f64_of_u64 ?e = Fin (of_int n)" unfolding f64_of_u64_def n_def [symmetric] by (rule rnd_int) (use n in simp)
  moreover have "of_int n \<le> of_int n * x" using n x(2) by (simp add: mult_le_cancel_left1)
  note f64_to_u64_lower [OF this n]
  ultimately have lo: "n \<le> uint (f64_to_u64 (f_mul (f64_of_u64 ?e) (lt_cooldown_factor (tk_config lt))))"
    by (simp add: x(1))
  have "uint (?m * 10) = uint ?m * 10" using m uint_mult_lem [of ?m 10] by simp
  with lo i show ?thesis
    by (auto simp: interval_ok_def record_order_def word_le_def min_def)
qed

text \<open>The calls on a taker, with the clock reading where the source passes one.\<close>

datatype taker_op =
  On_Features TickerFeatures u64 Price Price
| On_Fill
| Set_Position i64
| Reset_Cooldown
| Activate
| Deactivate

fun taker_step :: "taker_op \<Rightarrow> LiquidityTaker \<Rightarrow> (StrategyAction \<times> LiquidityTaker) outcome" where
  "taker_step (On_Features f t best_bid best_ask) lt = lt_on_features f t best_bid best_ask lt"
| "taker_step On_Fill lt = Inr (NoAction, lt_on_fill lt)"
| "taker_step (Set_Position p) lt = Inr (NoAction, lt_set_position p lt)"
| "taker_step Reset_Cooldown lt = Inr (NoAction, reset_cooldown lt)"
| "taker_step Activate lt = Inr (NoAction, lt_activate lt)"
| "taker_step Deactivate lt = Inr (NoAction, lt_deactivate lt)"

text \<open>The clock readings at which orders were taken.\<close>

fun take_times :: "taker_op list \<Rightarrow> StrategyAction list \<Rightarrow> u64 list" where
  "take_times (On_Features f t b a # ops) (Take _ # outs) = t # take_times ops outs"
| "take_times (_ # ops) (_ # outs) = take_times ops outs"
| "take_times _ _ = []"

fun times_ok :: "taker_op \<Rightarrow> bool" where
  "times_ok (On_Features f t b a) \<longleftrightarrow> 0 < t \<and> t < 2 ^ 62 \<and>
     0 \<le> sint b \<and> sint b < 2 ^ 39 \<and> 0 \<le> sint a \<and> sint a < 2 ^ 39"
| "times_ok _ \<longleftrightarrow> True"

definition taker_inv :: "LiquidityTakerConfig \<Rightarrow> LiquidityTaker \<Rightarrow> bool" where
  "taker_inv c lt \<longleftrightarrow> tk_config lt = c \<and> interval_ok lt \<and> tk_last_order_time_ns lt < 2 ^ 62"

lemma lt_on_features_cases:
  assumes "1 \<le> lt_max_qty (tk_config lt)" "lt_aggression_bps (tk_config lt) \<le> 10000"
    and "0 \<le> sint best_bid" "sint best_bid < 2 ^ 39" "0 \<le> sint best_ask" "sint best_ask < 2 ^ 39"
  shows "lt_on_features f t best_bid best_ask lt = Inr (NoAction, lt) \<or>
    (\<exists>r. lt_on_features f t best_bid best_ask lt = Inr (Take r, record_order t lt) \<and>
       tk_active lt \<and> TickerFeatures_is_valid f \<and> can_send_order t lt \<and> taker_order_ok f best_bid best_ask lt r)"
proof (cases "tk_active lt \<and> TickerFeatures_is_valid f \<and> can_send_order t lt")
  case True
  let ?s = "tf_trade_signal f"
  note sell = sell_signal_cases [OF assms(1-4), of f t best_ask]
  show ?thesis
  proof (cases "f_lt (lt_buy_threshold (tk_config lt)) ?s \<and>
      \<not> (0 <s lt_max_position (tk_config lt) \<and> lt_max_position (tk_config lt) \<le>s tk_current_position lt)")
    case buy: True
    obtain r where "create_buy_order ?s best_ask lt = Inr r" "pred_option (taker_order_ok f best_bid best_ask lt) r"
      using create_buy_order_ok [OF assms(1,2,5,6)] buy by blast
    with True buy sell show ?thesis by (cases r) (auto simp: lt_on_features_def)
  next
    case False
    with True sell show ?thesis by (auto simp: lt_on_features_def Let_def)
  qed
qed (auto simp: lt_on_features_def)

lemma lt_on_fill_interval: "interval_ok lt \<Longrightarrow> interval_ok (lt_on_fill lt)"
  by (auto simp: interval_ok_def lt_on_fill_def max_def word_le_def uint_div Let_def)

text \<open>One step: the taker stays within its invariant, and an order comes at least the minimal
  interval after the last one.\<close>

lemma taker_step_ok:
  assumes c: "1 \<le> lt_max_qty c" "lt_aggression_bps c \<le> 10000" "cooldown_ok c"
    and inv: "taker_inv c lt" and t: "times_ok op"
  shows "\<exists>act lt'. taker_step op lt = Inr (act, lt') \<and> taker_inv c lt' \<and>
    (tk_last_order_time_ns lt' = tk_last_order_time_ns lt \<and> take_times [op] [act] = [] \<or>
     (\<exists>t. take_times [op] [act] = [t] \<and> tk_last_order_time_ns lt' = t \<and> 0 < t \<and>
        (tk_last_order_time_ns lt = 0 \<or> uint (tk_last_order_time_ns lt) + uint (lt_min_order_interval_ns c) \<le> uint t)))"
proof (cases op)
  case (On_Features f t b a)
  have cfg: "tk_config lt = c" and i: "interval_ok lt" and l: "tk_last_order_time_ns lt < 2 ^ 62"
    using inv by (simp_all add: taker_inv_def)
  have bounds: "0 \<le> sint b" "sint b < 2 ^ 39" "0 \<le> sint a" "sint a < 2 ^ 39" "0 < t" "t < 2 ^ 62"
    using assms(5) On_Features by simp_all
  from lt_on_features_cases [OF c(1,2) [folded cfg] bounds(1-4), of f t] show ?thesis
  proof
    assume "\<exists>r. lt_on_features f t b a lt = Inr (Take r, record_order t lt) \<and> tk_active lt \<and>
      TickerFeatures_is_valid f \<and> can_send_order t lt \<and> taker_order_ok f b a lt r"
    then obtain r where r: "lt_on_features f t b a lt = Inr (Take r, record_order t lt)" "can_send_order t lt" by blast
    have "uint (tk_last_order_time_ns lt) < 2 ^ 62" "uint (tk_effective_interval_ns lt) < 2 ^ 53"
      using l i c(3) cfg by (auto simp: word_less_def interval_ok_def cooldown_ok_def)
    then have "uint (tk_last_order_time_ns lt + tk_effective_interval_ns lt) =
        uint (tk_last_order_time_ns lt) + uint (tk_effective_interval_ns lt)"
      using uint_add_lem [of "tk_last_order_time_ns lt" "tk_effective_interval_ns lt"] by simp
    then have "tk_last_order_time_ns lt = 0 \<or> uint (tk_last_order_time_ns lt) + uint (lt_min_order_interval_ns c) \<le> uint t"
      using r(2) i cfg by (auto simp: can_send_order_def word_le_def interval_ok_def split: if_splits)
    moreover have "taker_inv c (record_order t lt)"
      using record_order_interval [of lt t] i c(3) cfg bounds(6) by (simp add: taker_inv_def record_order_def)
    ultimately show ?thesis using r(1) bounds(5) On_Features by (simp add: record_order_def)
  qed (use inv On_Features in simp)
next
  case On_Fill
  then show ?thesis using inv lt_on_fill_interval [of lt] by (auto simp: taker_inv_def lt_on_fill_def Let_def)
next
  case Reset_Cooldown
  then show ?thesis using inv uint_nonnegative [of "lt_min_order_interval_ns c"]
    by (auto simp: taker_inv_def reset_cooldown_def interval_ok_def)
qed (use inv in \<open>auto simp: taker_inv_def lt_set_position_def lt_activate_def lt_deactivate_def interval_ok_def\<close>)

lemma take_times_Cons:
  "take_times (op # ops) (act # outs) = take_times [op] [act] @ take_times ops outs"
  by (cases op; cases act) simp_all

lemma taker_run_ok:
  assumes c: "1 \<le> lt_max_qty c" "lt_aggression_bps c \<le> 10000" "cooldown_ok c"
    and "taker_inv c lt" "list_all times_ok ops"
  shows "\<exists>outs lt'. run_outcome taker_step ops lt = Inr (outs, lt') \<and>
    sorted_wrt (\<lambda>t t'. uint t + uint (lt_min_order_interval_ns c) \<le> uint t') (take_times ops outs) \<and>
    (\<forall>t \<in> set (take_times ops outs). tk_last_order_time_ns lt = 0 \<or>
       uint (tk_last_order_time_ns lt) + uint (lt_min_order_interval_ns c) \<le> uint t)"
  using assms(4,5)
proof (induction ops arbitrary: lt)
  case (Cons op ops)
  let ?m = "uint (lt_min_order_interval_ns c)"
  obtain act lt1 where 1: "taker_step op lt = Inr (act, lt1)" "taker_inv c lt1"
    "tk_last_order_time_ns lt1 = tk_last_order_time_ns lt \<and> take_times [op] [act] = [] \<or>
     (\<exists>t. take_times [op] [act] = [t] \<and> tk_last_order_time_ns lt1 = t \<and> 0 < t \<and>
        (tk_last_order_time_ns lt = 0 \<or> uint (tk_last_order_time_ns lt) + ?m \<le> uint t))"
    using taker_step_ok [OF c Cons.prems(1), of op] Cons.prems(2) by auto
  obtain outs lt' where 2: "run_outcome taker_step ops lt1 = Inr (outs, lt')"
    "sorted_wrt (\<lambda>t t'. uint t + ?m \<le> uint t') (take_times ops outs)"
    "\<forall>t \<in> set (take_times ops outs). tk_last_order_time_ns lt1 = 0 \<or> uint (tk_last_order_time_ns lt1) + ?m \<le> uint t"
    using Cons.IH [OF 1(2)] Cons.prems(2) by auto
  have "run_outcome taker_step (op # ops) lt = Inr (act # outs, lt')" using 1(1) 2(1) by simp
  moreover have "sorted_wrt (\<lambda>t t'. uint t + ?m \<le> uint t') (take_times (op # ops) (act # outs)) \<and>
    (\<forall>t \<in> set (take_times (op # ops) (act # outs)). tk_last_order_time_ns lt = 0 \<or> uint (tk_last_order_time_ns lt) + ?m \<le> uint t)"
    using 1(3)
  proof
    assume "tk_last_order_time_ns lt1 = tk_last_order_time_ns lt \<and> take_times [op] [act] = []"
    then show ?thesis using 2(2,3) unfolding take_times_Cons [of op ops act outs] by simp
  next
    assume "\<exists>t. take_times [op] [act] = [t] \<and> tk_last_order_time_ns lt1 = t \<and> 0 < t \<and>
      (tk_last_order_time_ns lt = 0 \<or> uint (tk_last_order_time_ns lt) + ?m \<le> uint t)"
    then obtain t where t: "take_times [op] [act] = [t]" "tk_last_order_time_ns lt1 = t" "t \<noteq> 0"
      "tk_last_order_time_ns lt = 0 \<or> uint (tk_last_order_time_ns lt) + ?m \<le> uint t" by auto
    have a: "uint t + ?m \<le> uint t'" if "t' \<in> set (take_times ops outs)" for t' using 2(3) t(2,3) that by auto
    have "tk_last_order_time_ns lt = 0 \<or> uint (tk_last_order_time_ns lt) + ?m \<le> uint t'"
      if "t' \<in> set (take_times ops outs)" for t'
      using a [OF that] t(4) uint_nonnegative [of "lt_min_order_interval_ns c"] by linarith
    with a 2(2) t(4) show ?thesis unfolding take_times_Cons [of op ops act outs] t(1) by auto
  qed
  ultimately show ?case by blast
qed simp

section \<open>Properties\<close>




definition buy_features :: TickerFeatures where
  "buy_features = \<lparr>tf_ticker_id = 1, tf_fair_value = 1000, tf_spread = 4, tf_mid_price = 1000, tf_imbalance = Fin 0,
     tf_trade_signal = Fin (1 / 2)\<rparr>"


end
