(* ===== verification/Position.thy ===== *)
theory Position
  imports Types
begin

text \<open>
  Positions and profit and loss, \<open>trading/src/position.rs\<close>. All amounts are 64-bit words read as
  signed numbers; the arithmetic wraps, except for the division of the average price, whose
  panics are faults. The lemmas show that a fill never panics, and that as long as nothing
  overflows the books conserve value: what a fill pays is found again in realized profit, cost
  of the open position and the rounding of the average price.
\<close>

section \<open>The model\<close>

record Position =
  ps_ticker_id :: TickerId
  ps_position :: i64
  ps_open_buy_qty :: Qty
  ps_open_sell_qty :: Qty
  ps_volume_traded :: u64
  ps_realized_pnl :: i64
  ps_unrealized_pnl :: i64
  ps_avg_open_price :: Price
  ps_last_price :: Price

definition Position_new :: "TickerId \<Rightarrow> Position" where
  "Position_new ticker_id =
     \<lparr>ps_ticker_id = ticker_id, ps_position = 0, ps_open_buy_qty = 0, ps_open_sell_qty = 0,
      ps_volume_traded = 0, ps_realized_pnl = 0, ps_unrealized_pnl = 0, ps_avg_open_price = 0,
      ps_last_price = 0\<rparr>"

definition update_unrealized_pnl :: "Position \<Rightarrow> Position" where
  "update_unrealized_pnl p =
     (if ps_position p = 0 then p\<lparr>ps_unrealized_pnl := 0\<rparr>
      else if 0 <s ps_position p
      then p\<lparr>ps_unrealized_pnl := (ps_last_price p - ps_avg_open_price p) * ps_position p\<rparr>
      else p\<lparr>ps_unrealized_pnl := (ps_avg_open_price p - ps_last_price p) * (- ps_position p)\<rparr>)"

definition signed_qty :: "Side \<Rightarrow> Qty \<Rightarrow> i64" where
  "signed_qty side qty = (case side of Buy \<Rightarrow> ucast qty | Sell \<Rightarrow> - ucast qty)"

definition on_fill :: "Side \<Rightarrow> Qty \<Rightarrow> Price \<Rightarrow> Position \<Rightarrow> Position outcome" where
  "on_fill side qty price p =
     (let sq = signed_qty side qty;
          p = p\<lparr>ps_volume_traded := ps_volume_traded p + ucast qty, ps_last_price := price\<rparr>;
          old_position = ps_position p;
          new_position = old_position + sq;
          finish = (\<lambda>p. update_unrealized_pnl (p\<lparr>ps_position := new_position\<rparr>))
      in if old_position = 0 then Inr (finish (p\<lparr>ps_avg_open_price := price\<rparr>))
         else if (0 <s old_position \<and> sq <s 0) \<or> (old_position <s 0 \<and> 0 <s sq)
         then let closing_qty = smin (sabs old_position) (sabs sq);
                  pnl_per_unit = (if 0 <s old_position then price - ps_avg_open_price p
                                  else ps_avg_open_price p - price);
                  p = p\<lparr>ps_realized_pnl := ps_realized_pnl p + pnl_per_unit * closing_qty\<rparr>
              in if new_position \<noteq> 0 \<and> (0 <s new_position) \<noteq> (0 <s old_position)
                 then Inr (finish (p\<lparr>ps_avg_open_price := price\<rparr>))
                 else Inr (finish p)
         else let total_cost = ps_avg_open_price p * sabs old_position + price * sabs sq
              in case i64_div total_cost (sabs new_position) of
                   Inl f \<Rightarrow> Inl f
                 | Inr avg \<Rightarrow> Inr (finish (p\<lparr>ps_avg_open_price := avg\<rparr>)))"

definition add_open_order :: "Side \<Rightarrow> Qty \<Rightarrow> Position \<Rightarrow> Position" where
  "add_open_order side qty p =
     (case side of
        Buy \<Rightarrow> p\<lparr>ps_open_buy_qty := ps_open_buy_qty p + qty\<rparr>
      | Sell \<Rightarrow> p\<lparr>ps_open_sell_qty := ps_open_sell_qty p + qty\<rparr>)"

definition remove_open_order :: "Side \<Rightarrow> Qty \<Rightarrow> Position \<Rightarrow> Position" where
  "remove_open_order side qty p =
     (case side of
        Buy \<Rightarrow> p\<lparr>ps_open_buy_qty := saturating_sub (ps_open_buy_qty p) qty\<rparr>
      | Sell \<Rightarrow> p\<lparr>ps_open_sell_qty := saturating_sub (ps_open_sell_qty p) qty\<rparr>)"

definition Position_update_market_price :: "Price \<Rightarrow> Position \<Rightarrow> Position" where
  "Position_update_market_price price p = update_unrealized_pnl (p\<lparr>ps_last_price := price\<rparr>)"

definition net_position :: "Position \<Rightarrow> i64" where
  "net_position p = ps_position p"

definition Position_total_pnl :: "Position \<Rightarrow> i64" where
  "Position_total_pnl p = ps_realized_pnl p + ps_unrealized_pnl p"

definition max_long_exposure :: "Position \<Rightarrow> i64" where
  "max_long_exposure p = ps_position p + ucast (ps_open_buy_qty p)"

definition max_short_exposure :: "Position \<Rightarrow> i64" where
  "max_short_exposure p = ps_position p - ucast (ps_open_sell_qty p)"

record PositionKeeper =
  pk_positions :: "(TickerId, Position) fmap"
  pk_total_pnl :: i64

definition PositionKeeper_new :: PositionKeeper where
  "PositionKeeper_new = \<lparr>pk_positions = fmempty, pk_total_pnl = 0\<rparr>"

text \<open>The wrapping sum over the map's values does not depend on their order.\<close>

definition PositionKeeper_default :: PositionKeeper where
  "PositionKeeper_default = PositionKeeper_new"

definition recalculate_total_pnl :: "PositionKeeper \<Rightarrow> PositionKeeper" where
  "recalculate_total_pnl k =
     k\<lparr>pk_total_pnl := (\<Sum>t \<in> fmdom' (pk_positions k). Position_total_pnl (the (fmlookup (pk_positions k) t)))\<rparr>"

definition get_position :: "PositionKeeper \<Rightarrow> TickerId \<Rightarrow> Position option" where
  "get_position k ticker_id = fmlookup (pk_positions k) ticker_id"

text \<open>\<open>get_position_mut\<close> hands out a reference, creating the entry: the model applies the
  caller's update to it.\<close>

definition get_position_mut :: "TickerId \<Rightarrow> (Position \<Rightarrow> Position) \<Rightarrow> PositionKeeper \<Rightarrow> PositionKeeper" where
  "get_position_mut ticker_id f k =
     k\<lparr>pk_positions := fmupd ticker_id (f (get_or (pk_positions k) ticker_id (Position_new ticker_id)))
         (pk_positions k)\<rparr>"

definition PositionKeeper_on_fill :: "TickerId \<Rightarrow> Side \<Rightarrow> Qty \<Rightarrow> Price \<Rightarrow> PositionKeeper \<Rightarrow> PositionKeeper outcome" where
  "PositionKeeper_on_fill ticker_id side qty price k =
     (case on_fill side qty price (get_or (pk_positions k) ticker_id (Position_new ticker_id)) of
        Inl f \<Rightarrow> Inl f
      | Inr p \<Rightarrow> Inr (recalculate_total_pnl (get_position_mut ticker_id (\<lambda>_. p) k)))"

definition PositionKeeper_update_market_price :: "TickerId \<Rightarrow> Price \<Rightarrow> PositionKeeper \<Rightarrow> PositionKeeper" where
  "PositionKeeper_update_market_price ticker_id price k =
     (case fmlookup (pk_positions k) ticker_id of
        Some p \<Rightarrow> recalculate_total_pnl
          (k\<lparr>pk_positions := fmupd ticker_id (Position_update_market_price price p) (pk_positions k)\<rparr>)
      | None \<Rightarrow> k)"

definition PositionKeeper_total_pnl :: "PositionKeeper \<Rightarrow> i64" where
  "PositionKeeper_total_pnl k = pk_total_pnl k"

definition all_positions :: "PositionKeeper \<Rightarrow> Position fset" where
  "all_positions k = fmran (pk_positions k)"

section \<open>Fills\<close>

lemma fits_i64_absI: "\<bar>z\<bar> < 2 ^ 63 \<Longrightarrow> fits_i64 z"
  by (auto simp: fits_i64_def)

lemma abs_mult_le: "\<bar>a\<bar> \<le> A \<Longrightarrow> \<bar>b\<bar> \<le> B \<Longrightarrow> \<bar>a * b\<bar> \<le> A * (B :: int)"
  unfolding abs_mult by (rule mult_mono) auto

lemma sint_signed_qty: "sint (signed_qty sd q) = (case sd of Buy \<Rightarrow> uint q | Sell \<Rightarrow> - uint q)"
proof (cases sd)
  case Sell
  have "fits_i64 (- uint q)" using uint_u32_bounds(1) [of q] by (intro fits_i64_absI) simp
  then show ?thesis using Sell by (simp add: signed_qty_def sint_uminus_i64)
qed (simp add: signed_qty_def)

lemma abs_signed_qty: "\<bar>sint (signed_qty sd q)\<bar> < 2 ^ 32"
  using uint_u32_bounds [of q] by (cases sd) (simp_all add: sint_signed_qty)

text \<open>Truncating division by a positive number.\<close>

lemma trunc_div_pos:
  assumes "0 < m"
  shows "\<bar>t - (t sdiv m) * m\<bar> < (m :: int)" "\<bar>t sdiv m\<bar> * m \<le> \<bar>t\<bar>"
proof -
  have e: "t sdiv m = sgn t * (\<bar>t\<bar> div m)" using assms by (simp add: signed_divide_int_def)
  have "t - (t sdiv m) * m = sgn t * (\<bar>t\<bar> mod m)"
    unfolding e by (simp add: minus_div_mult_eq_mod [symmetric] algebra_simps abs_mult_sgn)
  then show "\<bar>t - (t sdiv m) * m\<bar> < m" using assms by (simp add: abs_mult abs_sgn_eq)
  have "\<bar>t sdiv m\<bar> \<le> \<bar>t\<bar> div m" unfolding e using assms by (simp add: abs_mult abs_sgn_eq pos_imp_zdiv_nonneg_iff)
  then have "\<bar>t sdiv m\<bar> * m \<le> (\<bar>t\<bar> div m) * m" using assms by (simp add: mult_right_mono)
  also have "\<dots> \<le> \<bar>t\<bar>"
    using div_mult_mod_eq [of "\<bar>t\<bar>" m] pos_mod_sign [OF assms, of "\<bar>t\<bar>"] by linarith
  finally show "\<bar>t sdiv m\<bar> * m \<le> \<bar>t\<bar>" .
qed

lemma sabs_neq_m1: "sabs w \<noteq> (- 1 :: i64)"
  by (auto simp: sabs_def word_sless_alt)

lemma sabs_eq_0_iff: "sabs w = 0 \<longleftrightarrow> w = (0 :: i64)"
  by (auto simp: sabs_def)

lemma adding_divisor:
  assumes "old \<noteq> 0" "\<not> (0 <s old \<and> signed_qty sd q <s 0)" "\<not> (old <s 0 \<and> 0 <s signed_qty sd q)"
  shows "old + signed_qty sd q \<noteq> 0"
proof
  assume "old + signed_qty sd q = 0"
  then have e: "signed_qty sd q = - old" by (simp add: add_eq_0_iff)
  note b = abs_signed_qty [of sd q]
  have nz: "sint old \<noteq> 0" using assms(1) by (metis signed_word_eqI signed_0)
  have "old = - signed_qty sd q" using e by simp
  moreover have "fits_i64 (- sint (signed_qty sd q))" using b by (intro fits_i64_absI) simp
  ultimately have "sint old = - sint (signed_qty sd q)" by (simp only: sint_uminus_i64)
  with nz assms(2,3) show False by (auto simp: word_sless_alt)
qed

lemma on_fill_total: "\<exists>p'. on_fill sd q x p = Inr p'"
  using adding_divisor [of "ps_position p" sd q]
  by (auto simp: on_fill_def Let_def i64_div_def sabs_neq_m1 sabs_eq_0_iff)


text \<open>What the books say was paid in total so far: realized profit minus the cost of the open
  position.\<close>

definition cash :: "Position \<Rightarrow> int" where
  "cash p = sint (ps_realized_pnl p) - sint (ps_avg_open_price p) * sint (ps_position p)"

text \<open>Amounts far enough from the 64-bit bounds that no step of a fill overflows.\<close>

definition in_range :: "Price \<Rightarrow> Position \<Rightarrow> bool" where
  "in_range price p \<longleftrightarrow> \<bar>sint (ps_position p)\<bar> \<le> 2 ^ 30 \<and> \<bar>sint (ps_avg_open_price p)\<bar> \<le> 2 ^ 29 \<and>
     \<bar>sint price\<bar> \<le> 2 ^ 29 \<and> \<bar>sint (ps_realized_pnl p)\<bar> \<le> 2 ^ 60"

lemma update_unrealized_pnl_simps [simp]:
  "ps_position (update_unrealized_pnl p) = ps_position p"
  "ps_avg_open_price (update_unrealized_pnl p) = ps_avg_open_price p"
  "ps_realized_pnl (update_unrealized_pnl p) = ps_realized_pnl p"
  "ps_last_price (update_unrealized_pnl p) = ps_last_price p"
  "ps_ticker_id (update_unrealized_pnl p) = ps_ticker_id p"
  "ps_volume_traded (update_unrealized_pnl p) = ps_volume_traded p"
  "ps_open_buy_qty (update_unrealized_pnl p) = ps_open_buy_qty p"
  "ps_open_sell_qty (update_unrealized_pnl p) = ps_open_sell_qty p"
  by (simp_all add: update_unrealized_pnl_def)

lemma sint_eq_0_iff_i64: "sint (w :: i64) = 0 \<longleftrightarrow> w = 0"
  by (metis signed_word_eqI signed_0)

lemma sint_unrealized:
  assumes "\<bar>sint (ps_position p)\<bar> \<le> 5 * 2 ^ 30" "\<bar>sint (ps_avg_open_price p)\<bar> \<le> 2 ^ 29"
    "\<bar>sint (ps_last_price p)\<bar> \<le> 2 ^ 29"
  shows "sint (ps_unrealized_pnl (update_unrealized_pnl p)) =
      (sint (ps_last_price p) - sint (ps_avg_open_price p)) * sint (ps_position p)"
    and "\<bar>sint (ps_unrealized_pnl (update_unrealized_pnl p))\<bar> \<le> 5 * 2 ^ 60"
proof -
  let ?X = "sint (ps_last_price p)" and ?A = "sint (ps_avg_open_price p)" and ?N = "sint (ps_position p)"
  have d: "\<bar>?X - ?A\<bar> \<le> 2 ^ 30" using assms by simp
  have m: "\<bar>(?X - ?A) * ?N\<bar> \<le> 2 ^ 30 * (5 * 2 ^ 30)" by (rule abs_mult_le [OF d assms(1)])
  have f: "fits_i64 (?X - ?A)" "fits_i64 (?A - ?X)" "fits_i64 (- ?N)"
    using d assms by (auto intro!: fits_i64_absI)
  have fm: "fits_i64 ((?X - ?A) * ?N)" using m by (intro fits_i64_absI) simp
  then have fm': "fits_i64 ((?A - ?X) * (- ?N))" by (simp add: algebra_simps)
  show e: "sint (ps_unrealized_pnl (update_unrealized_pnl p)) = (?X - ?A) * ?N"
  proof -
    consider "ps_position p = 0" | "0 <s ps_position p" | "ps_position p <s 0"
      by (metis word_sless_alt linorder_neqE signed_0 sint_eq_0_iff_i64)
    then show ?thesis
    proof cases
      case 3
      then have "\<not> 0 <s ps_position p" "ps_position p \<noteq> 0" by (auto simp: word_sless_alt)
      then have "sint (ps_unrealized_pnl (update_unrealized_pnl p)) = (?A - ?X) * (- ?N)"
        using fm' f by (simp add: update_unrealized_pnl_def sint_mult_i64 sint_diff_i64 sint_uminus_i64
            del: mult_minus_right)
      also have "\<dots> = (?X - ?A) * ?N" by (simp add: algebra_simps)
      finally show ?thesis .
    qed (use fm f in \<open>auto simp: update_unrealized_pnl_def sint_mult_i64 sint_diff_i64\<close>)
  qed
  show "\<bar>sint (ps_unrealized_pnl (update_unrealized_pnl p))\<bar> \<le> 5 * 2 ^ 60" using m unfolding e by simp
qed

text \<open>Closing the books of a fill: the position and price are set, and the total follows.\<close>

lemma total_after_fill:
  assumes "p' = update_unrealized_pnl p" "\<bar>sint (ps_position p)\<bar> \<le> 5 * 2 ^ 30"
    "\<bar>sint (ps_avg_open_price p)\<bar> \<le> 2 ^ 29" "\<bar>sint (ps_last_price p)\<bar> \<le> 2 ^ 29"
    "\<bar>sint (ps_realized_pnl p)\<bar> \<le> 2 ^ 61"
  shows "sint (Position_total_pnl p') = cash p' + sint (ps_position p') * sint (ps_last_price p')"
proof -
  note u = sint_unrealized [OF assms(2-4)]
  have "fits_i64 (sint (ps_realized_pnl p) + sint (ps_unrealized_pnl p'))"
    using u(2) assms(1,5) by (intro fits_i64_absI) simp
  then have "sint (Position_total_pnl p') = sint (ps_realized_pnl p) + sint (ps_unrealized_pnl p')"
    using assms(1) by (simp add: Position_total_pnl_def sint_add_i64)
  also have "\<dots> = sint (ps_realized_pnl p) +
      (sint (ps_last_price p) - sint (ps_avg_open_price p)) * sint (ps_position p)"
    using u(1) assms(1) by simp
  also have "\<dots> = cash p' + sint (ps_position p') * sint (ps_last_price p')"
    using assms(1) by (simp add: cash_def algebra_simps)
  finally show ?thesis .
qed


lemma in_rangeD:
  assumes "in_range x p"
  shows "\<bar>sint (ps_position p)\<bar> \<le> 2 ^ 30" "\<bar>sint (ps_avg_open_price p)\<bar> \<le> 2 ^ 29"
    "\<bar>sint x\<bar> \<le> 2 ^ 29" "\<bar>sint (ps_realized_pnl p)\<bar> \<le> 2 ^ 60"
  using assms by (simp_all add: in_range_def)

lemma fill_position:
  assumes "in_range x p"
  shows "sint (ps_position p + signed_qty sd q) = sint (ps_position p) + sint (signed_qty sd q)"
    "\<bar>sint (ps_position p) + sint (signed_qty sd q)\<bar> \<le> 5 * 2 ^ 30"
proof -
  show b: "\<bar>sint (ps_position p) + sint (signed_qty sd q)\<bar> \<le> 5 * 2 ^ 30"
    using in_rangeD(1) [OF assms] abs_signed_qty [of sd q] by simp
  then have "fits_i64 (sint (ps_position p) + sint (signed_qty sd q))" by (intro fits_i64_absI) simp
  then show "sint (ps_position p + signed_qty sd q) = sint (ps_position p) + sint (signed_qty sd q)"
    by (rule sint_add_i64)
qed

lemma on_fill_open:
  assumes r: "in_range x p" and z: "ps_position p = 0"
  shows "\<exists>p'. on_fill sd q x p = Inr p' \<and> sint (ps_position p') = sint (signed_qty sd q) \<and>
    cash p' = cash p - sint (signed_qty sd q) * sint x \<and>
    sint (Position_total_pnl p') = cash p' + sint (ps_position p') * sint x"
proof -
  let ?p = "p\<lparr>ps_volume_traded := ps_volume_traded p + ucast q, ps_last_price := x,
    ps_avg_open_price := x, ps_position := ps_position p + signed_qty sd q\<rparr>"
  have e: "on_fill sd q x p = Inr (update_unrealized_pnl ?p)" using z by (simp add: on_fill_def Let_def)
  have "sint (Position_total_pnl (update_unrealized_pnl ?p)) =
      cash (update_unrealized_pnl ?p) + sint (ps_position (update_unrealized_pnl ?p)) *
      sint (ps_last_price (update_unrealized_pnl ?p))"
    using in_rangeD [OF r] fill_position [OF r, of sd q] by (intro total_after_fill [OF refl]) auto
  with e z show ?thesis by (simp add: cash_def)
qed

lemma on_fill_close:
  assumes r: "in_range x p"
    and cl: "0 <s ps_position p \<and> signed_qty sd q <s 0 \<or> ps_position p <s 0 \<and> 0 <s signed_qty sd q"
  shows "\<exists>p'. on_fill sd q x p = Inr p' \<and> sint (ps_position p') = sint (ps_position p) + sint (signed_qty sd q) \<and>
    cash p' = cash p - sint (signed_qty sd q) * sint x \<and>
    sint (Position_total_pnl p') = cash p' + sint (ps_position p') * sint x"
proof -
  let ?P = "sint (ps_position p)" and ?S = "sint (signed_qty sd q)" and ?A = "sint (ps_avg_open_price p)"
    and ?X = "sint x" and ?R = "sint (ps_realized_pnl p)"
  note D = in_rangeD [OF r] and N = fill_position [OF r, of sd q]
  define c where "c = smin (sabs (ps_position p)) (sabs (signed_qty sd q))"
  have "fits_i64 (- ?P)" "fits_i64 (- ?S)" using D(1) abs_signed_qty [of sd q] by (auto intro!: fits_i64_absI)
  then have c: "sint c = min \<bar>?P\<bar> \<bar>?S\<bar>" by (simp add: c_def sint_sabs_i64)
  define u where "u = (if 0 <s ps_position p then x - ps_avg_open_price p else ps_avg_open_price p - x)"
  have "fits_i64 (?X - ?A)" "fits_i64 (?A - ?X)" using D by (auto intro!: fits_i64_absI)
  then have u: "sint u = (if 0 < ?P then ?X - ?A else ?A - ?X)"
    by (simp add: u_def sint_diff_i64 word_sless_alt)
  have ub: "\<bar>sint u\<bar> \<le> 2 ^ 30" and cb: "\<bar>sint c\<bar> \<le> 2 ^ 30" using D unfolding u c by auto
  have uc: "\<bar>sint u * sint c\<bar> \<le> 2 ^ 30 * 2 ^ 30" by (rule abs_mult_le [OF ub cb])
  have "fits_i64 (sint u * sint c)" "fits_i64 (?R + sint u * sint c)"
    using uc D(4) by (auto intro!: fits_i64_absI)
  then have R: "sint (ps_realized_pnl p + u * c) = ?R + sint u * sint c"
    by (simp add: sint_add_i64 sint_mult_i64)
  define avg where "avg = (if ps_position p + signed_qty sd q \<noteq> 0 \<and>
      (0 <s ps_position p + signed_qty sd q) \<noteq> (0 <s ps_position p) then x else ps_avg_open_price p)"
  let ?p = "p\<lparr>ps_volume_traded := ps_volume_traded p + ucast q, ps_last_price := x,
    ps_realized_pnl := ps_realized_pnl p + u * c, ps_avg_open_price := avg,
    ps_position := ps_position p + signed_qty sd q\<rparr>"
  have "ps_position p \<noteq> 0" using cl by (auto simp: word_sless_alt)
  with cl have e: "on_fill sd q x p = Inr (update_unrealized_pnl ?p)"
    by (simp add: on_fill_def Let_def avg_def u_def c_def)
  have ab: "\<bar>sint avg\<bar> \<le> 2 ^ 29" using D by (simp add: avg_def)
  have "sint (Position_total_pnl (update_unrealized_pnl ?p)) =
      cash (update_unrealized_pnl ?p) + sint (ps_position (update_unrealized_pnl ?p)) *
      sint (ps_last_price (update_unrealized_pnl ?p))"
    using D N ab uc by (intro total_after_fill [OF refl]) (auto simp: R)
  moreover have "cash (update_unrealized_pnl ?p) = cash p - ?S * ?X"
  proof -
    have flip: "avg = x \<and> sint c = \<bar>?P\<bar> \<or> avg = ps_avg_open_price p \<and> sint c = \<bar>?S\<bar>"
      using cl N(1) sint_eq_0_iff_i64 [of "ps_position p + signed_qty sd q"] unfolding c
      by (auto simp: avg_def word_sless_alt)
    have sg: "?P < 0 \<and> 0 < ?S \<or> 0 < ?P \<and> ?S < 0" using cl by (auto simp: word_sless_alt)
    have "cash (update_unrealized_pnl ?p) = ?R + sint u * sint c - sint avg * (?P + ?S)"
      by (simp add: cash_def R N(1))
    also have "\<dots> = cash p - ?S * ?X"
      using flip sg by (auto simp: cash_def u abs_if algebra_simps split: if_splits)
    finally show ?thesis .
  qed
  ultimately show ?thesis using e N(1) by simp
qed


lemma on_fill_add:
  assumes r: "in_range x p" and nz: "ps_position p \<noteq> 0"
    and op: "\<not> (0 <s ps_position p \<and> signed_qty sd q <s 0)" "\<not> (ps_position p <s 0 \<and> 0 <s signed_qty sd q)"
  shows "\<exists>p'. on_fill sd q x p = Inr p' \<and> sint (ps_position p') = sint (ps_position p) + sint (signed_qty sd q) \<and>
    \<bar>cash p' - (cash p - sint (signed_qty sd q) * sint x)\<bar> < \<bar>sint (ps_position p')\<bar> \<and>
    sint (Position_total_pnl p') = cash p' + sint (ps_position p') * sint x"
proof -
  let ?P = "sint (ps_position p)" and ?S = "sint (signed_qty sd q)" and ?A = "sint (ps_avg_open_price p)"
    and ?X = "sint x" and ?R = "sint (ps_realized_pnl p)"
  note D = in_rangeD [OF r] and N = fill_position [OF r, of sd q]
  have same: "0 < ?P \<and> 0 \<le> ?S \<or> ?P < 0 \<and> ?S \<le> 0"
    using op nz sint_eq_0_iff_i64 [of "ps_position p"] by (auto simp: word_sless_alt)
  have f: "fits_i64 (- ?P)" "fits_i64 (- ?S)" "fits_i64 (- (?P + ?S))"
    using N(2) D(1) abs_signed_qty [of sd q] by (auto intro!: fits_i64_absI)
  then have ab: "sint (sabs (ps_position p)) = \<bar>?P\<bar>" "sint (sabs (signed_qty sd q)) = \<bar>?S\<bar>"
    "sint (sabs (ps_position p + signed_qty sd q)) = \<bar>?P + ?S\<bar>"
    using N(1) by (simp_all add: sint_sabs_i64)
  define T where "T = ?A * \<bar>?P\<bar> + ?X * \<bar>?S\<bar>"
  have "\<bar>?A * \<bar>?P\<bar>\<bar> \<le> 2 ^ 29 * \<bar>?P\<bar>" "\<bar>?X * \<bar>?S\<bar>\<bar> \<le> 2 ^ 29 * \<bar>?S\<bar>"
    by (rule abs_mult_le; use D in simp)+
  moreover have "\<bar>?P + ?S\<bar> = \<bar>?P\<bar> + \<bar>?S\<bar>" using same by auto
  moreover have "\<bar>T\<bar> \<le> \<bar>?A * \<bar>?P\<bar>\<bar> + \<bar>?X * \<bar>?S\<bar>\<bar>" unfolding T_def by (rule abs_triangle_ineq)
  ultimately have Tb: "\<bar>T\<bar> \<le> 2 ^ 29 * \<bar>?P + ?S\<bar>" and "\<bar>?A * \<bar>?P\<bar>\<bar> \<le> 2 ^ 59" "\<bar>?X * \<bar>?S\<bar>\<bar> \<le> 2 ^ 61"
    using D(1) abs_signed_qty [of sd q] by simp_all
  then have "fits_i64 (?A * \<bar>?P\<bar>)" "fits_i64 (?X * \<bar>?S\<bar>)" by (auto intro!: fits_i64_absI)
  moreover have "fits_i64 T" using Tb N(2) by (intro fits_i64_absI) simp
  ultimately have tc: "sint (ps_avg_open_price p * sabs (ps_position p) + x * sabs (signed_qty sd q)) = T"
    unfolding T_def by (simp add: sint_add_i64 sint_mult_i64 ab)
  define M where "M = \<bar>?P + ?S\<bar>"
  have M: "0 < M" using same by (auto simp: M_def)
  define avg where "avg = trunc_div (ps_avg_open_price p * sabs (ps_position p) + x * sabs (signed_qty sd q))
    (sabs (ps_position p + signed_qty sd q))"
  note q = trunc_div_pos [OF M, of T]
  have "\<bar>T sdiv M\<bar> * M \<le> 2 ^ 29 * M" using q(2) Tb by (simp add: M_def)
  then have qb: "\<bar>T sdiv M\<bar> \<le> 2 ^ 29" using M by simp
  then have "fits_i64 (T sdiv M)" by (intro fits_i64_absI) simp
  then have av: "sint avg = T sdiv M" by (simp add: avg_def trunc_div_def tc ab sint_of_int_i64 M_def)
  let ?p = "p\<lparr>ps_volume_traded := ps_volume_traded p + ucast q, ps_last_price := x,
    ps_avg_open_price := avg, ps_position := ps_position p + signed_qty sd q\<rparr>"
  have e: "on_fill sd q x p = Inr (update_unrealized_pnl ?p)"
    using nz op adding_divisor [OF nz op]
    by (auto simp: on_fill_def Let_def avg_def i64_div_def sabs_neq_m1 sabs_eq_0_iff)
  have "sint (Position_total_pnl (update_unrealized_pnl ?p)) =
      cash (update_unrealized_pnl ?p) + sint (ps_position (update_unrealized_pnl ?p)) *
      sint (ps_last_price (update_unrealized_pnl ?p))"
    using D N qb av by (intro total_after_fill [OF refl]) auto
  moreover have "\<bar>cash (update_unrealized_pnl ?p) - (cash p - ?S * ?X)\<bar> = \<bar>T - (T sdiv M) * M\<bar>"
    using same by (auto simp: cash_def N(1) av M_def T_def abs_if algebra_simps)
  ultimately show ?thesis using e N(1) q(1) M_def by simp
qed

section \<open>The keeper\<close>

definition keeper_ok :: "PositionKeeper \<Rightarrow> bool" where
  "keeper_ok k \<longleftrightarrow>
     pk_total_pnl k = (\<Sum>t \<in> fmdom' (pk_positions k). Position_total_pnl (the (fmlookup (pk_positions k) t)))"

lemma keeper_ok_recalculate [simp]: "keeper_ok (recalculate_total_pnl k)"
  by (simp add: keeper_ok_def recalculate_total_pnl_def)

text \<open>An update through \<open>get_position_mut\<close> that keeps the profit of the position keeps the cached
  total right, also when it creates the position.\<close>

lemma keeper_ok_get_position_mut:
  assumes ok: "keeper_ok k" and f: "\<And>p. Position_total_pnl (f p) = Position_total_pnl p"
  shows "keeper_ok (get_position_mut t f k)"
proof -
  let ?m = "pk_positions k" and ?p = "get_or (pk_positions k) t (Position_new t)"
  let ?pnl = "\<lambda>m s. Position_total_pnl (the (fmlookup m s))"
  have rest: "(\<Sum>s \<in> fmdom' ?m - {t}. ?pnl (fmupd t (f ?p) ?m) s) = (\<Sum>s \<in> fmdom' ?m - {t}. ?pnl ?m s)"
    by (intro sum.cong) auto
  have fin: "finite (fmdom' ?m)" by simp
  have "(\<Sum>s \<in> insert t (fmdom' ?m). ?pnl (fmupd t (f ?p) ?m) s) =
      Position_total_pnl ?p + (\<Sum>s \<in> fmdom' ?m - {t}. ?pnl ?m s)"
    unfolding sum.insert_remove [OF fin] rest by (simp add: f)
  also have "\<dots> = (\<Sum>s \<in> fmdom' ?m. ?pnl ?m s)"
  proof (cases "fmlookup ?m t")
    case None
    then have "t \<notin> fmdom' ?m" by (simp add: fmdom'_notI)
    then show ?thesis using None by (simp add: Position_new_def Position_total_pnl_def)
  next
    case (Some p)
    then have "t \<in> fmdom' ?m" by (rule fmdom'I)
    with Some show ?thesis using sum.remove [OF fin, of t "?pnl ?m"] by simp
  qed
  finally show ?thesis using ok by (simp add: keeper_ok_def get_position_mut_def)
qed

lemma total_pnl_open_orders [simp]:
  "Position_total_pnl (add_open_order sd q p) = Position_total_pnl p"
  "Position_total_pnl (remove_open_order sd q p) = Position_total_pnl p"
  by (simp_all add: Position_total_pnl_def add_open_order_def remove_open_order_def split: Side.split)

datatype keeper_op =
    KFill TickerId Side Qty Price
  | KPrice TickerId Price
  | KOpen TickerId Side Qty
  | KClose TickerId Side Qty

primrec keeper_step :: "keeper_op \<Rightarrow> PositionKeeper \<Rightarrow> (unit \<times> PositionKeeper) outcome" where
  "keeper_step (KFill t sd q x) k = map_sum id (Pair ()) (PositionKeeper_on_fill t sd q x k)"
| "keeper_step (KPrice t x) k = Inr ((), PositionKeeper_update_market_price t x k)"
| "keeper_step (KOpen t sd q) k = Inr ((), get_position_mut t (add_open_order sd q) k)"
| "keeper_step (KClose t sd q) k = Inr ((), get_position_mut t (remove_open_order sd q) k)"

lemma keeper_step_ok:
  assumes "keeper_ok k"
  shows "\<exists>k'. keeper_step op k = Inr ((), k') \<and> keeper_ok k'"
proof (cases op)
  case (KFill t sd q x)
  obtain p' where "on_fill sd q x (get_or (pk_positions k) t (Position_new t)) = Inr p'"
    using on_fill_total by blast
  then show ?thesis by (simp add: KFill PositionKeeper_on_fill_def)
next
  case (KPrice t x)
  then show ?thesis using assms by (simp add: PositionKeeper_update_market_price_def split: option.split)
qed (use assms in \<open>simp_all add: keeper_ok_get_position_mut\<close>)

lemma keeper_run_ok:
  assumes "keeper_ok k"
  shows "\<exists>us k'. run_outcome keeper_step ops k = Inr (us, k') \<and> keeper_ok k'"
  using assms
proof (induction ops arbitrary: k)
  case (Cons op ops)
  obtain k1 where 1: "keeper_step op k = Inr ((), k1)" "keeper_ok k1" using keeper_step_ok [OF Cons.prems] by blast
  from Cons.IH [OF 1(2)] 1(1) show ?case by auto
qed simp

text \<open>Positions are stored under their own ticker, so a risk check reads the limits of the right
  one.\<close>

definition keyed :: "PositionKeeper \<Rightarrow> bool" where
  "keyed k \<longleftrightarrow> fmpred (\<lambda>t p. ps_ticker_id p = t) (pk_positions k)"

lemma keyed_get_or: "keyed k \<Longrightarrow> ps_ticker_id (get_or (pk_positions k) t (Position_new t)) = t"
  by (auto simp: keyed_def get_or_def fmpred_iff Position_new_def split: option.splits)

lemma keyed_recalculate [simp]: "keyed (recalculate_total_pnl k) \<longleftrightarrow> keyed k"
  by (simp add: keyed_def recalculate_total_pnl_def)

lemma keyed_get_position_mut:
  assumes "keyed k" "\<And>p. ps_ticker_id p = t \<Longrightarrow> ps_ticker_id (f p) = t"
  shows "keyed (get_position_mut t f k)"
  using assms(1) assms(2) [OF keyed_get_or [OF assms(1)]] by (auto simp: keyed_def get_position_mut_def fmpred_iff)

lemma keyed_open_orders:
  "keyed k \<Longrightarrow> keyed (get_position_mut t (add_open_order side q) k)"
  "keyed k \<Longrightarrow> keyed (get_position_mut t (remove_open_order side q) k)"
  by (rule keyed_get_position_mut; simp add: add_open_order_def remove_open_order_def split: Side.splits)+

lemma ps_ticker_id_on_fill: "on_fill sd q x p = Inr p' \<Longrightarrow> ps_ticker_id p' = ps_ticker_id p"
  by (auto simp: on_fill_def Let_def update_unrealized_pnl_def split: if_splits sum.splits)

lemma keyed_fill: "keyed k \<Longrightarrow> PositionKeeper_on_fill t sd q x k = Inr k' \<Longrightarrow> keyed k'"
  using keyed_get_or [of k t]
  by (auto simp: PositionKeeper_on_fill_def keyed_def get_position_mut_def recalculate_total_pnl_def fmpred_iff dest!: ps_ticker_id_on_fill
      split: sum.splits if_splits)

lemma keyed_market_price: "keyed k \<Longrightarrow> keyed (PositionKeeper_update_market_price t x k)"
  by (auto simp: PositionKeeper_update_market_price_def keyed_def fmpred_iff Position_update_market_price_def
      update_unrealized_pnl_def recalculate_total_pnl_def split: option.splits)

section \<open>Properties\<close>

text \<open>A fill never panics, whatever the state and the arguments: the divisor of the average
  price is never zero and the division never overflows. It moves the position by the signed
  quantity, the volume by the quantity, and leaves the pending quantities alone.\<close>

lemma fill_never_panics:
  "\<exists>p'. on_fill sd q x p = Inr p' \<and> ps_position p' = ps_position p + signed_qty sd q \<and>
     ps_volume_traded p' = ps_volume_traded p + ucast q \<and> ps_last_price p' = x \<and>
     ps_open_buy_qty p' = ps_open_buy_qty p \<and> ps_open_sell_qty p' = ps_open_sell_qty p"
proof -
  obtain p' where e: "on_fill sd q x p = Inr p'" using on_fill_total by blast
  then show ?thesis by (auto simp: on_fill_def Let_def split: if_splits sum.splits)
qed

text \<open>C18: the books conserve value. For amounts within the stated bounds (no 64-bit overflow),
  a fill changes \<open>cash\<close>, realized profit minus cost of the open position, by exactly the amount
  paid, except when it adds to an open position: then the truncation of the average price loses
  or gains less than one cent per unit held. Total profit is always \<open>cash\<close> plus the position at
  the fill price, so profit and loss are exact up to that rounding.\<close>

theorem fill_conserves_value:
  assumes "in_range x p"
  shows "\<exists>p'. on_fill sd q x p = Inr p' \<and>
    sint (ps_position p') = sint (ps_position p) + sint (signed_qty sd q) \<and>
    \<bar>cash p' - (cash p - sint (signed_qty sd q) * sint x)\<bar> \<le>
      (if ps_position p = 0 \<or> 0 <s ps_position p \<and> signed_qty sd q <s 0 \<or>
          ps_position p <s 0 \<and> 0 <s signed_qty sd q
       then 0 else \<bar>sint (ps_position p')\<bar> - 1) \<and>
    sint (Position_total_pnl p') = cash p' + sint (ps_position p') * sint x"
proof -
  consider "ps_position p = 0"
    | "0 <s ps_position p \<and> signed_qty sd q <s 0 \<or> ps_position p <s 0 \<and> 0 <s signed_qty sd q"
    | "ps_position p \<noteq> 0" "\<not> (0 <s ps_position p \<and> signed_qty sd q <s 0)"
      "\<not> (ps_position p <s 0 \<and> 0 <s signed_qty sd q)" by blast
  then show ?thesis
  proof cases
    case 1
    with on_fill_open [OF assms 1, of sd q] show ?thesis by auto
  next
    case 2
    with on_fill_close [OF assms 2] show ?thesis by auto
  next
    case 3
    with on_fill_add [OF assms 3] show ?thesis by force
  qed
qed

theorem fill_conserves_value_witness:
  "\<exists>p'. on_fill Buy 10 100 (Position_new 1) = Inr p' \<and> sint (ps_position p') = 10 \<and> cash p' = - 1000 \<and>
     sint (Position_total_pnl p') = 0"
proof -
  have "in_range 100 (Position_new 1)" by (simp add: in_range_def Position_new_def)
  from fill_conserves_value [OF this, of Buy 10] show ?thesis
    by (auto simp: Position_new_def sint_signed_qty cash_def)
qed

text \<open>The keeper's cached total is always the sum over its positions of realized and
  unrealized profit, after any sequence of fills, price updates and changes of pending
  quantities, and none of these panics.\<close>

lemma keeper_total_exact:
  "\<exists>us k. run_outcome keeper_step ops PositionKeeper_new = Inr (us, k) \<and>
     PositionKeeper_total_pnl k =
       (\<Sum>t \<in> fmdom' (pk_positions k). Position_total_pnl (the (fmlookup (pk_positions k) t)))"
proof -
  have "keeper_ok PositionKeeper_new" by (simp add: keeper_ok_def PositionKeeper_new_def)
  from keeper_run_ok [OF this, of ops] show ?thesis
    by (auto simp: keeper_ok_def PositionKeeper_total_pnl_def)
qed

end
