(* ===== verification/Risk.thy ===== *)
theory Risk
  imports Position
begin

text \<open>
  Pre-trade and real-time risk checks, \<open>trading/src/risk.rs\<close>. The lemmas characterise every
  verdict over the integers and bound the position an allowed order can lead to.
\<close>

section \<open>The model\<close>

datatype RiskCheckResult = Allowed | OrderTooLarge | PositionTooLarge | LossTooLarge | OpenOrdersTooMany

definition is_allowed :: "RiskCheckResult \<Rightarrow> bool" where
  "is_allowed r \<longleftrightarrow> r = Allowed"

record RiskLimits =
  max_order_qty :: Qty
  max_position :: i64
  max_loss :: i64
  max_open_orders :: u32

definition RiskLimits_default :: RiskLimits where
  "RiskLimits_default =
     \<lparr>max_order_qty = 1000, max_position = 10000, max_loss = 100000, max_open_orders = 100\<rparr>"

definition RiskLimits_new :: "Qty \<Rightarrow> i64 \<Rightarrow> i64 \<Rightarrow> u32 \<Rightarrow> RiskLimits" where
  "RiskLimits_new order_qty position loss open_orders =
     \<lparr>max_order_qty = order_qty, max_position = position, max_loss = loss, max_open_orders = open_orders\<rparr>"

record RiskManager =
  rm_limits :: "(TickerId, RiskLimits) fmap"
  rm_default_limits :: RiskLimits

definition RiskManager_new :: RiskManager where
  "RiskManager_new = \<lparr>rm_limits = fmempty, rm_default_limits = RiskLimits_default\<rparr>"

definition RiskManager_default :: RiskManager where
  "RiskManager_default = RiskManager_new"

definition with_default_limits :: "RiskLimits \<Rightarrow> RiskManager" where
  "with_default_limits limits = \<lparr>rm_limits = fmempty, rm_default_limits = limits\<rparr>"

definition set_limits :: "TickerId \<Rightarrow> RiskLimits \<Rightarrow> RiskManager \<Rightarrow> RiskManager" where
  "set_limits ticker_id limits rm = rm\<lparr>rm_limits := fmupd ticker_id limits (rm_limits rm)\<rparr>"

definition get_limits :: "RiskManager \<Rightarrow> TickerId \<Rightarrow> RiskLimits" where
  "get_limits rm ticker_id = get_or (rm_limits rm) ticker_id (rm_default_limits rm)"

definition remove_limits :: "TickerId \<Rightarrow> RiskManager \<Rightarrow> RiskManager" where
  "remove_limits ticker_id rm = rm\<lparr>rm_limits := fmdrop ticker_id (rm_limits rm)\<rparr>"

definition is_risk_reducing :: "Position \<Rightarrow> Side \<Rightarrow> bool" where
  "is_risk_reducing p side = (case side of Buy \<Rightarrow> ps_position p <s 0 | Sell \<Rightarrow> 0 <s ps_position p)"

definition check_order :: "RiskManager \<Rightarrow> Position \<Rightarrow> Side \<Rightarrow> Qty \<Rightarrow> Price \<Rightarrow> RiskCheckResult" where
  "check_order rm p side qty price =
     (let limits = get_limits rm (ps_ticker_id p) in
      if max_order_qty limits < qty then OrderTooLarge
      else if \<not> is_risk_reducing p side \<and>
        max_position limits <s sabs (case side of Buy \<Rightarrow> max_long_exposure p + ucast qty
                                               | Sell \<Rightarrow> max_short_exposure p - ucast qty)
      then PositionTooLarge
      else if Position_total_pnl p <s - max_loss limits then LossTooLarge
      else Allowed)"

definition check_open_orders :: "RiskManager \<Rightarrow> TickerId \<Rightarrow> u32 \<Rightarrow> RiskCheckResult" where
  "check_open_orders rm ticker_id current_open_orders =
     (if max_open_orders (get_limits rm ticker_id) \<le> current_open_orders then OpenOrdersTooMany else Allowed)"

definition check_position :: "RiskManager \<Rightarrow> Position \<Rightarrow> RiskCheckResult" where
  "check_position rm p =
     (let limits = get_limits rm (ps_ticker_id p) in
      if max_position limits <s sabs (ps_position p) then PositionTooLarge
      else if Position_total_pnl p <s - max_loss limits then LossTooLarge
      else Allowed)"

definition check_order_with_open_orders ::
  "RiskManager \<Rightarrow> Position \<Rightarrow> Side \<Rightarrow> Qty \<Rightarrow> Price \<Rightarrow> u32 \<Rightarrow> RiskCheckResult" where
  "check_order_with_open_orders rm p side qty price current_open_orders =
     (let open_orders_result = check_open_orders rm (ps_ticker_id p) current_open_orders in
      if \<not> is_allowed open_orders_result then open_orders_result
      else check_order rm p side qty price)"

section \<open>The verdicts over the integers\<close>

text \<open>The position that would result if everything pending on the order's side and the order
  itself were filled.\<close>

definition projected :: "Position \<Rightarrow> Side \<Rightarrow> Qty \<Rightarrow> int" where
  "projected p side qty =
     (case side of
        Buy \<Rightarrow> sint (ps_position p) + uint (ps_open_buy_qty p) + uint qty
      | Sell \<Rightarrow> sint (ps_position p) - uint (ps_open_sell_qty p) - uint qty)"

text \<open>Positions and limits away from the 64-bit bounds.\<close>

definition risk_range :: "RiskManager \<Rightarrow> Position \<Rightarrow> bool" where
  "risk_range rm p \<longleftrightarrow> \<bar>sint (ps_position p)\<bar> \<le> 2 ^ 62 \<and>
     - (2 ^ 63) < sint (max_loss (get_limits rm (ps_ticker_id p)))"

lemma sint_projected:
  assumes "\<bar>sint (ps_position p)\<bar> \<le> 2 ^ 62"
  shows "sint (sabs (case side of Buy \<Rightarrow> max_long_exposure p + ucast qty
                              | Sell \<Rightarrow> max_short_exposure p - ucast qty)) = \<bar>projected p side qty\<bar>"
proof -
  note b = uint_u32_bounds [of "ps_open_buy_qty p"] uint_u32_bounds [of "ps_open_sell_qty p"]
    uint_u32_bounds [of qty]
  have pos: "\<bar>sint (ps_position p)\<bar> \<le> 4611686018427387904" using assms by simp
  have fits: "\<bar>z\<bar> < 9223372036854775808 \<Longrightarrow> fits_i64 z" for z by (rule fits_i64_absI) simp
  have "fits_i64 (sint (ps_position p) + uint (ps_open_buy_qty p))"
    "fits_i64 (sint (ps_position p) + uint (ps_open_buy_qty p) + uint qty)"
    "fits_i64 (sint (ps_position p) - uint (ps_open_sell_qty p))"
    "fits_i64 (sint (ps_position p) - uint (ps_open_sell_qty p) - uint qty)"
    "fits_i64 (- (sint (ps_position p) + uint (ps_open_buy_qty p) + uint qty))"
    "fits_i64 (- (sint (ps_position p) - uint (ps_open_sell_qty p) - uint qty))"
    by (rule fits; use pos b in linarith)+
  then show ?thesis
    by (cases side) (simp_all add: projected_def max_long_exposure_def max_short_exposure_def sint_sabs_i64
        sint_add_i64 sint_diff_i64)
qed

lemma check_order_cases:
  assumes "risk_range rm p"
  shows "check_order rm p side qty price =
    (let l = get_limits rm (ps_ticker_id p) in
     if uint (max_order_qty l) < uint qty then OrderTooLarge
     else if \<not> is_risk_reducing p side \<and> sint (max_position l) < \<bar>projected p side qty\<bar> then PositionTooLarge
     else if sint (Position_total_pnl p) < - sint (max_loss l) then LossTooLarge
     else Allowed)"
proof -
  let ?l = "get_limits rm (ps_ticker_id p)"
  have pos: "\<bar>sint (ps_position p)\<bar> \<le> 2 ^ 62" using assms by (simp add: risk_range_def)
  have "fits_i64 (- sint (max_loss ?l))"
    using assms fits_i64_sint [of "max_loss ?l"] by (auto simp: risk_range_def fits_i64_def)
  then have neg: "sint (- max_loss ?l) = - sint (max_loss ?l)" by (rule sint_uminus_i64)
  show ?thesis
    unfolding check_order_def Let_def word_sless_alt sint_projected [OF pos] neg word_less_def ..
qed

text \<open>Filling any part of what is pending on the side of an order that does not reduce the
  position stays between the position and its projection.\<close>

lemma partial_fill_bound:
  assumes "\<not> is_risk_reducing p side" "0 \<le> f"
    "f \<le> (case side of Buy \<Rightarrow> uint (ps_open_buy_qty p) | Sell \<Rightarrow> uint (ps_open_sell_qty p)) + uint qty"
  shows "\<bar>sint (ps_position p) + (case side of Buy \<Rightarrow> f | Sell \<Rightarrow> - f)\<bar> \<le> \<bar>projected p side qty\<bar>"
  using assms by (cases side) (auto simp: is_risk_reducing_def projected_def word_sless_alt)

section \<open>Properties\<close>



text \<open>C26: an allowed order cannot break the position limit: from a position within the limit, a
  full fill of an allowed order leaves a position within the greater of the position limit and
  the order size limit, and if the order does not reduce the position then any partial fill of
  everything pending on its side stays within the position limit.\<close>

theorem allowed_order_bounds_position:
  assumes "risk_range rm p" "check_order rm p side qty price = Allowed"
    and "\<bar>sint (ps_position p)\<bar> \<le> sint (max_position (get_limits rm (ps_ticker_id p)))"
  shows "\<bar>sint (ps_position p) + sint (signed_qty side qty)\<bar> \<le>
      max (sint (max_position (get_limits rm (ps_ticker_id p))))
          (uint (max_order_qty (get_limits rm (ps_ticker_id p)))) \<and>
    (is_risk_reducing p side \<or>
     (\<forall>f. 0 \<le> f \<and> f \<le> (case side of Buy \<Rightarrow> uint (ps_open_buy_qty p) | Sell \<Rightarrow> uint (ps_open_sell_qty p)) + uint qty \<longrightarrow>
        \<bar>sint (ps_position p) + (case side of Buy \<Rightarrow> f | Sell \<Rightarrow> - f)\<bar> \<le>
          sint (max_position (get_limits rm (ps_ticker_id p)))))"
proof -
  let ?l = "get_limits rm (ps_ticker_id p)"
  have q: "uint qty \<le> uint (max_order_qty ?l)"
    and pr: "is_risk_reducing p side \<or> \<bar>projected p side qty\<bar> \<le> sint (max_position ?l)"
    using check_order_cases [OF assms(1), of side qty price] assms(2)
    by (auto simp: Let_def not_less split: if_splits)
  show ?thesis
  proof (cases "is_risk_reducing p side")
    case True
    have opp: "z < 0 \<Longrightarrow> 0 \<le> u \<Longrightarrow> \<bar>z + u\<bar> \<le> max \<bar>z\<bar> u" "0 < z \<Longrightarrow> 0 \<le> u \<Longrightarrow> \<bar>z + - u\<bar> \<le> max \<bar>z\<bar> u"
      for z u :: int by auto
    have "\<bar>sint (ps_position p) + sint (signed_qty side qty)\<bar> \<le> max \<bar>sint (ps_position p)\<bar> (uint qty)"
    proof (cases side)
      case Buy
      with True show ?thesis using opp(1) [OF _ uint_u32_bounds(2)]
        by (simp add: is_risk_reducing_def word_sless_alt sint_signed_qty)
    next
      case Sell
      with True show ?thesis using opp(2) [OF _ uint_u32_bounds(2)]
        by (simp add: is_risk_reducing_def word_sless_alt sint_signed_qty)
    qed
    with True q assms(3) show ?thesis by auto
  next
    case False
    with pr have le: "\<bar>projected p side qty\<bar> \<le> sint (max_position ?l)" by simp
    note b = partial_fill_bound [OF False, of _ qty]
    have "\<bar>sint (ps_position p) + sint (signed_qty side qty)\<bar> \<le> \<bar>projected p side qty\<bar>"
      using b [of "uint qty"] by (cases side) (simp_all add: sint_signed_qty)
    with le b show ?thesis by fastforce
  qed
qed

theorem allowed_order_bounds_position_witness:
  "check_order RiskManager_new (Position_new 1) Sell 500 100 = Allowed \<and>
   \<bar>sint (ps_position (Position_new 1)) + sint (signed_qty Sell 500)\<bar> \<le> 10000"
proof -
  have r: "risk_range RiskManager_new (Position_new 1)"
    by (simp add: risk_range_def Position_new_def RiskManager_new_def RiskLimits_default_def get_limits_def)
  have a: "check_order RiskManager_new (Position_new 1) Sell 500 100 = Allowed"
    unfolding check_order_cases [OF r]
    by (simp add: Position_new_def RiskManager_new_def RiskLimits_default_def get_limits_def
        is_risk_reducing_def projected_def word_sless_alt Position_total_pnl_def)
  have "\<bar>sint (ps_position (Position_new 1))\<bar> \<le>
      sint (max_position (get_limits RiskManager_new (ps_ticker_id (Position_new 1))))"
    by (simp add: Position_new_def RiskManager_new_def RiskLimits_default_def get_limits_def)
  from allowed_order_bounds_position [OF r a this] a show ?thesis
    by (simp add: RiskManager_new_def RiskLimits_default_def get_limits_def)
qed

text \<open>Orders that reduce the position bypass the limit one by one: two sells of 1000 against a
  long position of 1 are both allowed while the first is pending, with a limit of 1000.\<close>

lemma reducing_orders_bypass_limit:
  "let rm = with_default_limits (RiskLimits_new 1000 1000 100000 100);
       p = (Position_new 1)\<lparr>ps_position := 1\<rparr>;
       p' = add_open_order Sell 1000 p
   in check_order rm p Sell 1000 100 = Allowed \<and> check_order rm p' Sell 1000 100 = Allowed \<and>
      projected p' Sell 1000 = - 1999"
  by (simp add: Let_def check_order_def with_default_limits_def RiskLimits_new_def get_limits_def
      Position_new_def is_risk_reducing_def add_open_order_def projected_def word_sless_alt
      Position_total_pnl_def)

end
