(* ===== verification/TradingClient.thy ===== *)
theory TradingClient
  imports OrderGateway MarketMaker LiquidityTaker Risk
begin

text \<open>
  The trading binary, \<open>trading/src/main.rs\<close>: the command line, the start-up, and the event loop
  that feeds market data to the features, responses to the positions, and the orders of a strategy
  through the risk check to the gateway. Printing, the shutdown flag and the sleep between
  iterations are not represented; the three clock readings of an iteration are an argument. A loop
  over a socket that never runs dry is \<open>None\<close>.
\<close>

section \<open>The model\<close>

datatype Strategy = StrategyMarketMaker | StrategyLiquidityTaker

record TradingArgs =
  ta_host :: string
  ta_port :: u16
  ta_multicast_addr :: string
  ta_multicast_port :: u16
  ta_interface :: string
  ta_strategy :: Strategy
  ta_ticker :: u32
  ta_client_id :: u32
  ta_max_order_qty :: u32
  ta_max_position :: i64
  ta_max_loss :: i64
  ta_half_spread :: i64
  ta_signal_threshold :: f64

definition TradingArgs_default :: TradingArgs where
  "TradingArgs_default =
     \<lparr>ta_host = ''127.0.0.1'', ta_port = 12345, ta_multicast_addr = ''239.255.0.1'', ta_multicast_port = 5000,
      ta_interface = ''0.0.0.0'', ta_strategy = StrategyMarketMaker, ta_ticker = 1, ta_client_id = 1,
      ta_max_order_qty = 100, ta_max_position = 1000, ta_max_loss = 100000, ta_half_spread = 50,
      ta_signal_threshold = rnd (3 / 10)\<rparr>"

record 's TradingClient =
  cl_receiver :: "'s MarketDataReceiver"
  cl_gateway :: "'s OrderGateway"
  cl_features :: FeatureEngine
  cl_positions :: PositionKeeper
  cl_risk :: RiskManager
  cl_market_maker :: "MarketMaker option"
  cl_liquidity_taker :: "LiquidityTaker option"
  cl_stats_interval :: u64
  cl_orders_sent :: u64
  cl_fills_received :: u64

definition client_limits :: "TradingArgs \<Rightarrow> RiskManager" where
  "client_limits args =
     set_limits (ta_ticker args)
       (RiskLimits_new (ta_max_order_qty args) (ta_max_position args) (ta_max_loss args) 100) RiskManager_new"

definition make_market_maker :: "TradingArgs \<Rightarrow> MarketMaker" where
  "make_market_maker args =
     MarketMaker_new (mm_with_max_position (ta_max_position args) (mm_with_base_qty (ta_max_order_qty args)
       (with_half_spread (ta_half_spread args) (MarketMakerConfig_new (ta_ticker args)))))"

definition make_liquidity_taker :: "TradingArgs \<Rightarrow> LiquidityTaker" where
  "make_liquidity_taker args =
     LiquidityTaker_new (lt_with_max_position (ta_max_position args) (lt_with_base_qty (ta_max_order_qty args)
       (with_threshold (ta_signal_threshold args) (LiquidityTakerConfig_new (ta_ticker args)))))"

text \<open>The start-up; \<open>None\<close> is the exit of the process after an error message.\<close>

definition Trading_start :: "'s socket_api \<Rightarrow> (string \<Rightarrow> u16 \<Rightarrow> socket_addr list io) \<Rightarrow> TradingArgs \<Rightarrow>
    's TradingClient option" where
  "Trading_start api resolve args =
     (case MarketDataReceiver_new api (ta_multicast_addr args) (ta_multicast_port args) (ta_interface args) of
        Inl e \<Rightarrow> None
      | Inr receiver \<Rightarrow>
          (case OrderGateway_connect api (resolve (ta_host args) (ta_port args)) (ta_client_id args) of
             Inl e \<Rightarrow> None
           | Inr gateway \<Rightarrow>
               Some \<lparr>cl_receiver = reserve_tickers [ta_ticker args] receiver, cl_gateway = gateway,
                     cl_features = fe_reserve_tickers [ta_ticker args] FeatureEngine_new,
                     cl_positions = PositionKeeper_new, cl_risk = client_limits args,
                     cl_market_maker =
                       (case ta_strategy args of StrategyMarketMaker \<Rightarrow> Some (make_market_maker args) | _ \<Rightarrow> None),
                     cl_liquidity_taker =
                       (case ta_strategy args of StrategyLiquidityTaker \<Rightarrow> Some (make_liquidity_taker args) | _ \<Rightarrow> None),
                     cl_stats_interval = 0, cl_orders_sent = 0, cl_fills_received = 0\<rparr>))"

text \<open>Steps 1 and 2 of the loop body: market data and features.\<close>

definition take_market_data :: "'s socket_api \<Rightarrow> TickerId \<Rightarrow> 's TradingClient \<Rightarrow> 's TradingClient option" where
  "take_market_data api ticker c =
     (case poll_and_process api (cl_receiver c) 0 [] of
        None \<Rightarrow> None
      | Some (updates_processed, _, receiver) \<Rightarrow>
          let c = c\<lparr>cl_receiver := receiver\<rparr> in
          Some (if 0 < updates_processed
                then case get_bbo receiver ticker of
                       Some bbo \<Rightarrow>
                         let c = c\<lparr>cl_features := on_bbo_update ticker bbo (cl_features c)\<rparr> in
                         if BBO_is_valid bbo
                         then let mid = trunc_div (bb_bid_price bbo + bb_ask_price bbo) 2
                              in c\<lparr>cl_positions := PositionKeeper_update_market_price ticker mid (cl_positions c)\<rparr>
                         else c
                     | None \<Rightarrow> c
                else c))"

definition response_side :: "ClientResponse \<Rightarrow> Side" where
  "response_side response = (if rs_side response = 1 then Buy else Sell)"

definition held_position :: "TickerId \<Rightarrow> PositionKeeper \<Rightarrow> i64" where
  "held_position ticker k = (case get_position k ticker of Some p \<Rightarrow> ps_position p | None \<Rightarrow> 0)"

text \<open>The body of step 3, for one response.\<close>

definition handle_response :: "TickerId \<Rightarrow> ClientResponse \<Rightarrow> 's TradingClient \<Rightarrow> 's TradingClient outcome" where
  "handle_response ticker response c =
     (case response_type response of
        Some Filled \<Rightarrow>
          let c = c\<lparr>cl_fills_received := cl_fills_received c + 1\<rparr> in
          (case PositionKeeper_on_fill ticker (response_side response) (rs_exec_qty response) (rs_price response)
                  (cl_positions c) of
             Inl f \<Rightarrow> Inl f
           | Inr k \<Rightarrow>
               let pos = held_position ticker k
               in Inr (c\<lparr>cl_positions := k, cl_market_maker := map_option (mm_set_position pos) (cl_market_maker c),
                         cl_liquidity_taker :=
                           map_option (\<lambda>lt. lt_on_fill (lt_set_position pos lt)) (cl_liquidity_taker c)\<rparr>))
      | Some Accepted \<Rightarrow>
          Inr (c\<lparr>cl_positions := get_position_mut ticker
                   (add_open_order (response_side response) (rs_leaves_qty response)) (cl_positions c)\<rparr>)
      | Some Canceled \<Rightarrow>
          Inr (c\<lparr>cl_positions := get_position_mut ticker
                   (remove_open_order (response_side response) (rs_leaves_qty response)) (cl_positions c)\<rparr>)
      | Some CancelRejected \<Rightarrow>
          Inr (c\<lparr>cl_positions := get_position_mut ticker
                   (remove_open_order (response_side response) (rs_leaves_qty response)) (cl_positions c)\<rparr>)
      | _ \<Rightarrow> Inr c)"

partial_function (option) take_responses ::
  "'s socket_api \<Rightarrow> TickerId \<Rightarrow> 's TradingClient \<Rightarrow> 's TradingClient outcome option" where
  "take_responses api ticker c =
     (case og_poll api (cl_gateway c) of
        (None, gateway) \<Rightarrow> Some (Inr (c\<lparr>cl_gateway := gateway\<rparr>))
      | (Some response, gateway) \<Rightarrow>
          (case handle_response ticker response (c\<lparr>cl_gateway := gateway\<rparr>) of
             Inl f \<Rightarrow> Some (Inl f)
           | Inr c \<Rightarrow> take_responses api ticker c))"

text \<open>Step 4: an order of the action is checked against the position as it stands and sent.\<close>

definition try_send :: "'s socket_api \<Rightarrow> Nanos \<Rightarrow> Position \<Rightarrow> OrderRequest \<Rightarrow> 's TradingClient \<Rightarrow> 's TradingClient" where
  "try_send api now position order c =
     (if is_allowed (check_order (cl_risk c) position (or_side order) (or_qty order) (or_price order))
      then c\<lparr>cl_gateway := snd (send_new_order api now (or_ticker_id order) (or_side order) (or_price order)
               (or_qty order) (cl_gateway c)), cl_orders_sent := cl_orders_sent c + 1\<rparr>
      else c)"

definition try_send_opt :: "'s socket_api \<Rightarrow> Nanos \<Rightarrow> Position \<Rightarrow> OrderRequest option \<Rightarrow> 's TradingClient \<Rightarrow> 's TradingClient" where
  "try_send_opt api now position r c = (case r of Some order \<Rightarrow> try_send api now position order c | None \<Rightarrow> c)"

definition execute_action :: "'s socket_api \<Rightarrow> Nanos \<Rightarrow> Nanos \<Rightarrow> Position \<Rightarrow> StrategyAction \<Rightarrow> 's TradingClient \<Rightarrow> 's TradingClient" where
  "execute_action api now1 now2 position action c =
     (case action of
        Quote pair \<Rightarrow> try_send_opt api now2 position (qp_ask pair) (try_send_opt api now1 position (qp_bid pair) c)
      | Take order \<Rightarrow> try_send api now1 position order c
      | CancelAll _ \<Rightarrow> c
      | NoAction \<Rightarrow> c)"

definition choose_action :: "Nanos \<Rightarrow> TickerId \<Rightarrow> TickerFeatures \<Rightarrow> 's TradingClient \<Rightarrow>
    (StrategyAction \<times> 's TradingClient) outcome" where
  "choose_action now ticker features c =
     (case (cl_market_maker c, cl_liquidity_taker c) of
        (Some mm, None) \<Rightarrow>
          (case mm_on_features features mm of
             Inl f \<Rightarrow> Inl f
           | Inr (action, mm) \<Rightarrow> Inr (action, c\<lparr>cl_market_maker := Some mm\<rparr>))
      | (None, Some lt) \<Rightarrow>
          (case get_bbo (cl_receiver c) ticker of
             Some bbo \<Rightarrow>
               (case lt_on_features features (as_u64 now) (bb_bid_price bbo) (bb_ask_price bbo) lt of
                  Inl f \<Rightarrow> Inl f
                | Inr (action, lt) \<Rightarrow> Inr (action, c\<lparr>cl_liquidity_taker := Some lt\<rparr>))
           | None \<Rightarrow> Inr (NoAction, c))
      | _ \<Rightarrow> Inr (NoAction, c))"

definition run_strategy :: "'s socket_api \<Rightarrow> Nanos \<times> Nanos \<times> Nanos \<Rightarrow> TickerId \<Rightarrow> 's TradingClient \<Rightarrow> 's TradingClient outcome" where
  "run_strategy api clock ticker c =
     (case clock of (now, now1, now2) \<Rightarrow>
      case get_features (cl_features c) ticker of
        Some features \<Rightarrow>
          if TickerFeatures_is_valid features
          then let c = c\<lparr>cl_positions := get_position_mut ticker id (cl_positions c)\<rparr>;
                   position = get_or (pk_positions (cl_positions c)) ticker (Position_new ticker)
               in if is_allowed (check_position (cl_risk c) position)
                  then case choose_action now ticker features c of
                         Inl f \<Rightarrow> Inl f
                       | Inr (action, c) \<Rightarrow> Inr (execute_action api now1 now2 position action c)
                  else Inr c
          else Inr c
      | None \<Rightarrow> Inr c)"

text \<open>One iteration of the event loop, and the loop for the given clock readings.\<close>

definition client_cycle :: "'s socket_api \<Rightarrow> TradingArgs \<Rightarrow> Nanos \<times> Nanos \<times> Nanos \<Rightarrow> 's TradingClient \<Rightarrow>
    's TradingClient outcome option" where
  "client_cycle api args clock c =
     (case take_market_data api (ta_ticker args) c of
        None \<Rightarrow> None
      | Some c \<Rightarrow>
          (case take_responses api (ta_ticker args) c of
             None \<Rightarrow> None
           | Some (Inl f) \<Rightarrow> Some (Inl f)
           | Some (Inr c) \<Rightarrow>
               Some (map_sum id (\<lambda>c. c\<lparr>cl_stats_interval := cl_stats_interval c + 1\<rparr>)
                 (run_strategy api clock (ta_ticker args) c))))"

fun client_loop :: "'s socket_api \<Rightarrow> TradingArgs \<Rightarrow> (Nanos \<times> Nanos \<times> Nanos) list \<Rightarrow> 's TradingClient \<Rightarrow>
    's TradingClient outcome option" where
  "client_loop api args [] c = Some (Inr c)"
| "client_loop api args (clock # clocks) c =
     (case client_cycle api args clock c of
        None \<Rightarrow> None
      | Some (Inl f) \<Rightarrow> Some (Inl f)
      | Some (Inr c) \<Rightarrow> client_loop api args clocks c)"

text \<open>The numbers of the periodic and of the final report: position, profit and loss, orders, fills, and
  the pending orders of the former.\<close>

definition periodic_stats :: "TradingArgs \<Rightarrow> 's TradingClient \<Rightarrow> (i64 \<times> i64 \<times> u64 \<times> u64 \<times> nat) option" where
  "periodic_stats args c =
     (if cl_stats_interval c mod 100000 = 0
      then Some (held_position (ta_ticker args) (cl_positions c), PositionKeeper_total_pnl (cl_positions c),
                 cl_orders_sent c, cl_fills_received c, pending_count (cl_gateway c))
      else None)"

definition final_stats :: "TradingArgs \<Rightarrow> 's TradingClient \<Rightarrow> i64 \<times> i64 \<times> u64 \<times> u64" where
  "final_stats args c =
     (held_position (ta_ticker args) (cl_positions c), PositionKeeper_total_pnl (cl_positions c), cl_orders_sent c,
      cl_fills_received c)"

section \<open>The invariant of a client\<close>

text \<open>The limits are those of the command line, positions are filed under their ticker, and the
  strategies trade the ticker, are ready and know the position held.\<close>

definition client_ok :: "TradingArgs \<Rightarrow> 's TradingClient \<Rightarrow> bool" where
  "client_ok args c \<longleftrightarrow> cl_risk c = client_limits args \<and> keyed (cl_positions c) \<and>
     pred_option (\<lambda>mm. mm_ready mm \<and> mm_ticker_id (mk_config mm) = ta_ticker args \<and>
       mk_current_position mm = held_position (ta_ticker args) (cl_positions c)) (cl_market_maker c) \<and>
     pred_option (\<lambda>lt. lt_ready lt \<and> lt_ticker_id (tk_config lt) = ta_ticker args \<and>
       tk_current_position lt = held_position (ta_ticker args) (cl_positions c)) (cl_liquidity_taker c)"

lemma held_position_get_or: "held_position t k = ps_position (get_or (pk_positions k) t (Position_new t))"
  by (simp add: held_position_def get_position_def get_or_def Position_new_def split: option.splits)

lemma held_position_simps [simp]:
  "held_position t (get_position_mut t (add_open_order sd q) k) = held_position t k"
  "held_position t (get_position_mut t (remove_open_order sd q) k) = held_position t k"
  "held_position t (get_position_mut t id k) = held_position t k"
  "held_position t (PositionKeeper_update_market_price t x k) = held_position t k"
  by (simp_all add: held_position_get_or get_position_mut_def add_open_order_def remove_open_order_def
      PositionKeeper_update_market_price_def Position_update_market_price_def recalculate_total_pnl_def get_or_def
      split: Side.splits option.splits)

lemma ps_position_on_fill: "on_fill sd q x p = Inr p' \<Longrightarrow> ps_position p' = ps_position p + signed_qty sd q"
  by (auto simp: on_fill_def Let_def split: if_splits sum.splits)

lemma keeper_fill:
  "\<exists>k'. PositionKeeper_on_fill t sd q x k = Inr k' \<and> held_position t k' = held_position t k + signed_qty sd q"
proof -
  obtain p' where p': "on_fill sd q x (get_or (pk_positions k) t (Position_new t)) = Inr p'" using on_fill_total by blast
  show ?thesis using p' ps_position_on_fill [OF p']
    by (simp add: PositionKeeper_on_fill_def held_position_get_or recalculate_total_pnl_def get_position_mut_def)
qed

lemma client_ok_start: "Trading_start api resolve args = Some c \<Longrightarrow> client_ok args c"
  by (auto simp: Trading_start_def client_ok_def mm_ready_def lt_ready_def keyed_def PositionKeeper_new_def held_position_def get_position_def
      make_market_maker_def MarketMaker_new_def mm_with_max_position_def mm_with_base_qty_def with_half_spread_def
      MarketMakerConfig_new_def MarketMakerConfig_default_def make_liquidity_taker_def LiquidityTaker_new_def
      lt_with_max_position_def lt_with_base_qty_def with_threshold_def LiquidityTakerConfig_new_def
      LiquidityTakerConfig_default_def Let_def split: sum.splits Strategy.splits)

lemma client_ok_cong:
  assumes "client_ok args c" "cl_risk c' = cl_risk c" "cl_market_maker c' = cl_market_maker c"
    "cl_liquidity_taker c' = cl_liquidity_taker c" "keyed (cl_positions c')"
    "held_position (ta_ticker args) (cl_positions c') = held_position (ta_ticker args) (cl_positions c)"
  shows "client_ok args c'"
  using assms by (simp add: client_ok_def)

lemma client_ok_keyed: "client_ok args c \<Longrightarrow> keyed (cl_positions c)"
  by (simp add: client_ok_def)

lemma client_ok_market_data:
  assumes "client_ok args c" "take_market_data api (ta_ticker args) c = Some c'"
  shows "client_ok args c'"
proof (rule client_ok_cong [OF assms(1)])
  show "keyed (cl_positions c')" using assms(2) client_ok_keyed [OF assms(1)]
    by (auto simp: take_market_data_def Let_def keyed_market_price split: option.splits prod.splits if_splits)
qed (use assms(2) in \<open>auto simp: take_market_data_def Let_def split: option.splits prod.splits if_splits\<close>)

lemma client_ok_response:
  assumes "client_ok args c"
  shows "\<exists>c'. handle_response (ta_ticker args) r c = Inr c' \<and> client_ok args c'"
proof (cases "response_type r = Some Filled")
  case True
  obtain k where k: "PositionKeeper_on_fill (ta_ticker args) (response_side r) (rs_exec_qty r) (rs_price r) (cl_positions c) = Inr k"
    using keeper_fill by blast
  show ?thesis using True k assms keyed_fill [OF client_ok_keyed [OF assms] k]
    by (auto simp: handle_response_def Let_def client_ok_def mm_ready_def lt_ready_def option.pred_map comp_def mm_set_position_def lt_set_position_def
        lt_on_fill_def option.pred_set)
next
  case False
  have "client_ok args c'" if "handle_response (ta_ticker args) r c = Inr c'" for c'
    by (rule client_ok_cong [OF assms]) (use that False client_ok_keyed [OF assms] in
      \<open>auto simp: handle_response_def keyed_open_orders split: option.splits ClientResponseType.splits\<close>)
  then show ?thesis using False
    by (auto simp: handle_response_def split: option.splits ClientResponseType.splits)
qed

lemma client_ok_gateway: "client_ok args (c\<lparr>cl_gateway := g\<rparr>) \<longleftrightarrow> client_ok args c"
  by (simp add: client_ok_def)

lemma client_ok_responses:
  "take_responses api t c = Some r \<Longrightarrow> t = ta_ticker args \<Longrightarrow> client_ok args c \<Longrightarrow> \<exists>c'. r = Inr c' \<and> client_ok args c'"
proof (induction rule: take_responses.raw_induct [rotated, consumes 1])
  case (1 rec api t c r)
  have ok: "client_ok args (c\<lparr>cl_gateway := snd (og_poll api (cl_gateway c))\<rparr>)"
    using "1.prems"(2) by (simp add: client_ok_gateway)
  obtain polled g where p: "og_poll api (cl_gateway c) = (polled, g)" by force
  show ?case
  proof (cases polled)
    case None
    with 1 ok p show ?thesis by auto
  next
    case (Some response)
    obtain c' where "handle_response (ta_ticker args) response (c\<lparr>cl_gateway := g\<rparr>) = Inr c'" "client_ok args c'"
      using client_ok_response [OF ok, of response] p by auto
    with "1.IH" [of api t c' r] "1.prems" "1.hyps" Some p show ?thesis by simp
  qed
qed

section \<open>Sending\<close>

text \<open>The orders of an action with the clock reading of each.\<close>

definition timed_orders :: "Nanos \<Rightarrow> Nanos \<Rightarrow> StrategyAction \<Rightarrow> (Nanos \<times> OrderRequest) list" where
  "timed_orders now1 now2 act =
     (case act of
        Quote p \<Rightarrow> (case qp_bid p of Some b \<Rightarrow> [(now1, b)] | None \<Rightarrow> []) @ (case qp_ask p of Some a \<Rightarrow> [(now2, a)] | None \<Rightarrow> [])
      | Take order \<Rightarrow> [(now1, order)]
      | _ \<Rightarrow> [])"

definition passes :: "RiskManager \<Rightarrow> Position \<Rightarrow> Nanos \<times> OrderRequest \<Rightarrow> bool" where
  "passes rm position x = is_allowed (check_order rm position (or_side (snd x)) (or_qty (snd x)) (or_price (snd x)))"

definition send_all :: "'s socket_api \<Rightarrow> (Nanos \<times> OrderRequest) list \<Rightarrow> 's OrderGateway \<Rightarrow> 's OrderGateway" where
  "send_all api xs g = fold (\<lambda>(now, order) g. snd (send_new_order api now (or_ticker_id order) (or_side order)
     (or_price order) (or_qty order) g)) xs g"

lemma map_snd_timed_orders: "map snd (timed_orders now1 now2 act) = action_orders act"
  by (simp add: timed_orders_def action_orders_def split: StrategyAction.splits option.splits)

lemma try_send_eq:
  "try_send api now p order c = (let xs = filter (passes (cl_risk c) p) [(now, order)] in
     c\<lparr>cl_gateway := send_all api xs (cl_gateway c), cl_orders_sent := cl_orders_sent c + of_nat (length xs)\<rparr>)"
  by (simp add: try_send_def passes_def send_all_def Let_def)

lemma execute_action_eq:
  "execute_action api now1 now2 p act c = (let xs = filter (passes (cl_risk c) p) (timed_orders now1 now2 act) in
     c\<lparr>cl_gateway := send_all api xs (cl_gateway c), cl_orders_sent := cl_orders_sent c + of_nat (length xs)\<rparr>)"
  by (auto simp: execute_action_def timed_orders_def try_send_opt_def try_send_eq send_all_def Let_def
      split: StrategyAction.splits option.splits)

lemma choose_action_ok:
  assumes "client_ok args c"
  shows "\<exists>act c'. choose_action now (ta_ticker args) f c = Inr (act, c') \<and> client_ok args c' \<and>
    cl_gateway c' = cl_gateway c \<and> cl_positions c' = cl_positions c \<and> cl_orders_sent c' = cl_orders_sent c \<and>
    (\<forall>r \<in> set (action_orders act). or_ticker_id r = ta_ticker args)"
proof (cases "cl_market_maker c")
  case mm: (Some mm)
  show ?thesis
  proof (cases "cl_liquidity_taker c")
    case None
    have "mm_ready mm" using assms mm by (simp add: client_ok_def mm_ready_def)
    from mk.react_ok [OF this, of f] show ?thesis using assms mm None
      by (auto simp: choose_action_def client_ok_def)
  qed (use assms mm in \<open>auto simp: choose_action_def action_orders_def\<close>)
next
  case mm: None
  show ?thesis
  proof (cases "cl_liquidity_taker c")
    case (Some lt)
    have m: "lt_ready lt" using assms Some by (simp add: client_ok_def lt_ready_def)
    show ?thesis
    proof (cases "get_bbo (cl_receiver c) (ta_ticker args)")
      case b: (Some b)
      from tk.react_ok [OF m, of "(f, as_u64 now, bb_bid_price b, bb_ask_price b)"] show ?thesis using assms mm Some b
        by (auto simp: choose_action_def client_ok_def lt_react_def)
    qed (use assms mm Some in \<open>auto simp: choose_action_def action_orders_def\<close>)
  qed (use assms mm in \<open>auto simp: choose_action_def action_orders_def\<close>)
qed

text \<open>What step 4 does: it sends nothing, or the orders of the strategy that pass the check.\<close>

lemma run_strategy_sends:
  assumes "client_ok args c"
  shows "\<exists>c' xs. run_strategy api clock (ta_ticker args) c = Inr c' \<and> client_ok args c' \<and>
    cl_gateway c' = send_all api xs (cl_gateway c) \<and> cl_orders_sent c' = cl_orders_sent c + of_nat (length xs) \<and>
    held_position (ta_ticker args) (cl_positions c') = held_position (ta_ticker args) (cl_positions c) \<and>
    (let p = get_or (pk_positions (cl_positions c')) (ta_ticker args) (Position_new (ta_ticker args)) in
     (xs = [] \<or> is_allowed (check_position (client_limits args) p)) \<and>
     (\<forall>x \<in> set xs. or_ticker_id (snd x) = ta_ticker args \<and> passes (client_limits args) p x))"
proof -
  obtain now now1 now2 where clock: "clock = (now, now1, now2)" by (cases clock)
  define c1 where "c1 = c\<lparr>cl_positions := get_position_mut (ta_ticker args) id (cl_positions c)\<rparr>"
  let ?p = "get_or (pk_positions (cl_positions c1)) (ta_ticker args) (Position_new (ta_ticker args))"
  have c1: "client_ok args c1" "cl_gateway c1 = cl_gateway c" "cl_orders_sent c1 = cl_orders_sent c"
    "held_position (ta_ticker args) (cl_positions c1) = held_position (ta_ticker args) (cl_positions c)"
    using keyed_get_position_mut [OF client_ok_keyed [OF assms], of "ta_ticker args" id]
    by (auto intro: client_ok_cong [OF assms] simp: c1_def)
  have rm: "cl_risk x = client_limits args" if "client_ok args x" for x :: "'a TradingClient"
    using that by (simp add: client_ok_def)
  show ?thesis
  proof (cases "get_features (cl_features c) (ta_ticker args)")
    case (Some f)
    show ?thesis
    proof (cases "TickerFeatures_is_valid f \<and> is_allowed (check_position (cl_risk c1) ?p)")
      case True
      obtain act c2 where a: "choose_action now (ta_ticker args) f c1 = Inr (act, c2)" "client_ok args c2"
        "cl_gateway c2 = cl_gateway c1" "cl_positions c2 = cl_positions c1" "cl_orders_sent c2 = cl_orders_sent c1"
        "\<forall>r \<in> set (action_orders act). or_ticker_id r = ta_ticker args"
        using choose_action_ok [OF c1(1)] by blast
      define xs where "xs = filter (passes (client_limits args) ?p) (timed_orders now1 now2 act)"
      define c3 where "c3 = c2\<lparr>cl_gateway := send_all api xs (cl_gateway c2), cl_orders_sent := cl_orders_sent c2 + of_nat (length xs)\<rparr>"
      have "run_strategy api clock (ta_ticker args) c = Inr c3"
        using Some True a(1) by (simp add: run_strategy_def clock Let_def c1_def [symmetric] execute_action_eq c3_def xs_def rm [OF a(2)])
      moreover have "client_ok args c3" using a(2) by (simp add: c3_def client_ok_def)
      moreover have "\<forall>x \<in> set xs. or_ticker_id (snd x) = ta_ticker args"
        using a(6) unfolding map_snd_timed_orders [of now1 now2, symmetric] by (auto simp: xs_def)
      ultimately show ?thesis using True a(3-5) c1(2-4) rm [OF c1(1)]
        by (intro exI [of _ c3] exI [of _ xs]) (auto simp: c3_def xs_def Let_def)
    next
      case False
      then have "run_strategy api clock (ta_ticker args) c = Inr (if TickerFeatures_is_valid f then c1 else c)"
        using Some by (simp add: run_strategy_def clock Let_def c1_def [symmetric])
      then show ?thesis using assms c1
        by (intro exI [of _ "if TickerFeatures_is_valid f then c1 else c"] exI [of _ "[]"]) (simp add: send_all_def)
    qed
  next
    case None
    then have "run_strategy api clock (ta_ticker args) c = Inr c" by (simp add: run_strategy_def clock)
    then show ?thesis using assms by (intro exI [of _ c] exI [of _ "[]"]) (simp add: send_all_def)
  qed
qed

section \<open>Cycles\<close>

lemma client_ok_cycle:
  assumes "client_ok args c" "client_cycle api args clock c = Some r"
  shows "\<exists>c'. r = Inr c' \<and> client_ok args c'"
proof -
  obtain c1 where 1: "take_market_data api (ta_ticker args) c = Some c1"
    using assms(2) by (auto simp: client_cycle_def split: option.splits)
  note ok1 = client_ok_market_data [OF assms(1) 1]
  obtain r2 where r2: "take_responses api (ta_ticker args) c1 = Some r2"
    using assms(2) 1 by (auto simp: client_cycle_def split: option.splits)
  obtain c2 where c2: "r2 = Inr c2" "client_ok args c2" using client_ok_responses [OF r2 refl ok1] by blast
  obtain c3 where "run_strategy api clock (ta_ticker args) c2 = Inr c3" "client_ok args c3"
    using run_strategy_sends [OF c2(2)] by blast
  with assms(2) 1 r2 c2 show ?thesis by (auto simp: client_cycle_def client_ok_def)
qed

lemma client_ok_loop:
  assumes "client_ok args c" "client_loop api args clocks c = Some r"
  shows "\<exists>c'. r = Inr c' \<and> client_ok args c'"
  using assms
proof (induction clocks arbitrary: c)
  case (Cons clock clocks)
  then obtain r1 where r1: "client_cycle api args clock c = Some r1" by (auto split: option.splits)
  obtain c1 where "r1 = Inr c1" "client_ok args c1" using client_ok_cycle [OF Cons.prems(1) r1] by blast
  with r1 Cons.IH [of c1] Cons.prems(2) show ?case by simp
qed auto

text \<open>The gateway returns these responses to the polls that follow, and then none.\<close>

primrec yields :: "'s socket_api \<Rightarrow> ClientResponse list \<Rightarrow> 's OrderGateway \<Rightarrow> bool" where
  "yields api [] g = (fst (og_poll api g) = None)"
| "yields api (r # rs) g = (fst (og_poll api g) = Some r \<and> yields api rs (snd (og_poll api g)))"

definition net_fills :: "ClientResponse list \<Rightarrow> i64" where
  "net_fills rs = (\<Sum>r \<leftarrow> filter (\<lambda>r. response_type r = Some Filled) rs.
     if rs_side r = side_i8 Buy then ucast (rs_exec_qty r) else - ucast (rs_exec_qty r))"

lemma handle_response_position:
  assumes "handle_response t r c = Inr c'"
  shows "held_position t (cl_positions c') = held_position t (cl_positions c) + net_fills [r]"
    "cl_gateway c' = cl_gateway c"
proof -
  obtain k where k: "PositionKeeper_on_fill t (response_side r) (rs_exec_qty r) (rs_price r) (cl_positions c) = Inr k"
    "held_position t k = held_position t (cl_positions c) + signed_qty (response_side r) (rs_exec_qty r)"
    using keeper_fill by blast
  show "held_position t (cl_positions c') = held_position t (cl_positions c) + net_fills [r]"
    "cl_gateway c' = cl_gateway c"
    using assms k by (auto simp: handle_response_def net_fills_def response_side_def signed_qty_def Let_def
        split: option.splits ClientResponseType.splits)
qed

lemma net_fills_Cons: "net_fills (r # rs) = net_fills [r] + net_fills rs"
  by (simp add: net_fills_def)

lemma take_responses_yields:
  assumes "yields api rs (cl_gateway c)" "client_ok args c"
  shows "\<exists>c'. take_responses api (ta_ticker args) c = Some (Inr c') \<and> client_ok args c' \<and>
    held_position (ta_ticker args) (cl_positions c') = held_position (ta_ticker args) (cl_positions c) + net_fills rs"
  using assms
proof (induction rs arbitrary: c)
  case Nil
  obtain g where "og_poll api (cl_gateway c) = (None, g)" using Nil.prems(1) by (cases "og_poll api (cl_gateway c)") simp
  then show ?case using Nil.prems(2) by (simp add: take_responses.simps [of api _ c] client_ok_gateway net_fills_def)
next
  case (Cons r rs)
  obtain g where g: "og_poll api (cl_gateway c) = (Some r, g)" "yields api rs g"
    using Cons.prems(1) by (cases "og_poll api (cl_gateway c)") simp
  obtain c1 where c1: "handle_response (ta_ticker args) r (c\<lparr>cl_gateway := g\<rparr>) = Inr c1" "client_ok args c1"
    using client_ok_response [of args "c\<lparr>cl_gateway := g\<rparr>" r] Cons.prems(2) by (auto simp: client_ok_gateway)
  note h = handle_response_position [OF c1(1)]
  then have "yields api rs (cl_gateway c1)" using g(2) by simp
  from Cons.IH [OF this c1(2)] show ?case
    using g(1) c1(1) h by (simp add: take_responses.simps [of api _ c] net_fills_Cons [of r rs] add.assoc)
qed

lemma take_market_data_delivers:
  assumes "delivers api us (md_socket (cl_receiver c))"
  shows "\<exists>c'. take_market_data api t c = Some c' \<and> cl_gateway c' = cl_gateway c \<and>
    held_position t (cl_positions c') = held_position t (cl_positions c)"
  using poll_and_process_delivers [OF assms, of 0 "[]"]
  by (auto simp: take_market_data_def Let_def split: option.splits)

section \<open>What a client has sent\<close>

text \<open>A new order for the configured ticker, in the client's name and of an allowed size.\<close>

definition checked_request :: "TradingArgs \<Rightarrow> ClientRequest \<Rightarrow> bool" where
  "checked_request args rq \<longleftrightarrow> request_type rq = Some RNew \<and> rq_client_id rq = ta_client_id args \<and>
     rq_ticker_id rq = ta_ticker args \<and> rq_side rq \<in> {side_i8 Buy, side_i8 Sell} \<and> rq_qty rq \<le> ta_max_order_qty args"

text \<open>The log of the gateway's socket is the encoding of checked requests, numbered from 1.\<close>

definition sent_log :: "('s \<Rightarrow> u8 list list) \<Rightarrow> TradingArgs \<Rightarrow> ClientRequest list \<Rightarrow> 's TradingClient \<Rightarrow> bool" where
  "sent_log wire args rqs c \<longleftrightarrow>
     wire (tcp_socket (og_socket (cl_gateway c))) = map ClientRequest_as_bytes rqs \<and>
     og_client_id (cl_gateway c) = ta_client_id args \<and> og_next_order_id (cl_gateway c) = of_nat (Suc (length rqs)) \<and>
     cl_orders_sent c = of_nat (length rqs) \<and> list_all (checked_request args) rqs \<and>
     map rq_order_id rqs = map (\<lambda>n. of_nat (Suc n)) [0..<length rqs]"

lemma sent_log_cong:
  "sent_log wire args rqs c \<Longrightarrow> cl_gateway c' = cl_gateway c \<Longrightarrow> cl_orders_sent c' = cl_orders_sent c \<Longrightarrow> sent_log wire args rqs c'"
  by (simp add: sent_log_def)

lemma sent_log_start:
  assumes "Trading_start api resolve args = Some c" "wire (tcp_socket (og_socket (cl_gateway c))) = []"
  shows "sent_log wire args [] c"
  using assms by (auto simp: Trading_start_def sent_log_def OrderGateway_connect_def OrderGateway_of_socket_def
      split: sum.splits prod.splits)

lemma sent_log_market_data:
  assumes "sent_log wire args rqs c" "take_market_data api t c = Some c'"
  shows "sent_log wire args rqs c'"
  by (rule sent_log_cong [OF assms(1)])
    (use assms(2) in \<open>auto simp: take_market_data_def Let_def split: option.splits prod.splits if_splits\<close>)

lemma handle_response_sends:
  "handle_response t r c = Inr c' \<Longrightarrow> cl_gateway c' = cl_gateway c \<and> cl_orders_sent c' = cl_orders_sent c"
  by (auto simp: handle_response_def Let_def split: option.splits ClientResponseType.splits sum.splits)

lemma sent_log_poll:
  assumes "send_logs api wire" "recv_keeps api wire" "sent_log wire args rqs c"
  shows "sent_log wire args rqs (c\<lparr>cl_gateway := snd (og_poll api (cl_gateway c))\<rparr>)"
  using gateway_step_log [OF assms(1,2), of Poll "cl_gateway c"] gateway_step_id [of api Poll "cl_gateway c"] assms(3)
  by (simp add: sent_log_def)

lemma sent_log_responses:
  "take_responses api t c = Some r \<Longrightarrow> send_logs api wire \<Longrightarrow> recv_keeps api wire \<Longrightarrow> sent_log wire args rqs c \<Longrightarrow>
     r = Inr c' \<Longrightarrow> sent_log wire args rqs c'"
proof (induction rule: take_responses.raw_induct [rotated, consumes 1])
  case (1 rec api t c r)
  obtain polled g where p: "og_poll api (cl_gateway c) = (polled, g)" by force
  have log: "sent_log wire args rqs (c\<lparr>cl_gateway := g\<rparr>)" using sent_log_poll [OF "1.prems"(1-3)] p by simp
  show ?case
  proof (cases polled)
    case None
    with 1 p log show ?thesis by auto
  next
    case (Some response)
    then obtain d where d: "handle_response t response (c\<lparr>cl_gateway := g\<rparr>) = Inr d" "rec api t d = Some r"
      using "1.hyps" "1.prems"(4) p by (auto split: sum.splits)
    have "sent_log wire args rqs d" using sent_log_cong [OF log] handle_response_sends [OF d(1)] by simp
    with "1.IH" [OF d(2) "1.prems"(1,2)] "1.prems"(4) show ?thesis by blast
  qed
qed

lemma sent_log_send_new:
  assumes "send_logs api wire" "sent_log wire args rqs c" "or_ticker_id order = ta_ticker args" "or_qty order \<le> ta_max_order_qty args"
  shows "\<exists>rq. sent_log wire args (rqs @ [rq]) (c\<lparr>cl_gateway := snd (send_new_order api now (or_ticker_id order) (or_side order)
    (or_price order) (or_qty order) (cl_gateway c)), cl_orders_sent := cl_orders_sent c + 1\<rparr>)"
  using assms(2-4)
  by (intro exI [of _ "ClientRequest_new RNew (ta_client_id args) (ta_ticker args) (of_nat (Suc (length rqs)))
      (side_i8 (or_side order)) (or_price order) (or_qty order)"])
    (cases "or_side order"; simp add: sent_log_def checked_request_def send_new_order_def TcpSocket_send_log [OF assms(1)]
      ClientRequest_new_def request_type_def ClientRequestType_from_u8_def Let_def)

lemma sent_log_send_all:
  assumes "send_logs api wire" "sent_log wire args rqs c"
    and "\<forall>x \<in> set xs. or_ticker_id (snd x) = ta_ticker args \<and> or_qty (snd x) \<le> ta_max_order_qty args"
  shows "\<exists>rqs'. sent_log wire args (rqs @ rqs') (c\<lparr>cl_gateway := send_all api xs (cl_gateway c),
    cl_orders_sent := cl_orders_sent c + of_nat (length xs)\<rparr>)"
  using assms(2,3)
proof (induction xs arbitrary: rqs c)
  case Nil
  then show ?case by (intro exI [of _ "[]"]) (simp add: send_all_def)
next
  case (Cons x xs)
  obtain now order where x: "x = (now, order)" by (cases x)
  let ?c = "c\<lparr>cl_gateway := snd (send_new_order api now (or_ticker_id order) (or_side order)
    (or_price order) (or_qty order) (cl_gateway c)), cl_orders_sent := cl_orders_sent c + 1\<rparr>"
  from Cons.prems x sent_log_send_new [OF assms(1)] obtain rq where "sent_log wire args (rqs @ [rq]) ?c" by force
  from Cons.IH [OF this] Cons.prems(2) obtain rqs' where
    "sent_log wire args ((rqs @ [rq]) @ rqs') (?c\<lparr>cl_gateway := send_all api xs (cl_gateway ?c),
      cl_orders_sent := cl_orders_sent ?c + of_nat (length xs)\<rparr>)" by auto
  then show ?case by (intro exI [of _ "rq # rqs'"]) (simp add: x send_all_def algebra_simps)
qed

lemma passes_size:
  assumes "passes (client_limits args) p x" "ps_ticker_id p = ta_ticker args"
  shows "or_qty (snd x) \<le> ta_max_order_qty args"
  using assms by (auto simp: passes_def is_allowed_def check_order_def client_limits_def set_limits_def get_limits_def
      RiskLimits_new_def Let_def not_less split: if_splits)

lemma sent_log_cycle:
  assumes "send_logs api wire" "recv_keeps api wire" "client_ok args c" "sent_log wire args rqs c"
    and "client_cycle api args clock c = Some (Inr c')"
  shows "\<exists>rqs'. sent_log wire args (rqs @ rqs') c'"
proof -
  obtain c1 where 1: "take_market_data api (ta_ticker args) c = Some c1"
    using assms(5) by (auto simp: client_cycle_def split: option.splits)
  obtain r2 where r2: "take_responses api (ta_ticker args) c1 = Some r2"
    using assms(5) 1 by (auto simp: client_cycle_def split: option.splits)
  obtain c2 where c2: "r2 = Inr c2" "client_ok args c2"
    using client_ok_responses [OF r2 refl client_ok_market_data [OF assms(3) 1]] by blast
  have log: "sent_log wire args rqs c2"
    using sent_log_responses [OF r2 assms(1,2) sent_log_market_data [OF assms(4) 1] c2(1)] .
  let ?p = "\<lambda>c. get_or (pk_positions (cl_positions c)) (ta_ticker args) (Position_new (ta_ticker args))"
  obtain c3 xs where c3: "run_strategy api clock (ta_ticker args) c2 = Inr c3" "client_ok args c3"
    "cl_gateway c3 = send_all api xs (cl_gateway c2)" "cl_orders_sent c3 = cl_orders_sent c2 + of_nat (length xs)"
    "\<forall>x \<in> set xs. or_ticker_id (snd x) = ta_ticker args \<and> passes (client_limits args) (?p c3) x"
    using run_strategy_sends [OF c2(2), of api clock] unfolding Let_def by blast
  have "ps_ticker_id (?p c3) = ta_ticker args" by (rule keyed_get_or [OF client_ok_keyed [OF c3(2)]])
  with c3(5) passes_size have "\<forall>x \<in> set xs. or_ticker_id (snd x) = ta_ticker args \<and> or_qty (snd x) \<le> ta_max_order_qty args"
    by blast
  from sent_log_send_all [OF assms(1) log this] obtain rqs' where
    "sent_log wire args (rqs @ rqs') (c2\<lparr>cl_gateway := send_all api xs (cl_gateway c2),
      cl_orders_sent := cl_orders_sent c2 + of_nat (length xs)\<rparr>)" by blast
  moreover have "c' = c3\<lparr>cl_stats_interval := cl_stats_interval c3 + 1\<rparr>"
    using assms(5) 1 r2 c2 c3(1) by (simp add: client_cycle_def)
  ultimately have "sent_log wire args (rqs @ rqs') c'" using c3(3,4) by (auto elim!: sent_log_cong)
  then show ?thesis ..
qed

lemma sent_log_loop:
  assumes "send_logs api wire" "recv_keeps api wire"
  shows "client_ok args c \<Longrightarrow> sent_log wire args rqs c \<Longrightarrow> client_loop api args clocks c = Some (Inr c') \<Longrightarrow>
    \<exists>rqs'. sent_log wire args (rqs @ rqs') c'"
proof (induction clocks arbitrary: c rqs)
  case Nil
  then show ?case by (intro exI [of _ "[]"]) simp
next
  case (Cons clock clocks)
  then obtain r1 where r1: "client_cycle api args clock c = Some r1" by (auto split: option.splits)
  obtain c1 where c1: "r1 = Inr c1" "client_ok args c1" using client_ok_cycle [OF Cons.prems(1) r1] by blast
  obtain rqs1 where "sent_log wire args (rqs @ rqs1) c1"
    using sent_log_cycle [OF assms Cons.prems(1,2)] r1 c1(1) by blast
  from Cons.IH [OF c1(2) this] Cons.prems(3) r1 c1(1) show ?case by (auto simp: append_assoc)
qed

section \<open>Properties\<close>

text \<open>C5: every order the client sends passed the risk check against the position it holds. However
  the client got to its state, an iteration of the event loop sends, after the responses are handled,
  only orders for the configured ticker, of at most the configured size, while the position and loss
  are within their limits, and such that the position projected with everything pending stays within
  the limit unless the order reduces the position.\<close>

theorem client_orders_within_limits:
  assumes "Trading_start api resolve args = Some c0" "client_loop api args clocks c0 = Some (Inr c)"
    and "client_cycle api args clock c = Some (Inr c')"
  shows "\<exists>c1 c2 xs. take_market_data api (ta_ticker args) c = Some c1 \<and>
    take_responses api (ta_ticker args) c1 = Some (Inr c2) \<and>
    cl_gateway c' = send_all api xs (cl_gateway c2) \<and> cl_orders_sent c' = cl_orders_sent c2 + of_nat (length xs) \<and>
    (let p = get_or (pk_positions (cl_positions c')) (ta_ticker args) (Position_new (ta_ticker args)) in
     \<forall>(now, order) \<in> set xs. or_ticker_id order = ta_ticker args \<and> or_qty order \<le> ta_max_order_qty args \<and>
       (risk_range (client_limits args) p \<longrightarrow>
          - sint (ta_max_loss args) \<le> sint (Position_total_pnl p) \<and>
          (is_risk_reducing p (or_side order) \<or> \<bar>projected p (or_side order) (or_qty order)\<bar> \<le> sint (ta_max_position args))))"
proof -
  have ok: "client_ok args c" using client_ok_loop [OF client_ok_start [OF assms(1)] assms(2)] by simp
  obtain c1 where c1: "take_market_data api (ta_ticker args) c = Some c1"
    using assms(3) by (auto simp: client_cycle_def split: option.splits)
  obtain r2 where r2: "take_responses api (ta_ticker args) c1 = Some r2"
    using assms(3) c1 by (auto simp: client_cycle_def split: option.splits)
  obtain c2 where c2: "r2 = Inr c2" "client_ok args c2"
    using client_ok_responses [OF r2 refl client_ok_market_data [OF ok c1]] by blast
  obtain c3 xs where c3: "run_strategy api clock (ta_ticker args) c2 = Inr c3" "client_ok args c3"
    "cl_gateway c3 = send_all api xs (cl_gateway c2)" "cl_orders_sent c3 = cl_orders_sent c2 + of_nat (length xs)"
    "let p = get_or (pk_positions (cl_positions c3)) (ta_ticker args) (Position_new (ta_ticker args)) in
       \<forall>x \<in> set xs. or_ticker_id (snd x) = ta_ticker args \<and> passes (client_limits args) p x"
    using run_strategy_sends [OF c2(2), of api clock] unfolding Let_def by blast
  have c': "c' = c3\<lparr>cl_stats_interval := cl_stats_interval c3 + 1\<rparr>"
    using assms(3) c1 r2 c2 c3(1) by (simp add: client_cycle_def)
  let ?p = "get_or (pk_positions (cl_positions c3)) (ta_ticker args) (Position_new (ta_ticker args))"
  have t: "ps_ticker_id ?p = ta_ticker args" by (rule keyed_get_or [OF client_ok_keyed [OF c3(2)]])
  have l: "get_limits (client_limits args) (ta_ticker args) =
      RiskLimits_new (ta_max_order_qty args) (ta_max_position args) (ta_max_loss args) 100"
    by (simp add: client_limits_def set_limits_def get_limits_def)
  have "or_qty order \<le> ta_max_order_qty args \<and> (risk_range (client_limits args) ?p \<longrightarrow>
      - sint (ta_max_loss args) \<le> sint (Position_total_pnl ?p) \<and>
      (is_risk_reducing ?p (or_side order) \<or> \<bar>projected ?p (or_side order) (or_qty order)\<bar> \<le> sint (ta_max_position args)))"
    if "passes (client_limits args) ?p (now, order)" for now order
    using that check_order_cases [of "client_limits args" ?p "or_side order" "or_qty order" "or_price order"]
    by (auto simp: passes_def is_allowed_def check_order_def t l RiskLimits_new_def Let_def not_less split: if_splits)
  then show ?thesis using c1 r2 c2(1) c3(3-5) unfolding c' Let_def
    by (intro exI [of _ c1] exI [of _ c2] exI [of _ xs]) auto
qed

text \<open>A client on scripted sockets that have nothing to deliver.\<close>

lemma default_args: "ta_ticker TradingArgs_default = 1" "ta_max_order_qty TradingArgs_default = 100"
  by (simp_all add: TradingArgs_default_def)

definition example_resolve :: "string \<Rightarrow> u16 \<Rightarrow> socket_addr list io" where
  "example_resolve host port = Inr [SockV4 (127, 0, 0, 1) port]"

lemma example_start:
  "\<exists>c. Trading_start script_api example_resolve TradingArgs_default = Some c \<and>
     delivers script_api [] (md_socket (cl_receiver c)) \<and> yields script_api [] (cl_gateway c)"
proof -
  define s where "s = \<lparr>sc_mode = True, sc_incoming = [], sc_sent = [], sc_pending = []\<rparr>"
  have "MulticastSocket_join_group script_api ''239.255.0.1'' 5000 ''0.0.0.0'' =
      Inr \<lparr>sc_mode = False, sc_incoming = [], sc_sent = [], sc_pending = []\<rparr>"
    by code_simp
  then have r: "MarketDataReceiver_new script_api ''239.255.0.1'' 5000 ''0.0.0.0'' =
      Inr \<lparr>md_socket = s, md_bbo = fmempty, md_subscribers = [], md_last_seq = 0\<rparr>"
    by (simp add: MarketDataReceiver_new_def MulticastSocket_set_nonblocking_def script_api_def s_def)
  have g: "OrderGateway_connect script_api (example_resolve h p) k = Inr (OrderGateway_of_socket (TcpSocket_from_socket s) k)" for h p k
    by (simp add: OrderGateway_connect_def TcpSocket_connect_def TcpSocket_set_nonblocking_def example_resolve_def
        TcpSocket_from_socket_def with_new_def sbind_def script_api_def s_def)
  have "delivers script_api [] s" by (simp add: script_defs s_def)
  moreover have "yields script_api [] (OrderGateway_of_socket (TcpSocket_from_socket s) k)" for k
    by (simp add: og_poll_def OrderGateway_of_socket_def TcpSocket_from_socket_def next_response_def CLIENT_RESPONSE_SIZE_def
        script_defs s_def)
  ultimately show ?thesis using r g
    by (simp add: Trading_start_def TradingArgs_default_def reserve_tickers_def)
qed

text \<open>A market maker on a scripted network that quotes one bid and one ask: after one iteration it has
  sent an order on each side.\<close>

definition quoted_updates :: "MarketUpdate list" where
  "quoted_updates = [MarketUpdate_new UAdd 1 1 1 10000 10 1, MarketUpdate_new UAdd 1 2 (- 1) 10100 10 2]"

definition quoting_api :: "script socket_api" where
  "quoting_api = script_api\<lparr>sk_new := \<lambda>ty. Inr \<lparr>sc_mode = False,
     sc_incoming = (if ty = Datagram4 then map (\<lambda>u. Inr (MarketUpdate_as_bytes u)) quoted_updates else []),
     sc_sent = [], sc_pending = []\<rparr>\<rparr>"

definition quoted_bbo :: BBO where
  "quoted_bbo = \<lparr>bb_bid_price = 10000, bb_bid_qty = 10, bb_ask_price = 10100, bb_ask_qty = 10\<rparr>"

definition quoted_features :: FeatureEngine where
  "quoted_features = on_bbo_update 1 quoted_bbo (fe_reserve_tickers [1] FeatureEngine_new)"

definition quoted_positions :: PositionKeeper where
  "quoted_positions = PositionKeeper_update_market_price 1 10050 PositionKeeper_new"

lemma quoting_logs: "send_logs quoting_api sc_sent" "recv_keeps quoting_api sc_sent"
  by (auto simp: send_logs_def recv_keeps_def quoting_api_def script_api_def split: list.splits)

lemma quotes_sent:
  assumes "cl_features c = quoted_features" "cl_positions c = quoted_positions" "cl_risk c = client_limits TradingArgs_default"
    and "cl_market_maker c = Some (make_market_maker TradingArgs_default)" "cl_liquidity_taker c = None"
    and logs: "send_logs api wire"
  shows "\<exists>c'. run_strategy api (n, n1, n2) 1 c = Inr c' \<and>
    length (wire (tcp_socket (og_socket (cl_gateway c')))) = length (wire (tcp_socket (og_socket (cl_gateway c)))) + 2"
proof -
  let ?f = "\<lparr>tf_ticker_id = 1, tf_fair_value = 10050, tf_spread = 100, tf_mid_price = 10050, tf_imbalance = Fin 0,
    tf_trade_signal = Fin 0\<rparr>"
  let ?pair = "\<lparr>qp_bid = Some \<lparr>or_ticker_id = 1, or_side = Buy, or_price = 10000, or_qty = 100\<rparr>,
    qp_ask = Some \<lparr>or_ticker_id = 1, or_side = Sell, or_price = 10100, or_qty = 100\<rparr>\<rparr>"
  let ?k = "get_position_mut 1 id quoted_positions"
  let ?p = "get_or (pk_positions ?k) 1 (Position_new 1)"
  have f: "get_features quoted_features 1 = Some ?f" by code_simp
  have v: "TickerFeatures_is_valid ?f" by code_simp
  have p: "is_allowed (check_position (client_limits TradingArgs_default) ?p)" by code_simp
  have "map_sum id fst (mm_on_features ?f (make_market_maker TradingArgs_default)) = Inr (Quote ?pair)" by code_simp
  then obtain mm where mm: "mm_on_features ?f (make_market_maker TradingArgs_default) = Inr (Quote ?pair, mm)"
    by (cases "mm_on_features ?f (make_market_maker TradingArgs_default)") auto
  have o: "is_allowed (check_order (client_limits TradingArgs_default) ?p Buy 100 10000)"
    "is_allowed (check_order (client_limits TradingArgs_default) ?p Sell 100 10100)" by code_simp+
  show ?thesis using assms(1-5) f v p mm o
    by (simp add: run_strategy_def choose_action_def execute_action_def try_send_opt_def try_send_def send_new_order_def Let_def
        TcpSocket_send_log [OF logs])
qed

lemma quoting_run:
  "\<exists>c0 c. Trading_start quoting_api example_resolve TradingArgs_default = Some c0 \<and>
     sc_sent (tcp_socket (og_socket (cl_gateway c0))) = [] \<and>
     client_loop quoting_api TradingArgs_default [(Nanos 1, Nanos 2, Nanos 3)] c0 = Some (Inr c) \<and>
     length (sc_sent (tcp_socket (og_socket (cl_gateway c)))) = 2"
proof -
  define s where "s = \<lparr>sc_mode = True, sc_incoming = [] :: u8 list io list, sc_sent = [], sc_pending = []\<rparr>"
  define m where "m = \<lparr>sc_mode = True, sc_incoming = map (\<lambda>u. Inr (MarketUpdate_as_bytes u)) quoted_updates, sc_sent = [], sc_pending = []\<rparr>"
  have addr: "parse_ipv4 ''239.255.0.1'' = Some (239, 255, 0, 1)" "parse_ipv4 ''0.0.0.0'' = Some (0, 0, 0, 0)" by code_simp+
  let ?r = "\<lparr>md_socket = m, md_bbo = fmempty, md_subscribers = [], md_last_seq = 0\<rparr>"
  let ?g = "OrderGateway_of_socket (TcpSocket_from_socket s) 1"
  have r: "MarketDataReceiver_new quoting_api ''239.255.0.1'' 5000 ''0.0.0.0'' = Inr ?r"
    by (simp add: MarketDataReceiver_new_def MulticastSocket_join_group_def MulticastSocket_set_nonblocking_def addr addr_or_err_def
        with_new_def sbind_def sret_def is_multicast_def quoting_api_def script_api_def m_def)
  have g: "OrderGateway_connect quoting_api (example_resolve h p) k = Inr (OrderGateway_of_socket (TcpSocket_from_socket s) k)" for h p k
    by (simp add: OrderGateway_connect_def TcpSocket_connect_def TcpSocket_set_nonblocking_def example_resolve_def
        TcpSocket_from_socket_def with_new_def sbind_def quoting_api_def script_api_def s_def)
  define c0 where "c0 = \<lparr>cl_receiver = reserve_tickers [1] ?r, cl_gateway = ?g,
    cl_features = fe_reserve_tickers [1] FeatureEngine_new, cl_positions = PositionKeeper_new,
    cl_risk = client_limits TradingArgs_default, cl_market_maker = Some (make_market_maker TradingArgs_default),
    cl_liquidity_taker = None, cl_stats_interval = 0, cl_orders_sent = 0, cl_fills_received = 0\<rparr>"
  have start: "Trading_start quoting_api example_resolve TradingArgs_default = Some c0"
    using r g by (simp add: Trading_start_def TradingArgs_default_def c0_def)
  have "delivers quoting_api quoted_updates (md_socket (cl_receiver c0))"
    by (simp add: c0_def reserve_tickers_def m_def quoted_updates_def quoting_api_def script_defs)
  from poll_and_process_delivers [OF this, of 0 "[]"] obtain calls r' where
    poll: "poll_and_process quoting_api (cl_receiver c0) 0 [] = Some (2, calls, r')"
      "md_bbo r' = md_bbo (process_all quoted_updates (cl_receiver c0))" by (auto simp: quoted_updates_def)
  let ?e = "\<lparr>sc_mode = True, sc_incoming = [], sc_sent = [], sc_pending = []\<rparr>"
  have "fmlookup (md_bbo (process_all quoted_updates (reserve_tickers [1]
      \<lparr>md_socket = ?e, md_bbo = fmempty, md_subscribers = [], md_last_seq = 0\<rparr>))) 1 = Some quoted_bbo" by code_simp
  then have "get_bbo r' 1 = Some quoted_bbo"
    using poll(2) process_all_socket [where us = quoted_updates and s = ?e and r = "cl_receiver c0"] by (simp add: get_bbo_def c0_def reserve_tickers_def)
  moreover have "BBO_is_valid quoted_bbo" "trunc_div (bb_bid_price quoted_bbo + bb_ask_price quoted_bbo) 2 = 10050" by code_simp+
  ultimately have md: "take_market_data quoting_api 1 c0 =
      Some (c0\<lparr>cl_receiver := r', cl_features := quoted_features, cl_positions := quoted_positions\<rparr>)" (is "_ = Some ?c1")
    using poll(1) by (simp add: take_market_data_def quoted_features_def quoted_positions_def c0_def)
  have "og_poll quoting_api ?g = (None, ?g)"
    by (simp add: og_poll_def OrderGateway_of_socket_def TcpSocket_from_socket_def next_response_def CLIENT_RESPONSE_SIZE_def
        quoting_api_def script_defs s_def)
  then have rs: "take_responses quoting_api 1 ?c1 = Some (Inr ?c1)"
    by (subst take_responses.simps) (simp add: c0_def)
  have fresh: "sc_sent (tcp_socket (og_socket (cl_gateway c0))) = []"
    by (simp add: c0_def OrderGateway_of_socket_def TcpSocket_from_socket_def s_def)
  obtain c where c: "run_strategy quoting_api (Nanos 1, Nanos 2, Nanos 3) 1 ?c1 = Inr c"
    "length (sc_sent (tcp_socket (og_socket (cl_gateway c)))) = 2"
    using quotes_sent [where c = ?c1 and wire = sc_sent, OF _ _ _ _ _ quoting_logs(1), of "Nanos 1" "Nanos 2" "Nanos 3"] fresh
    by (auto simp: c0_def)
  then have "client_loop quoting_api TradingArgs_default [(Nanos 1, Nanos 2, Nanos 3)] c0 =
      Some (Inr (c\<lparr>cl_stats_interval := cl_stats_interval c + 1\<rparr>))"
    using md rs by (simp add: client_cycle_def default_args)
  moreover have "length (sc_sent (tcp_socket (og_socket (cl_gateway (c\<lparr>cl_stats_interval := cl_stats_interval c + 1\<rparr>))))) = 2"
    using c(2) by simp
  ultimately show ?thesis using start fresh by blast
qed
text \<open>C19: the client never panics: whatever market data and responses arrive, however long the
  event loop runs, no iteration ends in a panic.\<close>

theorem client_never_panics:
  assumes "Trading_start api resolve args = Some c"
  shows "client_loop api args clocks c \<noteq> Some (Inl f)"
  using client_ok_loop [OF client_ok_start [OF assms]] by fastforce

text \<open>C11: an iteration of the event loop ends once the sockets run dry, and the position is exact:
  after responses \<open>rs\<close> the position held is the earlier one plus the net of the fills in \<open>rs\<close>, and
  the strategy works with exactly this position.\<close>

theorem client_cycle_completes:
  assumes "Trading_start api resolve args = Some c0" "client_loop api args clocks c0 = Some (Inr c)"
    and "delivers api us (md_socket (cl_receiver c))" "yields api rs (cl_gateway c)"
  shows "\<exists>c'. client_cycle api args clock c = Some (Inr c') \<and>
    held_position (ta_ticker args) (cl_positions c') = held_position (ta_ticker args) (cl_positions c) + net_fills rs \<and>
    pred_option (\<lambda>mm. mk_current_position mm = held_position (ta_ticker args) (cl_positions c')) (cl_market_maker c') \<and>
    pred_option (\<lambda>lt. tk_current_position lt = held_position (ta_ticker args) (cl_positions c')) (cl_liquidity_taker c')"
proof -
  let ?h = "\<lambda>c. held_position (ta_ticker args) (cl_positions c)"
  have ok: "client_ok args c" using client_ok_loop [OF client_ok_start [OF assms(1)] assms(2)] by simp
  obtain c1 where c1: "take_market_data api (ta_ticker args) c = Some c1" "cl_gateway c1 = cl_gateway c" "?h c1 = ?h c"
    using take_market_data_delivers [OF assms(3)] by blast
  have "yields api rs (cl_gateway c1)" using assms(4) c1(2) by simp
  then obtain c2 where c2: "take_responses api (ta_ticker args) c1 = Some (Inr c2)" "client_ok args c2" "?h c2 = ?h c1 + net_fills rs"
    using take_responses_yields client_ok_market_data [OF ok c1(1)] by blast
  obtain c3 where c3: "run_strategy api clock (ta_ticker args) c2 = Inr c3" "client_ok args c3" "?h c3 = ?h c2"
    using run_strategy_sends [OF c2(2)] by blast
  show ?thesis using c1 c2 c3
    by (auto simp: client_cycle_def client_ok_def option.pred_set)
qed

theorem client_never_panics_witness:
  "\<exists>c. Trading_start script_api example_resolve TradingArgs_default = Some c \<and>
     client_loop script_api TradingArgs_default [(Nanos 1, Nanos 2, Nanos 3), (Nanos 4, Nanos 5, Nanos 6)] c \<noteq> Some (Inl Division_Panic)"
  using example_start client_never_panics by blast

theorem client_cycle_completes_witness:
  "\<exists>c c'. Trading_start script_api example_resolve TradingArgs_default = Some c \<and>
     client_cycle script_api TradingArgs_default (Nanos 1, Nanos 2, Nanos 3) c = Some (Inr c') \<and>
     held_position 1 (cl_positions c') = held_position 1 (cl_positions c)"
proof -
  obtain c where c: "Trading_start script_api example_resolve TradingArgs_default = Some c"
    "delivers script_api [] (md_socket (cl_receiver c))" "yields script_api [] (cl_gateway c)"
    using example_start by blast
  have "client_loop script_api TradingArgs_default [] c = Some (Inr c)" by simp
  from client_cycle_completes [OF c(1) this c(2,3), of "(Nanos 1, Nanos 2, Nanos 3)"] c(1) show ?thesis
    by (auto simp: net_fills_def default_args)
qed

theorem client_orders_within_limits_witness:
  "\<exists>c c' c1 c2 xs. Trading_start script_api example_resolve TradingArgs_default = Some c \<and>
     client_cycle script_api TradingArgs_default (Nanos 1, Nanos 2, Nanos 3) c = Some (Inr c') \<and>
     take_market_data script_api 1 c = Some c1 \<and> take_responses script_api 1 c1 = Some (Inr c2) \<and>
     cl_gateway c' = send_all script_api xs (cl_gateway c2) \<and> (\<forall>x \<in> set xs. or_qty (snd x) \<le> 100)"
proof -
  obtain c where c: "Trading_start script_api example_resolve TradingArgs_default = Some c"
    "delivers script_api [] (md_socket (cl_receiver c))" "yields script_api [] (cl_gateway c)"
    using example_start by blast
  have l: "client_loop script_api TradingArgs_default [] c = Some (Inr c)" by simp
  obtain c1 where c1: "take_market_data script_api 1 c = Some c1" "cl_gateway c1 = cl_gateway c"
    using take_market_data_delivers [OF c(2)] by blast
  have ok: "client_ok TradingArgs_default c1"
    by (rule client_ok_market_data [OF client_ok_start [OF c(1)]]) (use c1 in \<open>simp add: default_args\<close>)
  then obtain c2 where c2: "take_responses script_api 1 c1 = Some (Inr c2)" "client_ok TradingArgs_default c2"
    using take_responses_yields [of script_api "[]" c1 TradingArgs_default] c(3) c1(2) by (auto simp: default_args)
  obtain c3 where "run_strategy script_api (Nanos 1, Nanos 2, Nanos 3) 1 c2 = Inr c3"
    using run_strategy_sends [OF c2(2), of script_api "(Nanos 1, Nanos 2, Nanos 3)"] by (auto simp: default_args)
  then obtain c' where c': "client_cycle script_api TradingArgs_default (Nanos 1, Nanos 2, Nanos 3) c = Some (Inr c')"
    using c1(1) c2(1) by (simp add: client_cycle_def default_args)
  from client_orders_within_limits [OF c(1) l c'] obtain d1 d2 xs where
    "take_market_data script_api 1 c = Some d1" "take_responses script_api 1 d1 = Some (Inr d2)"
    "cl_gateway c' = send_all script_api xs (cl_gateway d2)" "\<forall>x \<in> set xs. or_qty (snd x) \<le> 100"
    unfolding Let_def default_args split_beta by blast
  with c(1) c' show ?thesis by blast
qed

text \<open>A fill does not take the filled quantity out of the open orders: an order that was accepted and
  then filled counts twice in the exposure of its side.\<close>

lemma accepted_then_filled_counts_twice:
  assumes "response_type a = Some Accepted" "response_type f = Some Filled" "rs_side a = 1" "rs_side f = 1"
    and "rs_leaves_qty a = q" "rs_exec_qty f = q" "cl_positions c = PositionKeeper_new"
    and "handle_response t a c = Inr c1" "handle_response t f c1 = Inr c2"
  shows "max_long_exposure (get_or (pk_positions (cl_positions c2)) t (Position_new t)) = ucast q + ucast q"
  using assms(8,9)
  by (auto simp: assms(1-7) handle_response_def response_side_def PositionKeeper_on_fill_def get_position_mut_def
      PositionKeeper_new_def recalculate_total_pnl_def Position_new_def add_open_order_def on_fill_def signed_qty_def
      max_long_exposure_def update_unrealized_pnl_def Let_def split: sum.splits if_splits)

end
