(* ===== verification/TradeEngine.thy ===== *)
theory TradeEngine
  imports Strategies Risk Time
begin

text \<open>
  The trade engine, \<open>trading/src/trade_engine.rs\<close>: it keeps quotes, features, positions and its
  own pending orders, sends orders that pass the risk check through a callback, and follows them
  by the responses of the exchange. The two callbacks are closures over a state \<open>'w\<close> the engine
  does not look into; the state is a field of the model, so that the order of the calls is
  visible. Clock readings and the iteration order of the pending orders are arguments.
\<close>

section \<open>The model\<close>

record TradeEngineConfig =
  tc_client_id :: ClientId
  tc_tickers :: "TickerId list"
  tc_enable_risk_checks :: bool
  tc_max_events_per_cycle :: usize

definition TradeEngineConfig_default :: TradeEngineConfig where
  "TradeEngineConfig_default =
     \<lparr>tc_client_id = 1, tc_tickers = [], tc_enable_risk_checks = True, tc_max_events_per_cycle = 100\<rparr>"

definition TradeEngineConfig_new :: "ClientId \<Rightarrow> TradeEngineConfig" where
  "TradeEngineConfig_new client_id = TradeEngineConfig_default\<lparr>tc_client_id := client_id\<rparr>"

definition with_tickers :: "TickerId list \<Rightarrow> TradeEngineConfig \<Rightarrow> TradeEngineConfig" where
  "with_tickers tickers c = c\<lparr>tc_tickers := tickers\<rparr>"

definition with_risk_checks :: "bool \<Rightarrow> TradeEngineConfig \<Rightarrow> TradeEngineConfig" where
  "with_risk_checks enabled c = c\<lparr>tc_enable_risk_checks := enabled\<rparr>"

definition with_max_events_per_cycle :: "usize \<Rightarrow> TradeEngineConfig \<Rightarrow> TradeEngineConfig" where
  "with_max_events_per_cycle n c = c\<lparr>tc_max_events_per_cycle := n\<rparr>"

record TradeEngineStats =
  market_updates_processed :: u64
  responses_processed :: u64
  orders_submitted :: u64
  orders_rejected_risk :: u64
  fills_received :: u64
  strategy_cycles :: u64
  total_cycles :: u64

definition TradeEngineStats_new :: TradeEngineStats where
  "TradeEngineStats_new =
     \<lparr>market_updates_processed = 0, responses_processed = 0, orders_submitted = 0, orders_rejected_risk = 0,
      fills_received = 0, strategy_cycles = 0, total_cycles = 0\<rparr>"

definition TradeEngineStats_reset :: "TradeEngineStats \<Rightarrow> TradeEngineStats" where
  "TradeEngineStats_reset s = TradeEngineStats_new"

record TrackedOrder =
  to_order_id :: OrderId
  to_ticker_id :: TickerId
  to_side :: Side
  to_price :: Price
  to_original_qty :: Qty
  to_leaves_qty :: Qty
  to_sent_time :: Nanos

type_synonym 'w OrderSubmitCallback = "TickerId \<Rightarrow> Side \<Rightarrow> Price \<Rightarrow> Qty \<Rightarrow> 'w \<Rightarrow> OrderId \<times> 'w"

type_synonym 'w OrderCancelCallback = "OrderId \<Rightarrow> TickerId \<Rightarrow> 'w \<Rightarrow> 'w"

record 'w TradeEngine =
  te_config :: TradeEngineConfig
  te_feature_engine :: FeatureEngine
  te_risk_manager :: RiskManager
  te_position_keeper :: PositionKeeper
  te_bbo_state :: "(TickerId, BBO) fmap"
  te_pending_orders :: "(OrderId, TrackedOrder) fmap"
  te_open_order_count :: "(TickerId, u32) fmap"
  te_order_submit_callback :: "'w OrderSubmitCallback option"
  te_order_cancel_callback :: "'w OrderCancelCallback option"
  te_stats :: TradeEngineStats
  te_running :: bool
  te_world :: 'w

text \<open>The preparation of the configured tickers, common to \<open>new\<close> and \<open>reset\<close>.\<close>

definition reserve :: "TickerId list \<Rightarrow> 'w TradeEngine \<Rightarrow> 'w TradeEngine" where
  "reserve tickers e =
     e\<lparr>te_feature_engine := fe_reserve_tickers tickers (te_feature_engine e),
       te_bbo_state := fold (\<lambda>t. fmupd t BBO_new) tickers (te_bbo_state e),
       te_open_order_count := fold (\<lambda>t. fmupd t 0) tickers (te_open_order_count e)\<rparr>"

definition TradeEngine_new :: "TradeEngineConfig \<Rightarrow> 'w \<Rightarrow> 'w TradeEngine" where
  "TradeEngine_new config w =
     reserve (tc_tickers config)
       \<lparr>te_config = config, te_feature_engine = FeatureEngine_new, te_risk_manager = RiskManager_new,
        te_position_keeper = PositionKeeper_new, te_bbo_state = fmempty, te_pending_orders = fmempty,
        te_open_order_count = fmempty, te_order_submit_callback = None, te_order_cancel_callback = None,
        te_stats = TradeEngineStats_new, te_running = False, te_world = w\<rparr>"

definition TradeEngine_with_defaults :: "ClientId \<Rightarrow> 'w \<Rightarrow> 'w TradeEngine" where
  "TradeEngine_with_defaults client_id w = TradeEngine_new (TradeEngineConfig_new client_id) w"

definition set_order_submit_callback :: "'w OrderSubmitCallback \<Rightarrow> 'w TradeEngine \<Rightarrow> 'w TradeEngine" where
  "set_order_submit_callback callback e = e\<lparr>te_order_submit_callback := Some callback\<rparr>"

definition set_order_cancel_callback :: "'w OrderCancelCallback \<Rightarrow> 'w TradeEngine \<Rightarrow> 'w TradeEngine" where
  "set_order_cancel_callback callback e = e\<lparr>te_order_cancel_callback := Some callback\<rparr>"

text \<open>The accessors that hand out a mutable reference: the caller's change through it.\<close>

definition risk_manager_mut :: "(RiskManager \<Rightarrow> RiskManager) \<Rightarrow> 'w TradeEngine \<Rightarrow> 'w TradeEngine" where
  "risk_manager_mut f e = e\<lparr>te_risk_manager := f (te_risk_manager e)\<rparr>"

definition feature_engine_mut :: "(FeatureEngine \<Rightarrow> FeatureEngine) \<Rightarrow> 'w TradeEngine \<Rightarrow> 'w TradeEngine" where
  "feature_engine_mut f e = e\<lparr>te_feature_engine := f (te_feature_engine e)\<rparr>"

definition position_keeper_mut :: "(PositionKeeper \<Rightarrow> PositionKeeper) \<Rightarrow> 'w TradeEngine \<Rightarrow> 'w TradeEngine" where
  "position_keeper_mut f e = e\<lparr>te_position_keeper := f (te_position_keeper e)\<rparr>"

definition te_start :: "'w TradeEngine \<Rightarrow> 'w TradeEngine" where
  "te_start e = e\<lparr>te_running := True\<rparr>"

definition te_stop :: "'w TradeEngine \<Rightarrow> 'w TradeEngine" where
  "te_stop e = e\<lparr>te_running := False\<rparr>"

text \<open>The changes of one counter.\<close>

definition bump :: "((u64 \<Rightarrow> u64) \<Rightarrow> TradeEngineStats \<Rightarrow> TradeEngineStats) \<Rightarrow> 'w TradeEngine \<Rightarrow> 'w TradeEngine" where
  "bump upd e = e\<lparr>te_stats := upd (\<lambda>n. n + 1) (te_stats e)\<rparr>"

text \<open>The match on the update type is that of the market data receiver; on a trade the position
  is also marked to the price.\<close>

definition on_market_update :: "MarketUpdate \<Rightarrow> 'w TradeEngine \<Rightarrow> TickerId option \<times> 'w TradeEngine" where
  "on_market_update update e =
     (let ticker_id = mu_ticker_id update;
          bbo = get_or (te_bbo_state e) ticker_id BBO_new;
          bbo = (case update_type update of Some ty \<Rightarrow> update_bbo ty update bbo | None \<Rightarrow> bbo);
          e = e\<lparr>te_bbo_state := fmupd ticker_id bbo (te_bbo_state e)\<rparr>;
          e = (if update_type update = Some UTrade
               then e\<lparr>te_position_keeper :=
                 PositionKeeper_update_market_price ticker_id (mu_price update) (te_position_keeper e)\<rparr>
               else e);
          e = e\<lparr>te_feature_engine := on_bbo_update ticker_id bbo (te_feature_engine e)\<rparr>
      in (Some ticker_id, bump market_updates_processed_update e))"

definition te_update_bbo :: "TickerId \<Rightarrow> BBO \<Rightarrow> 'w TradeEngine \<Rightarrow> 'w TradeEngine" where
  "te_update_bbo ticker_id bbo e =
     (let e = e\<lparr>te_bbo_state := fmupd ticker_id bbo (te_bbo_state e),
                te_feature_engine := on_bbo_update ticker_id bbo (te_feature_engine e)\<rparr>
      in case mid_price bbo of
           Some mid \<Rightarrow> e\<lparr>te_position_keeper := PositionKeeper_update_market_price ticker_id mid (te_position_keeper e)\<rparr>
         | None \<Rightarrow> e)"

definition te_get_bbo :: "'w TradeEngine \<Rightarrow> TickerId \<Rightarrow> BBO option" where
  "te_get_bbo e ticker_id = fmlookup (te_bbo_state e) ticker_id"

definition lower_count :: "TickerId \<Rightarrow> 'w TradeEngine \<Rightarrow> 'w TradeEngine" where
  "lower_count ticker_id e =
     e\<lparr>te_open_order_count :=
         fmupd ticker_id (saturating_sub (get_or (te_open_order_count e) ticker_id 0) 1) (te_open_order_count e)\<rparr>"

text \<open>The common end of a cancellation and of a rejection.\<close>

definition drop_order :: "ClientResponse \<Rightarrow> 'w TradeEngine \<Rightarrow> 'w TradeEngine" where
  "drop_order response e =
     (case fmlookup (te_pending_orders e) (rs_client_order_id response) of
        Some order \<Rightarrow>
          lower_count (rs_ticker_id response)
            (e\<lparr>te_pending_orders := fmdrop (rs_client_order_id response) (te_pending_orders e),
               te_position_keeper := get_position_mut (rs_ticker_id response)
                 (remove_open_order (to_side order) (to_leaves_qty order)) (te_position_keeper e)\<rparr>)
      | None \<Rightarrow> e)"

text \<open>The first half of a fill, the position, and the second, the tracked order.\<close>

definition book_fill :: "ClientResponse \<Rightarrow> 'w TradeEngine \<Rightarrow> 'w TradeEngine outcome" where
  "book_fill response e =
     (case fmlookup (te_pending_orders e) (rs_client_order_id response) of
        Some order \<Rightarrow>
          (case PositionKeeper_on_fill (rs_ticker_id response) (to_side order) (rs_exec_qty response)
                  (rs_price response) (te_position_keeper e) of
             Inl f \<Rightarrow> Inl f
           | Inr k \<Rightarrow>
               Inr (bump fills_received_update
                 (e\<lparr>te_position_keeper := get_position_mut (rs_ticker_id response)
                      (remove_open_order (to_side order) (rs_exec_qty response)) k\<rparr>)))
      | None \<Rightarrow> Inr e)"

definition settle_fill :: "ClientResponse \<Rightarrow> 'w TradeEngine \<Rightarrow> 'w TradeEngine" where
  "settle_fill response e =
     (if rs_leaves_qty response = 0
      then lower_count (rs_ticker_id response)
             (e\<lparr>te_pending_orders := fmdrop (rs_client_order_id response) (te_pending_orders e)\<rparr>)
      else case fmlookup (te_pending_orders e) (rs_client_order_id response) of
             Some order \<Rightarrow>
               e\<lparr>te_pending_orders := fmupd (rs_client_order_id response)
                   (order\<lparr>to_leaves_qty := rs_leaves_qty response\<rparr>) (te_pending_orders e)\<rparr>
           | None \<Rightarrow> e)"

definition on_response :: "ClientResponse \<Rightarrow> 'w TradeEngine \<Rightarrow> 'w TradeEngine outcome" where
  "on_response response e =
     (let e = bump responses_processed_update e in
      case response_type response of
        None \<Rightarrow> Inr e
      | Some Accepted \<Rightarrow> Inr e
      | Some Filled \<Rightarrow> map_sum id (settle_fill response) (book_fill response e)
      | Some Canceled \<Rightarrow> Inr (drop_order response e)
      | Some CancelRejected \<Rightarrow> Inr (drop_order response e)
      | Some InvalidRequest \<Rightarrow> Inr (drop_order response e))"

definition pending_order_count :: "'w TradeEngine \<Rightarrow> TickerId \<Rightarrow> u32" where
  "pending_order_count e ticker_id = get_or (te_open_order_count e) ticker_id 0"

definition check_order_risk :: "'w TradeEngine \<Rightarrow> TickerId \<Rightarrow> Side \<Rightarrow> Price \<Rightarrow> Qty \<Rightarrow> RiskCheckResult" where
  "check_order_risk e ticker_id side price qty =
     (if \<not> tc_enable_risk_checks (te_config e) then Allowed
      else let position = get_or (pk_positions (te_position_keeper e)) ticker_id (Position_new ticker_id);
               open_orders = get_or (te_open_order_count e) ticker_id 0
           in check_order_with_open_orders (te_risk_manager e) position side qty price open_orders)"

text \<open>The call of the submission callback, or the placeholder id.\<close>

definition assign_id :: "TickerId \<Rightarrow> Side \<Rightarrow> Price \<Rightarrow> Qty \<Rightarrow> 'w TradeEngine \<Rightarrow> OrderId \<times> 'w" where
  "assign_id ticker_id side price qty e =
     (case te_order_submit_callback e of
        Some callback \<Rightarrow> callback ticker_id side price qty (te_world e)
      | None \<Rightarrow> (orders_submitted (te_stats e) + 1, te_world e))"

definition submit_order :: "Nanos \<Rightarrow> TickerId \<Rightarrow> Side \<Rightarrow> Price \<Rightarrow> Qty \<Rightarrow> 'w TradeEngine \<Rightarrow>
    (RiskCheckResult + OrderId) \<times> 'w TradeEngine" where
  "submit_order now ticker_id side price qty e =
     (let risk_result = check_order_risk e ticker_id side price qty in
      if \<not> is_allowed risk_result then (Inl risk_result, bump orders_rejected_risk_update e)
      else case assign_id ticker_id side price qty e of (order_id, w) \<Rightarrow>
        let tracked = \<lparr>to_order_id = order_id, to_ticker_id = ticker_id, to_side = side, to_price = price,
                       to_original_qty = qty, to_leaves_qty = qty, to_sent_time = now\<rparr>;
            e = e\<lparr>te_world := w, te_pending_orders := fmupd order_id tracked (te_pending_orders e)\<rparr>;
            e = e\<lparr>te_open_order_count :=
                    fmupd ticker_id (get_or (te_open_order_count e) ticker_id 0 + 1) (te_open_order_count e)\<rparr>;
            e = e\<lparr>te_position_keeper := get_position_mut ticker_id (add_open_order side qty) (te_position_keeper e)\<rparr>
        in (Inr order_id, bump orders_submitted_update e))"

definition te_cancel_order :: "OrderId \<Rightarrow> 'w TradeEngine \<Rightarrow> 'w TradeEngine" where
  "te_cancel_order order_id e =
     (case fmlookup (te_pending_orders e) order_id of
        Some order \<Rightarrow>
          (case te_order_cancel_callback e of
             Some callback \<Rightarrow> e\<lparr>te_world := callback order_id (to_ticker_id order) (te_world e)\<rparr>
           | None \<Rightarrow> e)
      | None \<Rightarrow> e)"

definition has_ticker :: "TickerId \<Rightarrow> 'w TradeEngine \<Rightarrow> OrderId \<Rightarrow> bool" where
  "has_ticker ticker_id e order_id \<longleftrightarrow>
     (case fmlookup (te_pending_orders e) order_id of Some order \<Rightarrow> to_ticker_id order = ticker_id | None \<Rightarrow> False)"

definition cancel_all_orders :: "OrderId list \<Rightarrow> TickerId \<Rightarrow> 'w TradeEngine \<Rightarrow> 'w TradeEngine" where
  "cancel_all_orders iter ticker_id e =
     (let order_ids = filter (has_ticker ticker_id e) iter in fold te_cancel_order order_ids e)"

definition get_pending_order :: "'w TradeEngine \<Rightarrow> OrderId \<Rightarrow> TrackedOrder option" where
  "get_pending_order e order_id = fmlookup (te_pending_orders e) order_id"

definition total_pending_orders :: "'w TradeEngine \<Rightarrow> nat" where
  "total_pending_orders e = hm_len (te_pending_orders e)"

definition process_order_request :: "Nanos \<Rightarrow> OrderRequest \<Rightarrow> 'w TradeEngine \<Rightarrow>
    (RiskCheckResult + OrderId) \<times> 'w TradeEngine" where
  "process_order_request now request e =
     submit_order now (or_ticker_id request) (or_side request) (or_price request) (or_qty request) e"

text \<open>One order of an action, and the result pushed for it. Each order reads the clock.\<close>

definition attempt :: "Nanos \<Rightarrow> OrderRequest \<Rightarrow> 'w TradeEngine \<Rightarrow>
    (OrderId option \<times> RiskCheckResult) \<times> 'w TradeEngine" where
  "attempt now request e =
     (case submit_order now (or_ticker_id request) (or_side request) (or_price request) (or_qty request) e of
        (Inr order_id, e) \<Rightarrow> ((Some order_id, Allowed), e)
      | (Inl risk, e) \<Rightarrow> ((None, risk), e))"

definition attempt_opt :: "Nanos \<Rightarrow> OrderRequest option \<Rightarrow> 'w TradeEngine \<Rightarrow>
    (OrderId option \<times> RiskCheckResult) list \<times> 'w TradeEngine" where
  "attempt_opt now r e =
     (case r of Some request \<Rightarrow> (case attempt now request e of (x, e) \<Rightarrow> ([x], e)) | None \<Rightarrow> ([], e))"

definition process_strategy_action :: "Nanos \<Rightarrow> Nanos \<Rightarrow> OrderId list \<Rightarrow> StrategyAction \<Rightarrow> 'w TradeEngine \<Rightarrow>
    (OrderId option \<times> RiskCheckResult) list \<times> 'w TradeEngine" where
  "process_strategy_action now1 now2 iter action e =
     (case (case action of
              NoAction \<Rightarrow> ([], e)
            | Quote pair \<Rightarrow>
                (case attempt_opt now1 (qp_bid pair) e of (r1, e) \<Rightarrow>
                 case attempt_opt now2 (qp_ask pair) e of (r2, e) \<Rightarrow> (r1 @ r2, e))
            | Take order \<Rightarrow> attempt_opt now1 (Some order) e
            | CancelAll ticker_id \<Rightarrow> ([], cancel_all_orders iter ticker_id e))
      of (results, e) \<Rightarrow> (results, bump strategy_cycles_update e))"

definition te_get_features :: "'w TradeEngine \<Rightarrow> TickerId \<Rightarrow> TickerFeatures option" where
  "te_get_features e ticker_id = get_features (te_feature_engine e) ticker_id"

definition te_get_position :: "'w TradeEngine \<Rightarrow> TickerId \<Rightarrow> Position option" where
  "te_get_position e ticker_id = get_position (te_position_keeper e) ticker_id"

text \<open>The loops of \<open>run_cycle\<close>: an iterator is its state and a \<open>next\<close> function; \<open>take\<close> asks it at
  most \<open>n\<close> times and stops at the first \<open>None\<close>. The result counts the events.\<close>

fun for_each_take :: "('i \<Rightarrow> 'a option \<times> 'i) \<Rightarrow> ('a \<Rightarrow> 's \<Rightarrow> 's outcome) \<Rightarrow> nat \<Rightarrow> 'i \<Rightarrow> 's \<Rightarrow> (nat \<times> 's) outcome" where
  "for_each_take nxt body 0 it s = Inr (0, s)"
| "for_each_take nxt body (Suc n) it s =
     (case nxt it of
        (None, it) \<Rightarrow> Inr (0, s)
      | (Some a, it) \<Rightarrow>
          (case body a s of
             Inl f \<Rightarrow> Inl f
           | Inr s \<Rightarrow> map_sum id (map_prod Suc id) (for_each_take nxt body n it s)))"

definition run_cycle :: "('i \<Rightarrow> ClientResponse option \<times> 'i) \<Rightarrow> ('j \<Rightarrow> MarketUpdate option \<times> 'j) \<Rightarrow>
    'i \<Rightarrow> 'j \<Rightarrow> 'w TradeEngine \<Rightarrow> (nat \<times> 'w TradeEngine) outcome" where
  "run_cycle next_response next_update responses market_updates e =
     (if \<not> te_running e then Inr (0, e)
      else let max_events = unat (tc_max_events_per_cycle (te_config e)) in
        case for_each_take next_response on_response max_events responses e of
          Inl f \<Rightarrow> Inl f
        | Inr (n, e) \<Rightarrow>
            (case for_each_take next_update (\<lambda>u e. Inr (snd (on_market_update u e))) (max_events - n) market_updates e of
               Inl f \<Rightarrow> Inl f
             | Inr (m, e) \<Rightarrow> Inr (n + m, bump total_cycles_update e)))"

definition te_reset :: "'w TradeEngine \<Rightarrow> 'w TradeEngine" where
  "te_reset e =
     reserve (tc_tickers (te_config e))
       (e\<lparr>te_feature_engine := fe_clear (te_feature_engine e), te_bbo_state := fmempty,
          te_pending_orders := fmempty, te_open_order_count := fmempty,
          te_stats := TradeEngineStats_reset (te_stats e)\<rparr>)"

section \<open>Pending orders, counted\<close>

text \<open>The sum of a weight over the tracked orders: with weight one it counts the orders of a
  ticker, with the remaining quantity it gives what is open on a side.\<close>

definition tally :: "(TrackedOrder \<Rightarrow> nat) \<Rightarrow> (OrderId, TrackedOrder) fmap \<Rightarrow> nat" where
  "tally w m = (\<Sum>k \<in> fmdom' m. w (the (fmlookup m k)))"

definition one_of :: "TickerId \<Rightarrow> TrackedOrder \<Rightarrow> nat" where
  "one_of t order = of_bool (to_ticker_id order = t)"

definition leaves_of :: "TickerId \<Rightarrow> Side \<Rightarrow> TrackedOrder \<Rightarrow> nat" where
  "leaves_of t side order = (if to_ticker_id order = t \<and> to_side order = side then unat (to_leaves_qty order) else 0)"

lemma tally_empty [simp]: "tally w fmempty = 0"
  by (simp add: tally_def)

lemma tally_split:
  assumes "fmlookup m k = Some v"
  shows "tally w m = w v + (\<Sum>j \<in> fmdom' m - {k}. w (the (fmlookup m j)))"
proof -
  have "k \<in> fmdom' m" using assms by (auto simp: fmlookup_dom'_iff)
  then show ?thesis unfolding tally_def using assms by (subst sum.remove [of _ k]) simp_all
qed

lemma tally_fmupd: "tally w (fmupd k v m) = w v + (\<Sum>j \<in> fmdom' m - {k}. w (the (fmlookup m j)))"
proof -
  have "(\<Sum>j \<in> fmdom' (fmupd k v m) - {k}. w (the (fmlookup (fmupd k v m) j))) =
      (\<Sum>j \<in> fmdom' m - {k}. w (the (fmlookup m j)))"
    by (rule sum.cong) auto
  then show ?thesis using tally_split [of "fmupd k v m" k v w] by simp
qed

lemma tally_fmupd_new: "fmlookup m k = None \<Longrightarrow> tally w (fmupd k v m) = w v + tally w m"
  unfolding tally_fmupd by (simp add: tally_def fmdom'_notI)

lemma tally_fmdrop: "fmlookup m k = Some v \<Longrightarrow> w v + tally w (fmdrop k m) = tally w m"
  unfolding tally_split [of m k v w] by (simp add: tally_def)

lemma tally_change:
  assumes "fmlookup m k = Some v"
  shows "w v + tally w (fmupd k v' m) = w v' + tally w m"
  unfolding tally_split [OF assms, of w] tally_fmupd by simp

text \<open>What the position keeper holds as open on a side of a ticker.\<close>

definition open_qty :: "TickerId \<Rightarrow> Side \<Rightarrow> PositionKeeper \<Rightarrow> Qty" where
  "open_qty t side k =
     (let p = get_or (pk_positions k) t (Position_new t)
      in case side of Buy \<Rightarrow> ps_open_buy_qty p | Sell \<Rightarrow> ps_open_sell_qty p)"

lemma open_qty_new [simp]: "open_qty t side PositionKeeper_new = 0"
  by (cases side) (simp_all add: open_qty_def PositionKeeper_new_def Position_new_def)

lemma open_qty_recalculate [simp]: "open_qty t side (recalculate_total_pnl k) = open_qty t side k"
  by (simp add: open_qty_def recalculate_total_pnl_def)

lemma open_qty_market_price [simp]:
  "open_qty t side (PositionKeeper_update_market_price t' x k) = open_qty t side k"
  by (cases side) (auto simp: PositionKeeper_update_market_price_def open_qty_def Position_update_market_price_def
      recalculate_total_pnl_def update_unrealized_pnl_def get_or_def split: option.splits)

lemma open_qty_add:
  "open_qty t side (get_position_mut t' (add_open_order side' q) k) =
     open_qty t side k + (if t = t' \<and> side = side' then q else 0)"
  by (cases side; cases side') (auto simp: open_qty_def get_position_mut_def add_open_order_def get_or_def)

lemma open_qty_remove:
  "open_qty t side (get_position_mut t' (remove_open_order side' q) k) =
     (if t = t' \<and> side = side' then saturating_sub (open_qty t side k) q else open_qty t side k)"
  by (cases side; cases side') (auto simp: open_qty_def get_position_mut_def remove_open_order_def get_or_def)

lemma on_fill_open_qtys:
  assumes "on_fill sd q x p = Inr p'"
  shows "ps_open_buy_qty p' = ps_open_buy_qty p" "ps_open_sell_qty p' = ps_open_sell_qty p"
  using assms by (auto simp: on_fill_def Let_def split: if_splits sum.splits)

lemma PositionKeeper_on_fill_ok:
  "\<exists>k'. PositionKeeper_on_fill t sd q x k = Inr k' \<and> (\<forall>t' side. open_qty t' side k' = open_qty t' side k)"
proof -
  let ?p = "get_or (pk_positions k) t (Position_new t)"
  obtain p' where p': "on_fill sd q x ?p = Inr p'" using on_fill_total by blast
  have "open_qty t' side (get_position_mut t (\<lambda>_. p') k) = open_qty t' side k" for t' side
    using on_fill_open_qtys [OF p'] by (cases side) (auto simp: open_qty_def get_position_mut_def get_or_def)
  with p' show ?thesis by (simp add: PositionKeeper_on_fill_def)
qed

section \<open>The engine's books\<close>

text \<open>The counters agree with the tracked orders: per ticker the number of open orders, per side
  the quantity reported to the position keeper.\<close>

definition books_ok :: "'w TradeEngine \<Rightarrow> bool" where
  "books_ok e \<longleftrightarrow>
     (\<forall>t. unat (pending_order_count e t) = tally (one_of t) (te_pending_orders e)) \<and>
     (\<forall>t side. unat (open_qty t side (te_position_keeper e)) = tally (leaves_of t side) (te_pending_orders e))"

text \<open>Responses that fit the order they name: they carry its ticker, and a fill reports as
  remaining what was remaining less what was executed.\<close>

definition conforms :: "ClientResponse \<Rightarrow> 'w TradeEngine \<Rightarrow> bool" where
  "conforms r e \<longleftrightarrow>
     (case fmlookup (te_pending_orders e) (rs_client_order_id r) of
        Some order \<Rightarrow> rs_ticker_id r = to_ticker_id order \<and>
          (response_type r = Some Filled \<longrightarrow> unat (rs_leaves_qty r) + unat (rs_exec_qty r) = unat (to_leaves_qty order))
      | None \<Rightarrow> response_type r = Some Filled \<longrightarrow> rs_leaves_qty r \<noteq> 0)"

text \<open>A submission that cannot upset the books: its id is not in use and the quantities stay below
  the 32-bit bound.\<close>

definition submit_fits :: "TickerId \<Rightarrow> Side \<Rightarrow> Price \<Rightarrow> Qty \<Rightarrow> 'w TradeEngine \<Rightarrow> bool" where
  "submit_fits t side price qty e \<longleftrightarrow>
     fmlookup (te_pending_orders e) (fst (assign_id t side price qty e)) = None \<and>
     unat (open_qty t side (te_position_keeper e)) + unat qty < 2 ^ 32 \<and>
     unat (pending_order_count e t) < 2 ^ 32 - 1"

lemma bump_simps [simp]:
  "te_config (bump u e) = te_config e" "te_feature_engine (bump u e) = te_feature_engine e"
  "te_risk_manager (bump u e) = te_risk_manager e" "te_position_keeper (bump u e) = te_position_keeper e"
  "te_bbo_state (bump u e) = te_bbo_state e" "te_pending_orders (bump u e) = te_pending_orders e"
  "te_open_order_count (bump u e) = te_open_order_count e" "te_running (bump u e) = te_running e"
  "te_order_submit_callback (bump u e) = te_order_submit_callback e" "te_world (bump u e) = te_world e"
  "te_order_cancel_callback (bump u e) = te_order_cancel_callback e"
  by (simp_all add: bump_def)

lemma books_ok_cong:
  assumes "te_open_order_count e' = te_open_order_count e" "te_pending_orders e' = te_pending_orders e"
    and "\<And>t side. open_qty t side (te_position_keeper e') = open_qty t side (te_position_keeper e)"
  shows "books_ok e' \<longleftrightarrow> books_ok e"
  unfolding books_ok_def pending_order_count_def assms ..

lemma books_ok_bump [simp]: "books_ok (bump u e) \<longleftrightarrow> books_ok e"
  by (rule books_ok_cong) simp_all

lemma books_ok_market_update: "books_ok (snd (on_market_update u e)) \<longleftrightarrow> books_ok e"
  by (rule books_ok_cong) (simp_all add: on_market_update_def Let_def)

lemma books_ok_update_bbo: "books_ok (te_update_bbo t b e) \<longleftrightarrow> books_ok e"
  by (rule books_ok_cong) (simp_all add: te_update_bbo_def Let_def split: option.splits)

lemma unat_add_u32: "unat a + unat b < 2 ^ 32 \<Longrightarrow> unat (a + b :: u32) = unat a + unat b"
  using unat_add_lem [of a b] by simp

text \<open>The state after an accepted order.\<close>

definition track :: "Nanos \<Rightarrow> OrderId \<Rightarrow> TickerId \<Rightarrow> Side \<Rightarrow> Price \<Rightarrow> Qty \<Rightarrow> TrackedOrder" where
  "track now i t side price qty =
     \<lparr>to_order_id = i, to_ticker_id = t, to_side = side, to_price = price, to_original_qty = qty,
      to_leaves_qty = qty, to_sent_time = now\<rparr>"

lemma track_simps [simp]:
  "to_ticker_id (track now i t side price qty) = t" "to_side (track now i t side price qty) = side"
  "to_leaves_qty (track now i t side price qty) = qty" "to_price (track now i t side price qty) = price"
  by (simp_all add: track_def)

lemma submit_order_cases:
  obtains (rejected) "\<not> is_allowed (check_order_risk e t side price qty)"
      "submit_order now t side price qty e = (Inl (check_order_risk e t side price qty), bump orders_rejected_risk_update e)"
  | (accepted) i w where "is_allowed (check_order_risk e t side price qty)" "assign_id t side price qty e = (i, w)"
      "submit_order now t side price qty e = (Inr i, bump orders_submitted_update
         (e\<lparr>te_world := w, te_pending_orders := fmupd i (track now i t side price qty) (te_pending_orders e),
            te_open_order_count := fmupd t (pending_order_count e t + 1) (te_open_order_count e),
            te_position_keeper := get_position_mut t (add_open_order side qty) (te_position_keeper e)\<rparr>))"
  by (cases "is_allowed (check_order_risk e t side price qty)"; cases "assign_id t side price qty e")
     (simp_all add: submit_order_def Let_def track_def pending_order_count_def)

lemma books_ok_submit:
  assumes "books_ok e" "submit_fits t side price qty e"
  shows "books_ok (snd (submit_order now t side price qty e))"
proof (cases rule: submit_order_cases [of e t side price qty now])
  case (accepted i w)
  have new: "fmlookup (te_pending_orders e) i = None" and
    q: "unat (open_qty t side (te_position_keeper e)) + unat qty < 2 ^ 32" and
    n: "unat (pending_order_count e t) < 2 ^ 32 - 1"
    using assms(2) accepted(2) by (simp_all add: submit_fits_def)
  have "unat (pending_order_count e t + 1) = unat (pending_order_count e t) + 1"
    using n unat_add_u32 [of "pending_order_count e t" 1] by simp
  moreover have "unat (open_qty t' sd (te_position_keeper e) + (if t' = t \<and> sd = side then qty else 0)) =
      unat (open_qty t' sd (te_position_keeper e)) + (if t' = t \<and> sd = side then unat qty else 0)" for t' sd
    using q by (auto simp: unat_add_u32)
  ultimately show ?thesis using assms(1) new unfolding accepted(3)
    by (auto simp: books_ok_def pending_order_count_def tally_fmupd_new open_qty_add one_of_def leaves_of_def get_or_def)
qed (use assms(1) in simp)

lemma pending_order_count_lower [simp]:
  "pending_order_count (lower_count t e) t' =
     (if t' = t then saturating_sub (pending_order_count e t) 1 else pending_order_count e t')"
  by (simp add: pending_order_count_def lower_count_def get_or_def)

lemma lower_count_simps [simp]:
  "te_pending_orders (lower_count t e) = te_pending_orders e" "te_position_keeper (lower_count t e) = te_position_keeper e"
  by (simp_all add: lower_count_def)

text \<open>Dropping a tracked order whose remaining quantity the position keeper gives up.\<close>

lemma books_ok_drop:
  assumes "books_ok e" "fmlookup (te_pending_orders e) i = Some order"
    and "te_pending_orders e' = fmdrop i (te_pending_orders e)"
    and "\<And>t. pending_order_count e' t = (if t = to_ticker_id order then saturating_sub (pending_order_count e t) 1
                                         else pending_order_count e t)"
    and "\<And>t side. open_qty t side (te_position_keeper e') = (if t = to_ticker_id order \<and> side = to_side order
       then saturating_sub (open_qty t side (te_position_keeper e)) (to_leaves_qty order)
       else open_qty t side (te_position_keeper e))"
  shows "books_ok e'"
proof -
  have "unat (pending_order_count e' t) = tally (one_of t) (te_pending_orders e')" for t
    using assms(1) tally_fmdrop [OF assms(2), of "one_of t"] unfolding assms(3)
    by (auto simp: assms(4) books_ok_def one_of_def split: if_splits)
  moreover have "unat (open_qty t side (te_position_keeper e')) = tally (leaves_of t side) (te_pending_orders e')" for t side
    using assms(1) tally_fmdrop [OF assms(2), of "leaves_of t side"] unfolding assms(3)
    by (auto simp: assms(5) books_ok_def leaves_of_def split: if_splits)
  ultimately show ?thesis by (simp add: books_ok_def)
qed

lemma books_ok_drop_order:
  assumes "books_ok e"
    "\<forall>order. fmlookup (te_pending_orders e) (rs_client_order_id r) = Some order \<longrightarrow> rs_ticker_id r = to_ticker_id order"
  shows "books_ok (drop_order r e)"
proof (cases "fmlookup (te_pending_orders e) (rs_client_order_id r)")
  case (Some order)
  show ?thesis
    by (rule books_ok_drop [OF assms(1) Some])
       (use assms(2) Some in \<open>simp_all add: drop_order_def open_qty_remove\<close>, simp add: pending_order_count_def)
qed (use assms(1) in \<open>simp add: drop_order_def\<close>)

lemma book_fill_ok:
  "\<exists>e'. book_fill r e = Inr e' \<and> te_pending_orders e' = te_pending_orders e \<and>
     te_open_order_count e' = te_open_order_count e \<and>
     (\<forall>t side. open_qty t side (te_position_keeper e') =
        (case fmlookup (te_pending_orders e) (rs_client_order_id r) of
           Some order \<Rightarrow> if t = rs_ticker_id r \<and> side = to_side order
             then saturating_sub (open_qty t side (te_position_keeper e)) (rs_exec_qty r)
             else open_qty t side (te_position_keeper e)
         | None \<Rightarrow> open_qty t side (te_position_keeper e)))"
proof (cases "fmlookup (te_pending_orders e) (rs_client_order_id r)")
  case (Some order)
  obtain k where "PositionKeeper_on_fill (rs_ticker_id r) (to_side order) (rs_exec_qty r) (rs_price r) (te_position_keeper e) = Inr k"
    "\<forall>t side. open_qty t side k = open_qty t side (te_position_keeper e)"
    using PositionKeeper_on_fill_ok by blast
  with Some show ?thesis by (simp add: book_fill_def open_qty_remove)
qed (simp add: book_fill_def)

lemma on_response_total: "\<exists>e'. on_response r e = Inr e'"
  using book_fill_ok [of r "bump responses_processed_update e"]
  by (auto simp: on_response_def Let_def split: option.splits ClientResponseType.splits)

lemma books_ok_fill:
  assumes "books_ok e" "conforms r e" "response_type r = Some Filled" "book_fill r e = Inr e1"
  shows "books_ok (settle_fill r e1)"
proof -
  from book_fill_ok [of r e] assms(4)
  have e1: "te_pending_orders e1 = te_pending_orders e" "te_open_order_count e1 = te_open_order_count e"
    and q1: "\<And>t side. open_qty t side (te_position_keeper e1) =
        (case fmlookup (te_pending_orders e) (rs_client_order_id r) of
           Some order \<Rightarrow> if t = rs_ticker_id r \<and> side = to_side order
             then saturating_sub (open_qty t side (te_position_keeper e)) (rs_exec_qty r)
             else open_qty t side (te_position_keeper e)
         | None \<Rightarrow> open_qty t side (te_position_keeper e))" by auto
  show ?thesis
  proof (cases "fmlookup (te_pending_orders e) (rs_client_order_id r)")
    case None
    then have "settle_fill r e1 = e1" using assms(2,3) by (simp add: settle_fill_def conforms_def e1(1))
    then show ?thesis using assms(1) books_ok_cong [OF e1(2,1)] q1 None by simp
  next
    case (Some order)
    then have c: "rs_ticker_id r = to_ticker_id order" "unat (rs_leaves_qty r) + unat (rs_exec_qty r) = unat (to_leaves_qty order)"
      using assms(2,3) by (simp_all add: conforms_def)
    show ?thesis
    proof (cases "rs_leaves_qty r = 0")
      case True
      then have "rs_exec_qty r = to_leaves_qty order" using c(2) by (simp add: word_unat_eq_iff)
      then show ?thesis using True Some
        by (intro books_ok_drop [OF assms(1) Some])
           (simp_all add: settle_fill_def e1 q1 c(1) pending_order_count_def lower_count_def get_or_def)
    next
      case False
      define order' where "order' = order\<lparr>to_leaves_qty := rs_leaves_qty r\<rparr>"
      note ch = tally_change [OF Some, of _ order']
      have "tally (one_of t) (fmupd (rs_client_order_id r) order' (te_pending_orders e)) = tally (one_of t) (te_pending_orders e)" for t
        using ch [of "one_of t"] by (simp add: order'_def one_of_def)
      moreover have "tally (leaves_of t sd) (fmupd (rs_client_order_id r) order' (te_pending_orders e)) =
          tally (leaves_of t sd) (te_pending_orders e) - (if t = to_ticker_id order \<and> sd = to_side order then unat (rs_exec_qty r) else 0)" for t sd
        using ch [of "leaves_of t sd"] c(2) by (auto simp: order'_def leaves_of_def split: if_splits)
      ultimately show ?thesis using assms(1) False Some
        by (auto simp: books_ok_def settle_fill_def e1 q1 c(1) order'_def pending_order_count_def)
    qed
  qed
qed

lemma conforms_bump [simp]: "conforms r (bump u e) \<longleftrightarrow> conforms r e"
  by (simp add: conforms_def)

lemma books_ok_response:
  assumes "books_ok e" "conforms r e" "on_response r e = Inr e'"
  shows "books_ok e'"
proof -
  let ?e = "bump responses_processed_update e"
  have e: "books_ok ?e" "conforms r ?e" using assms(1,2) by simp_all
  have d: "books_ok (drop_order r ?e)"
    by (rule books_ok_drop_order [OF e(1)]) (use assms(2) in \<open>auto simp: conforms_def\<close>)
  obtain e1 where b: "book_fill r ?e = Inr e1" using book_fill_ok by blast
  show ?thesis using assms(3) d e(1) books_ok_fill [OF e _ b] b
    by (auto simp: on_response_def Let_def split: option.splits ClientResponseType.splits)
qed

lemma te_cancel_order_simps [simp]:
  "te_pending_orders (te_cancel_order i e) = te_pending_orders e" "te_open_order_count (te_cancel_order i e) = te_open_order_count e"
  "te_position_keeper (te_cancel_order i e) = te_position_keeper e" "te_config (te_cancel_order i e) = te_config e"
  "te_risk_manager (te_cancel_order i e) = te_risk_manager e" "te_feature_engine (te_cancel_order i e) = te_feature_engine e"
  "te_order_cancel_callback (te_cancel_order i e) = te_order_cancel_callback e"
  by (simp_all add: te_cancel_order_def split: option.splits)

lemma fold_cancel_simps [simp]:
  "te_pending_orders (fold te_cancel_order is e) = te_pending_orders e"
  "te_open_order_count (fold te_cancel_order is e) = te_open_order_count e"
  "te_position_keeper (fold te_cancel_order is e) = te_position_keeper e" "te_config (fold te_cancel_order is e) = te_config e"
  "te_risk_manager (fold te_cancel_order is e) = te_risk_manager e" "te_feature_engine (fold te_cancel_order is e) = te_feature_engine e"
  by (induction "is" arbitrary: e) simp_all

lemma books_ok_cancel_all: "books_ok (cancel_all_orders iter t e) \<longleftrightarrow> books_ok e"
  by (rule books_ok_cong) (simp_all add: cancel_all_orders_def Let_def)

section \<open>Reachable engines\<close>

text \<open>The submissions of an action, one after the other.\<close>

definition fits_opt :: "OrderRequest option \<Rightarrow> 'w TradeEngine \<Rightarrow> bool" where
  "fits_opt r e \<longleftrightarrow>
     (case r of Some q \<Rightarrow> submit_fits (or_ticker_id q) (or_side q) (or_price q) (or_qty q) e | None \<Rightarrow> True)"

definition action_fits :: "Nanos \<Rightarrow> StrategyAction \<Rightarrow> 'w TradeEngine \<Rightarrow> bool" where
  "action_fits now a e \<longleftrightarrow>
     (case a of
        Quote p \<Rightarrow> fits_opt (qp_bid p) e \<and> fits_opt (qp_ask p) (snd (attempt_opt now (qp_bid p) e))
      | Take order \<Rightarrow> fits_opt (Some order) e
      | _ \<Rightarrow> True)"

text \<open>What can happen to an engine whose limits are not changed.\<close>

inductive engine_step :: "'w TradeEngine \<Rightarrow> 'w TradeEngine \<Rightarrow> bool" where
  Market_Update: "on_market_update u e = (r, e') \<Longrightarrow> engine_step e e'"
| Update_BBO: "engine_step e (te_update_bbo t b e)"
| Response: "conforms r e \<Longrightarrow> on_response r e = Inr e' \<Longrightarrow> engine_step e e'"
| Submit: "submit_fits t side price qty e \<Longrightarrow> submit_order now t side price qty e = (r, e') \<Longrightarrow> engine_step e e'"
| Cancel: "engine_step e (te_cancel_order i e)"
| Cancel_All: "engine_step e (cancel_all_orders iter t e)"
| Start: "engine_step e (te_start e)"
| Stop: "engine_step e (te_stop e)"
| Submit_Callback: "engine_step e (set_order_submit_callback f e)"
| Cancel_Callback: "engine_step e (set_order_cancel_callback g e)"
| Strategy_Action: "action_fits now a e \<Longrightarrow> process_strategy_action now now' iter a e = (r, e') \<Longrightarrow> engine_step e e'"

inductive_cases engine_stepE: "engine_step e e'"

inductive engine_reach :: "'w TradeEngine \<Rightarrow> 'w TradeEngine \<Rightarrow> bool" where
  Initial: "engine_reach e e"
| Step: "engine_reach e e' \<Longrightarrow> engine_step e' e'' \<Longrightarrow> engine_reach e e''"

text \<open>An action is a sequence of submissions, or cancels.\<close>

lemma attempt_opt_state:
  "snd (attempt_opt now r e) =
     (case r of
        Some q \<Rightarrow> snd (submit_order now (or_ticker_id q) (or_side q) (or_price q) (or_qty q) e)
      | None \<Rightarrow> e)"
  by (simp add: attempt_opt_def attempt_def split: option.splits prod.splits sum.splits)

lemma process_strategy_action_state:
  "snd (process_strategy_action now now' iter a e) = bump strategy_cycles_update
     (case a of
        NoAction \<Rightarrow> e
      | Quote p \<Rightarrow> snd (attempt_opt now' (qp_ask p) (snd (attempt_opt now (qp_bid p) e)))
      | Take order \<Rightarrow> snd (attempt_opt now (Some order) e)
      | CancelAll t \<Rightarrow> cancel_all_orders iter t e)"
  by (simp add: process_strategy_action_def split: StrategyAction.splits prod.splits)

lemma action_preserves:
  assumes "P e" "action_fits now a e" "\<And>e u. P (bump u e) = P e"
    and "\<And>now t side price qty e. P e \<Longrightarrow> submit_fits t side price qty e \<Longrightarrow> P (snd (submit_order now t side price qty e))"
    and "\<And>iter t e. P e \<Longrightarrow> P (cancel_all_orders iter t e)"
  shows "P (snd (process_strategy_action now now' iter a e))"
proof -
  have opt: "P e \<Longrightarrow> fits_opt r e \<Longrightarrow> P (snd (attempt_opt now r e))" for now r e
    using assms(4) by (simp add: attempt_opt_state fits_opt_def split: option.splits)
  show ?thesis unfolding process_strategy_action_state assms(3)
    using assms(1,2,5) opt by (auto simp: action_fits_def split: StrategyAction.splits)
qed

lemma books_ok_step: "engine_step e e' \<Longrightarrow> books_ok e \<Longrightarrow> books_ok e'"
proof (induction rule: engine_step.induct)
  case (Market_Update u e r e')
  then show ?case using books_ok_market_update [of u e] by simp
next
  case (Submit t side price qty e now r e')
  then show ?case using books_ok_submit [of e t side price qty now] by simp
next
  case (Strategy_Action now a e now' iter r e')
  have "books_ok (snd (process_strategy_action now now' iter a e))"
    by (rule action_preserves [where P = books_ok, OF Strategy_Action.prems Strategy_Action.hyps(1)])
       (simp_all add: books_ok_submit books_ok_cancel_all)
  with Strategy_Action.hyps(2) show ?case by simp
next
  case (Cancel e i)
  then show ?case by (subst books_ok_cong) simp_all
next
  case (Response r e e')
  then show ?case by (blast intro: books_ok_response)
next
  case (Update_BBO e t b)
  then show ?case by (simp add: books_ok_update_bbo)
next
  case (Cancel_All e iter t)
  then show ?case by (simp add: books_ok_cancel_all)
qed (simp_all add: books_ok_def pending_order_count_def te_start_def te_stop_def
    set_order_submit_callback_def set_order_cancel_callback_def)

lemma fold_fmupd_zero: "get_or m t 0 = 0 \<Longrightarrow> get_or (fold (\<lambda>t. fmupd t 0) ts m) t 0 = (0 :: u32)"
  by (induction ts arbitrary: m) (simp_all add: get_or_def)

lemma TradeEngine_new_simps [simp]:
  "te_pending_orders (TradeEngine_new c w) = fmempty" "te_position_keeper (TradeEngine_new c w) = PositionKeeper_new"
  "te_config (TradeEngine_new c w) = c" "te_risk_manager (TradeEngine_new c w) = RiskManager_new"
  "pending_order_count (TradeEngine_new c w) t = 0"
  by (simp_all add: TradeEngine_new_def reserve_def pending_order_count_def fold_fmupd_zero)

lemma books_ok_new: "books_ok (TradeEngine_new c w)"
  by (simp add: books_ok_def)

section \<open>The limits\<close>

text \<open>With risk checks on, no ticker has more open orders than its limit.\<close>

definition limits_ok :: "RiskManager \<Rightarrow> 'w TradeEngine \<Rightarrow> bool" where
  "limits_ok rm e \<longleftrightarrow> te_risk_manager e = rm \<and> tc_enable_risk_checks (te_config e) \<and> keyed (te_position_keeper e) \<and>
     (\<forall>t. pending_order_count e t \<le> max_open_orders (get_limits rm t))"

lemma limits_ok_bump [simp]: "limits_ok rm (bump u e) \<longleftrightarrow> limits_ok rm e"
  by (simp add: limits_ok_def pending_order_count_def)

lemma limits_ok_positions:
  assumes "limits_ok rm e" "keyed k"
  shows "limits_ok rm (e\<lparr>te_pending_orders := m, te_position_keeper := k\<rparr>)"
  using assms by (simp add: limits_ok_def pending_order_count_def)

lemma limits_ok_keyed: "limits_ok rm e \<Longrightarrow> keyed (te_position_keeper e)"
  by (simp add: limits_ok_def)

lemma limits_ok_cancel_all: "limits_ok rm e \<Longrightarrow> limits_ok rm (cancel_all_orders iter t e)"
  by (simp add: limits_ok_def cancel_all_orders_def pending_order_count_def)

lemma saturating_sub_le: "saturating_sub a b \<le> (a :: u32)"
  by (simp add: word_le_nat_alt)

lemma count_below_limit:
  assumes "limits_ok rm e" "is_allowed (check_order_risk e t side price qty)"
  shows "pending_order_count e t < max_open_orders (get_limits rm t)"
proof -
  have "ps_ticker_id (get_or (pk_positions (te_position_keeper e)) t (Position_new t)) = t"
    using assms(1) keyed_get_or by (auto simp: limits_ok_def)
  with assms show ?thesis
    by (auto simp: limits_ok_def check_order_risk_def check_order_with_open_orders_def check_open_orders_def
        pending_order_count_def is_allowed_def Let_def not_le split: if_splits)
qed

lemma limits_ok_submit:
  assumes "limits_ok rm e"
  shows "limits_ok rm (snd (submit_order now t side price qty e))"
proof (cases rule: submit_order_cases [of e t side price qty now])
  case (accepted i w)
  have "pending_order_count e t + 1 \<le> max_open_orders (get_limits rm t)"
    using count_below_limit [OF assms accepted(1)] by (rule inc_le)
  with assms show ?thesis unfolding accepted(3)
    by (auto simp: limits_ok_def pending_order_count_def keyed_open_orders get_or_def)
qed (use assms in simp)

lemma limits_ok_lower: "limits_ok rm e \<Longrightarrow> limits_ok rm (lower_count t e)"
  using saturating_sub_le [of "pending_order_count e t" 1]
  by (auto simp: limits_ok_def lower_count_def pending_order_count_def get_or_def intro: order_trans)

lemma limits_ok_response:
  assumes "limits_ok rm e" "on_response r e = Inr e'"
  shows "limits_ok rm e'"
proof -
  let ?e = "bump responses_processed_update e"
  have e: "limits_ok rm ?e" using assms(1) by simp
  have 1: "limits_ok rm (drop_order r ?e)"
    unfolding drop_order_def
    by (auto intro!: limits_ok_lower limits_ok_positions e assms(1) keyed_open_orders limits_ok_keyed [OF assms(1)] split: option.splits)
  obtain e1 where e1: "book_fill r ?e = Inr e1" using book_fill_ok by blast
  have "limits_ok rm e1" using e e1
    by (auto simp: book_fill_def limits_ok_def pending_order_count_def keyed_open_orders keyed_fill
        split: option.splits sum.splits)
  then have 2: "limits_ok rm (settle_fill r e1)"
    using limits_ok_positions [of rm e1 "te_position_keeper e1"] limits_ok_keyed [of rm e1]
    by (auto simp: settle_fill_def intro!: limits_ok_lower split: option.splits)
  show ?thesis using assms(2) 1 2 e e1
    by (auto simp: on_response_def Let_def split: option.splits ClientResponseType.splits)
qed

lemma limits_ok_step: "engine_step e e' \<Longrightarrow> limits_ok rm e \<Longrightarrow> limits_ok rm e'"
proof (induction rule: engine_step.induct)
  case (Strategy_Action now a e now' iter r e')
  have "limits_ok rm (snd (process_strategy_action now now' iter a e))"
    by (rule action_preserves [where P = "limits_ok rm", OF Strategy_Action.prems Strategy_Action.hyps(1)])
       (simp_all add: limits_ok_submit limits_ok_cancel_all)
  with Strategy_Action.hyps(2) show ?case by simp
next
  case (Submit t side price qty e now r e')
  then show ?case using limits_ok_submit [of rm e now t side price qty] by simp
next
  case (Response r e e')
  then show ?case by (blast intro: limits_ok_response)
qed (auto simp: limits_ok_def on_market_update_def te_update_bbo_def Let_def keyed_market_price pending_order_count_def
    cancel_all_orders_def te_start_def te_stop_def set_order_submit_callback_def set_order_cancel_callback_def split: option.splits)

lemma tally_one_of: "tally (one_of t) (te_pending_orders e) = card {i. has_ticker t e i}"
proof -
  let ?m = "te_pending_orders e"
  have "{i \<in> fmdom' ?m. to_ticker_id (the (fmlookup ?m i)) = t} = {i. has_ticker t e i}"
    by (auto simp: has_ticker_def fmlookup_dom'_iff split: option.splits)
  then show ?thesis by (simp add: tally_def one_of_def sum.If_cases of_bool_def Int_def)
qed

lemma reach_preserves:
  assumes "engine_reach e e'" "P e" "\<And>e e'. engine_step e e' \<Longrightarrow> P e \<Longrightarrow> P e'"
  shows "P e'"
  using assms(1,2) by (induction rule: engine_reach.induct) (auto intro: assms(3))

section \<open>Cycles\<close>

text \<open>Iterating over a list, the iterator of a vector.\<close>

fun list_next :: "'a list \<Rightarrow> 'a option \<times> 'a list" where
  "list_next [] = (None, [])"
| "list_next (x # xs) = (Some x, xs)"

lemma for_each_take_list:
  assumes "\<And>x s. body x s = Inr (f x s)"
  shows "for_each_take list_next body n xs s = Inr (min n (length xs), fold f (take n xs) s)"
proof (induction n arbitrary: xs s)
  case (Suc n)
  then show ?case using assms by (cases xs) simp_all
qed simp

definition respond :: "ClientResponse \<Rightarrow> 'w TradeEngine \<Rightarrow> 'w TradeEngine" where
  "respond r e = (case on_response r e of Inr e' \<Rightarrow> e' | Inl _ \<Rightarrow> e)"

lemma on_response_eq: "on_response r e = Inr (respond r e)"
  using on_response_total [of r e] by (auto simp: respond_def)

text \<open>The first order of an engine with default limits and no callback.\<close>

lemma first_order:
  "assign_id 1 Buy 100 10 (TradeEngine_new (TradeEngineConfig_new 7) w) = (1, w)"
  "te_pending_orders (snd (submit_order (Nanos 5) 1 Buy 100 10 (TradeEngine_new (TradeEngineConfig_new 7) w))) =
     fmupd 1 (track (Nanos 5) 1 1 Buy 100 10) fmempty"
  "pending_order_count (snd (submit_order (Nanos 5) 1 Buy 100 10 (TradeEngine_new (TradeEngineConfig_new 7) w))) 1 = 1"
  "te_world (snd (submit_order (Nanos 5) 1 Buy 100 10 (TradeEngine_new (TradeEngineConfig_new 7) w))) = w"
proof -
  let ?e = "TradeEngine_new (TradeEngineConfig_new 7) w"
  show a: "assign_id 1 Buy 100 10 ?e = (1, w)"
    by (simp add: assign_id_def TradeEngine_new_def reserve_def TradeEngineStats_new_def)
  have "is_allowed (check_order_risk ?e 1 Buy 100 10)"
    by (simp add: check_order_risk_def TradeEngineConfig_new_def TradeEngineConfig_default_def check_order_with_open_orders_def
        check_open_orders_def check_order_def get_limits_def RiskManager_new_def RiskLimits_default_def is_allowed_def
        PositionKeeper_new_def Position_new_def Position_total_pnl_def max_long_exposure_def is_risk_reducing_def
        sabs_def word_sless_alt flip: pending_order_count_def)
  with submit_order_cases [of ?e 1 Buy 100 10 "Nanos 5"] a
  have "snd (submit_order (Nanos 5) 1 Buy 100 10 ?e) = bump orders_submitted_update
      (?e\<lparr>te_world := w, te_pending_orders := fmupd 1 (track (Nanos 5) 1 1 Buy 100 10) (te_pending_orders ?e),
          te_open_order_count := fmupd 1 (pending_order_count ?e 1 + 1) (te_open_order_count ?e),
          te_position_keeper := get_position_mut 1 (add_open_order Buy 10) (te_position_keeper ?e)\<rparr>)"
    by (metis prod.inject snd_conv)
  then show "te_pending_orders (snd (submit_order (Nanos 5) 1 Buy 100 10 ?e)) = fmupd 1 (track (Nanos 5) 1 1 Buy 100 10) fmempty"
    "pending_order_count (snd (submit_order (Nanos 5) 1 Buy 100 10 ?e)) 1 = 1"
    "te_world (snd (submit_order (Nanos 5) 1 Buy 100 10 ?e)) = w"
    by (simp_all add: pending_order_count_def [of "bump u e" for u e])
qed

section \<open>Properties\<close>








text \<open>C5: \<open>cancel_all_orders\<close> asks for the cancellation of every tracked order of the ticker, each
  once, and of no other, in the order of the map's iteration; the books wait for the responses.\<close>

theorem cancel_all_exact:
  assumes "enumerates iter (te_pending_orders e)" "te_order_cancel_callback e = Some f"
  shows "\<exists>ids. distinct ids \<and> set ids = {i. has_ticker t e i} \<and>
    cancel_all_orders iter t e = e\<lparr>te_world := fold (\<lambda>i. f i t) ids (te_world e)\<rparr>"
proof -
  let ?ids = "filter (has_ticker t e) iter"
  have "fold te_cancel_order ids e = e\<lparr>te_world := fold (\<lambda>i. f i t) ids (te_world e)\<rparr>" if "\<forall>i \<in> set ids. has_ticker t e i" for ids
    using that
  proof (induction ids rule: rev_induct)
    case (snoc i ids)
    then obtain order where "fmlookup (te_pending_orders e) i = Some order" "to_ticker_id order = t"
      by (auto simp: has_ticker_def split: option.splits)
    with snoc assms(2) show ?case by (simp add: te_cancel_order_def [of i])
  qed simp
  then have "cancel_all_orders iter t e = e\<lparr>te_world := fold (\<lambda>i. f i t) ?ids (te_world e)\<rparr>"
    by (simp add: cancel_all_orders_def)
  moreover have "distinct ?ids" "set ?ids = {i. has_ticker t e i}"
    using assms(1) by (auto simp: enumerates_iff has_ticker_def fmlookup_dom'_iff split: option.splits)
  ultimately show ?thesis by blast
qed

theorem cancel_all_exact_witness:
  "te_world (cancel_all_orders [1] 1 (set_order_cancel_callback (\<lambda>i t w. (i, t) # w)
     (snd (submit_order (Nanos 5) 1 Buy 100 10 (TradeEngine_new (TradeEngineConfig_new 7) []))))) = [(1, 1)]"
proof -
  let ?f = "\<lambda>i t w. (i, t) # w" and ?s = "snd (submit_order (Nanos 5) 1 Buy 100 10 (TradeEngine_new (TradeEngineConfig_new 7) []))"
  let ?e = "set_order_cancel_callback ?f ?s"
  have e: "te_pending_orders ?e = fmupd 1 (track (Nanos 5) 1 1 Buy 100 10) fmempty" "te_world ?e = []"
    "te_order_cancel_callback ?e = Some ?f"
    by (simp_all add: set_order_cancel_callback_def first_order(2,4))
  have "enumerates [1] (te_pending_orders ?e)" by (simp add: e enumerates_iff)
  from cancel_all_exact [OF this e(3), of 1] obtain ids where "distinct ids" "set ids = {i. has_ticker 1 ?e i}"
    "te_world (cancel_all_orders [1] 1 ?e) = fold (\<lambda>i. ?f i 1) ids []" by (auto simp: e(2))
  moreover have "{i. has_ticker 1 ?e i} = {1}" by (auto simp: has_ticker_def e(1) split: if_splits)
  ultimately show ?thesis by (cases ids) (auto simp: subset_singleton_iff)
qed

section \<open>Where the books go wrong\<close>

text \<open>A full fill of an order the engine does not track still lowers the open order count.\<close>

lemma unknown_fill_lowers_count:
  assumes "response_type r = Some Filled" "rs_leaves_qty r = 0"
    and "fmlookup (te_pending_orders e) (rs_client_order_id r) = None" "on_response r e = Inr e'"
  shows "pending_order_count e' (rs_ticker_id r) = saturating_sub (pending_order_count e (rs_ticker_id r)) 1"
  using assms by (auto simp: on_response_def book_fill_def settle_fill_def Let_def) (simp add: pending_order_count_def)

text \<open>A reset forgets the tracked orders and keeps what they had reported to the position keeper.\<close>

lemma reset_keeps_open_qty:
  "te_pending_orders (te_reset e) = fmempty" "open_qty t side (te_position_keeper (te_reset e)) = open_qty t side (te_position_keeper e)"
  by (simp_all add: te_reset_def reserve_def)

end
