(* ===== verification/Logging.thy ===== *)
theory Logging
  imports LFQueue Time F64
begin

text \<open>
  The logger, \<open>common/src/logging.rs\<close>: the caller's thread puts entries into a lock-free queue of
  4096 slots, dropping them when it is full, and a background thread formats them and writes them to
  standard error. A push and a pop are one step each here; the theory \<open>SPSC\<close> justifies this for one
  producer and one consumer. Every access to one of the three shared flags is a step of its own, so
  that the handshake of \<open>flush\<close> and the shutdown are seen in every interleaving. The clock reading of
  an entry is part of it.
\<close>

section \<open>Levels, messages and their text\<close>

datatype LogLevel = Debug | Info | Warn | Error

fun level_rank :: "LogLevel \<Rightarrow> nat" where
  "level_rank Debug = 0"
| "level_rank Info = 1"
| "level_rank Warn = 2"
| "level_rank Error = 3"

lemma level_rank_inject: "level_rank a = level_rank b \<longleftrightarrow> a = b"
  by (cases a; cases b) simp_all

text \<open>The derived order.\<close>

instantiation LogLevel :: linorder
begin

definition less_eq_LogLevel :: "LogLevel \<Rightarrow> LogLevel \<Rightarrow> bool" where
  "less_eq_LogLevel a b \<longleftrightarrow> level_rank a \<le> level_rank b"

definition less_LogLevel :: "LogLevel \<Rightarrow> LogLevel \<Rightarrow> bool" where
  "less_LogLevel a b \<longleftrightarrow> level_rank a < level_rank b"

instance
  by standard (auto simp: less_eq_LogLevel_def less_LogLevel_def level_rank_inject)

end

fun LogLevel_as_str :: "LogLevel \<Rightarrow> string" where
  "LogLevel_as_str Debug = ''DEBUG''"
| "LogLevel_as_str Info = ''INFO''"
| "LogLevel_as_str Warn = ''WARN''"
| "LogLevel_as_str Error = ''ERROR''"

datatype LogMessage =
  Static string
| StaticWithI64 string i64
| StaticWithU64 string u64
| StaticWithF64 string f64
| Formatted string

text \<open>The formatting of the standard library: decimal numbers, six decimals of a float rounded to
  the nearest and ties to even, zero padding on the left and blank padding on the right.\<close>

definition show_int :: "int \<Rightarrow> string" where
  "show_int n = (if n < 0 then CHR ''-'' # show_nat (nat (- n)) else show_nat (nat n))"

definition pad_zeros :: "nat \<Rightarrow> string \<Rightarrow> string" where
  "pad_zeros n s = replicate (n - length s) (CHR ''0'') @ s"

definition pad_right :: "nat \<Rightarrow> string \<Rightarrow> string" where
  "pad_right n s = s @ replicate (n - length s) (CHR '' '')"

fun show_f64_6 :: "f64 \<Rightarrow> string" where
  "show_f64_6 (Fin x) =
     (let n = nat (rne (\<bar>x\<bar> * 10 ^ 6))
      in (if x < 0 then ''-'' else '''') @ show_nat (n div 10 ^ 6) @ ''.'' @ pad_zeros 6 (show_nat (n mod 10 ^ 6)))"
| "show_f64_6 PInf = ''inf''"
| "show_f64_6 NInf = ''-inf''"
| "show_f64_6 NaN = ''NaN''"

fun write_to :: "LogMessage \<Rightarrow> string" where
  "write_to (Static s) = s"
| "write_to (StaticWithI64 s v) = s @ '': '' @ show_int (sint v)"
| "write_to (StaticWithU64 s v) = s @ '': '' @ show_nat (unat v)"
| "write_to (StaticWithF64 s v) = s @ '': '' @ show_f64_6 v"
| "write_to (Formatted s) = s"

record LogEntry =
  le_timestamp :: Nanos
  le_level :: LogLevel
  le_message :: LogMessage

definition write_entry :: "LogEntry \<Rightarrow> string" where
  "write_entry entry =
     ''['' @ pad_zeros 16 (show_nat (unat (as_u64 (le_timestamp entry)))) @ ''] '' @
     pad_right 5 (LogLevel_as_str (le_level entry)) @ '' '' @ write_to (le_message entry) @ [CHR 0x0A]"

section \<open>The two threads\<close>

record LoggerShared =
  ls_queue :: "LogEntry lfqueue"
  ls_running :: bool
  ls_flush_requested :: bool
  ls_flush_complete :: bool

text \<open>Where each thread stands. The caller is between two calls, inside \<open>flush\<close>, waiting for the
  writer in \<open>drop\<close>, or gone; the writer is at the head of its loop, popping, at the flush request,
  about to report the flush, at the end of an iteration, in the final drain, or has returned.\<close>

datatype caller_pc = Idle | Flush_Cleared | Flush_Waiting | Flush_Seen | Joining | Dropped

datatype writer_pc = At_Head | Popping nat | At_Request nat | Completing nat | At_End nat | Final_Drain | Returned

datatype pause = Spin | Yield | Sleep

definition back_off :: "u32 \<Rightarrow> pause" where
  "back_off idle_count = (if idle_count < 100 then Spin else if idle_count < 1100 then Yield else Sleep)"

text \<open>\<open>lg_accepted\<close> records the entries that entered the queue, \<open>lg_stderr\<close> the text written.\<close>

record Logger =
  lg_shared :: LoggerShared
  lg_min_level :: LogLevel
  lg_caller :: caller_pc
  lg_writer :: writer_pc
  lg_idle_count :: u32
  lg_pause :: "pause option"
  lg_stderr :: string
  lg_accepted :: "LogEntry list"

definition Logger_with_level :: "LogLevel \<Rightarrow> Logger outcome" where
  "Logger_with_level min_level =
     (case lf_new 4096 of
        Inl f \<Rightarrow> Inl f
      | Inr q \<Rightarrow>
          Inr \<lparr>lg_shared = \<lparr>ls_queue = q, ls_running = True, ls_flush_requested = False, ls_flush_complete = False\<rparr>,
               lg_min_level = min_level, lg_caller = Idle, lg_writer = At_Head, lg_idle_count = 0, lg_pause = None,
               lg_stderr = '''', lg_accepted = []\<rparr>)"

definition Logger_new :: "Logger outcome" where
  "Logger_new = Logger_with_level Debug"

definition Logger_default :: "Logger outcome" where
  "Logger_default = Logger_new"

text \<open>The common body of the five \<open>log\<close> functions, which differ in the message they build.\<close>

definition log_entry :: "Nanos \<Rightarrow> LogLevel \<Rightarrow> LogMessage \<Rightarrow> Logger \<Rightarrow> Logger" where
  "log_entry now level message lg =
     (if level < lg_min_level lg then lg
      else let entry = \<lparr>le_timestamp = now, le_level = level, le_message = message\<rparr> in
        case lf_push (ls_queue (lg_shared lg)) entry of
          (Inr _, q) \<Rightarrow> lg\<lparr>lg_shared := (lg_shared lg)\<lparr>ls_queue := q\<rparr>, lg_accepted := lg_accepted lg @ [entry]\<rparr>
        | (Inl _, q) \<Rightarrow> lg\<lparr>lg_shared := (lg_shared lg)\<lparr>ls_queue := q\<rparr>\<rparr>)"

definition log_static :: "Nanos \<Rightarrow> LogLevel \<Rightarrow> string \<Rightarrow> Logger \<Rightarrow> Logger" where
  "log_static now level msg = log_entry now level (Static msg)"

definition log_with_i64 :: "Nanos \<Rightarrow> LogLevel \<Rightarrow> string \<Rightarrow> i64 \<Rightarrow> Logger \<Rightarrow> Logger" where
  "log_with_i64 now level msg value = log_entry now level (StaticWithI64 msg value)"

definition log_with_u64 :: "Nanos \<Rightarrow> LogLevel \<Rightarrow> string \<Rightarrow> u64 \<Rightarrow> Logger \<Rightarrow> Logger" where
  "log_with_u64 now level msg value = log_entry now level (StaticWithU64 msg value)"

definition log_with_f64 :: "Nanos \<Rightarrow> LogLevel \<Rightarrow> string \<Rightarrow> f64 \<Rightarrow> Logger \<Rightarrow> Logger" where
  "log_with_f64 now level msg value = log_entry now level (StaticWithF64 msg value)"

text \<open>\<open>log_with_value\<close>: the caller formats, \<open>shown\<close> is the value's \<open>Display\<close> text.\<close>

definition log_with_value :: "Nanos \<Rightarrow> LogLevel \<Rightarrow> string \<Rightarrow> string \<Rightarrow> Logger \<Rightarrow> Logger" where
  "log_with_value now level msg shown = log_entry now level (Formatted (msg @ '': '' @ shown))"

text \<open>The macros: with and without a value to show.\<close>

fun log_macro :: "LogLevel \<Rightarrow> Nanos \<Rightarrow> string \<Rightarrow> string option \<Rightarrow> Logger \<Rightarrow> Logger" where
  "log_macro level now msg None lg = log_static now level msg lg"
| "log_macro level now msg (Some shown) lg = log_with_value now level msg shown lg"

definition log_debug :: "Nanos \<Rightarrow> string \<Rightarrow> string option \<Rightarrow> Logger \<Rightarrow> Logger" where
  "log_debug = log_macro Debug"

definition log_info :: "Nanos \<Rightarrow> string \<Rightarrow> string option \<Rightarrow> Logger \<Rightarrow> Logger" where
  "log_info = log_macro Info"

definition log_warn :: "Nanos \<Rightarrow> string \<Rightarrow> string option \<Rightarrow> Logger \<Rightarrow> Logger" where
  "log_warn = log_macro Warn"

definition log_error :: "Nanos \<Rightarrow> string \<Rightarrow> string option \<Rightarrow> Logger \<Rightarrow> Logger" where
  "log_error = log_macro Error"

definition set_level :: "LogLevel \<Rightarrow> Logger \<Rightarrow> Logger" where
  "set_level level lg = lg\<lparr>lg_min_level := level\<rparr>"

definition queue_len :: "Logger \<Rightarrow> usize" where
  "queue_len lg = lf_len (ls_queue (lg_shared lg))"

text \<open>The pop of the writer: the entry is written, or the queue was empty. A fault cannot occur.\<close>

definition writer_pop :: "Logger \<Rightarrow> (bool \<times> Logger) outcome" where
  "writer_pop lg =
     (case lf_pop (ls_queue (lg_shared lg)) of
        Inl f \<Rightarrow> Inl f
      | Inr (None, q) \<Rightarrow> Inr (False, lg\<lparr>lg_shared := (lg_shared lg)\<lparr>ls_queue := q\<rparr>\<rparr>)
      | Inr (Some entry, q) \<Rightarrow>
          Inr (True, lg\<lparr>lg_shared := (lg_shared lg)\<lparr>ls_queue := q\<rparr>, lg_stderr := lg_stderr lg @ write_entry entry\<rparr>))"

text \<open>The end of an iteration of the writer: the idle counter and the pause it takes.\<close>

definition end_iteration :: "nat \<Rightarrow> Logger \<Rightarrow> Logger" where
  "end_iteration processed lg =
     (if 0 < processed then lg\<lparr>lg_writer := At_Head, lg_idle_count := 0, lg_pause := None\<rparr>
      else let idle_count = saturating_add (lg_idle_count lg) 1
           in lg\<lparr>lg_writer := At_Head, lg_idle_count := idle_count, lg_pause := Some (back_off idle_count)\<rparr>)"

text \<open>The first half of \<open>drop\<close>, the stop signal; the second, the join, waits for the writer.\<close>

definition drop_signal :: "Logger \<Rightarrow> Logger" where
  "drop_signal lg = lg\<lparr>lg_shared := (lg_shared lg)\<lparr>ls_running := False\<rparr>, lg_caller := Joining\<rparr>"

inductive logger_step :: "Logger \<Rightarrow> Logger \<Rightarrow> bool" where
  log: "lg_caller lg = Idle \<Longrightarrow> logger_step lg (log_entry now level message lg)"
| level: "lg_caller lg = Idle \<Longrightarrow> logger_step lg (set_level l lg)"
| flush_clear: "lg_caller lg = Idle \<Longrightarrow>
    logger_step lg (lg\<lparr>lg_shared := (lg_shared lg)\<lparr>ls_flush_complete := False\<rparr>, lg_caller := Flush_Cleared\<rparr>)"
| flush_request: "lg_caller lg = Flush_Cleared \<Longrightarrow>
    logger_step lg (lg\<lparr>lg_shared := (lg_shared lg)\<lparr>ls_flush_requested := True\<rparr>, lg_caller := Flush_Waiting\<rparr>)"
| flush_seen: "lg_caller lg = Flush_Waiting \<Longrightarrow> ls_flush_complete (lg_shared lg) \<Longrightarrow>
    logger_step lg (lg\<lparr>lg_caller := Flush_Seen\<rparr>)"
| flush_return: "lg_caller lg = Flush_Seen \<Longrightarrow>
    logger_step lg (lg\<lparr>lg_shared := (lg_shared lg)\<lparr>ls_flush_requested := False\<rparr>, lg_caller := Idle\<rparr>)"
| drop_stop: "lg_caller lg = Idle \<Longrightarrow> logger_step lg (drop_signal lg)"
| drop_join: "lg_caller lg = Joining \<Longrightarrow> lg_writer lg = Returned \<Longrightarrow> logger_step lg (lg\<lparr>lg_caller := Dropped\<rparr>)"
| writer_enter: "lg_writer lg = At_Head \<Longrightarrow> ls_running (lg_shared lg) \<Longrightarrow> logger_step lg (lg\<lparr>lg_writer := Popping 0\<rparr>)"
| writer_leave: "lg_writer lg = At_Head \<Longrightarrow> \<not> ls_running (lg_shared lg) \<Longrightarrow> logger_step lg (lg\<lparr>lg_writer := Final_Drain\<rparr>)"
| writer_write: "lg_writer lg = Popping n \<Longrightarrow> writer_pop lg = Inr (True, lg') \<Longrightarrow>
    logger_step lg (lg'\<lparr>lg_writer := Popping (Suc n)\<rparr>)"
| writer_empty: "lg_writer lg = Popping n \<Longrightarrow> writer_pop lg = Inr (False, lg') \<Longrightarrow>
    logger_step lg (lg'\<lparr>lg_writer := At_Request n\<rparr>)"
| writer_request: "lg_writer lg = At_Request n \<Longrightarrow>
    logger_step lg (lg\<lparr>lg_writer := (if ls_flush_requested (lg_shared lg) then Completing n else At_End n)\<rparr>)"
| writer_complete: "lg_writer lg = Completing n \<Longrightarrow>
    logger_step lg (lg\<lparr>lg_shared := (lg_shared lg)\<lparr>ls_flush_complete := True\<rparr>, lg_writer := At_End n\<rparr>)"
| writer_again: "lg_writer lg = At_End n \<Longrightarrow> logger_step lg (end_iteration n lg)"
| writer_final: "lg_writer lg = Final_Drain \<Longrightarrow> writer_pop lg = Inr (True, lg') \<Longrightarrow> logger_step lg lg'"
| writer_return: "lg_writer lg = Final_Drain \<Longrightarrow> writer_pop lg = Inr (False, lg') \<Longrightarrow>
    logger_step lg (lg'\<lparr>lg_writer := Returned\<rparr>)"

inductive logger_reach :: "Logger \<Rightarrow> bool" where
  created: "Logger_with_level l = Inr lg \<Longrightarrow> logger_reach lg"
| stepped: "logger_reach lg \<Longrightarrow> logger_step lg lg' \<Longrightarrow> logger_reach lg'"

section \<open>Nothing is lost\<close>

abbreviation lg_queue :: "Logger \<Rightarrow> LogEntry lfqueue" where
  "lg_queue lg \<equiv> ls_queue (lg_shared lg)"

definition render :: "LogEntry list \<Rightarrow> string" where
  "render es = concat (map write_entry es)"

definition logger_inv :: "Logger \<Rightarrow> bool" where
  "logger_inv lg \<longleftrightarrow> lf_ok (lg_queue lg) \<and> length (lf_buffer (lg_queue lg)) = 4096 \<and>
     lg_stderr lg @ render (lf_list (lg_queue lg)) = render (lg_accepted lg) \<and>
     (ls_running (lg_shared lg) \<longleftrightarrow> lg_caller lg \<notin> {Joining, Dropped}) \<and>
     (lg_writer lg \<in> {Final_Drain, Returned} \<longrightarrow> \<not> ls_running (lg_shared lg)) \<and>
     (lg_writer lg = Returned \<longrightarrow> lf_list (lg_queue lg) = []) \<and>
     (lg_caller lg = Dropped \<longrightarrow> lg_writer lg = Returned)"

lemma render_simps [simp]: "render [] = []" "render (e # es) = write_entry e @ render es"
  "render (es @ es') = render es @ render es'"
  by (simp_all add: render_def)

text \<open>The two outcomes of a push and of a pop.\<close>

lemma log_entry_cases:
  assumes "lf_ok (lg_queue lg)"
  obtains (ignored) "log_entry now level message lg = lg"
      "level < lg_min_level lg \<or> length (lf_list (lg_queue lg)) = length (lf_buffer (lg_queue lg))"
  | (logged) q entry where "log_entry now level message lg =
        lg\<lparr>lg_shared := (lg_shared lg)\<lparr>ls_queue := q\<rparr>, lg_accepted := lg_accepted lg @ [entry]\<rparr>"
      "lf_ok q" "lf_list q = lf_list (lg_queue lg) @ [entry]" "length (lf_buffer q) = length (lf_buffer (lg_queue lg))"
      "lg_min_level lg \<le> level" "entry = \<lparr>le_timestamp = now, le_level = level, le_message = message\<rparr>"
      "length (lf_list (lg_queue lg)) < length (lf_buffer (lg_queue lg))"
proof (cases "level < lg_min_level lg")
  case True
  then show ?thesis by (intro ignored) (simp_all add: log_entry_def)
next
  case False
  show ?thesis
  proof (cases "length (lf_list (lg_queue lg)) < length (lf_buffer (lg_queue lg))")
    case True
    obtain q where "lf_push (lg_queue lg) \<lparr>le_timestamp = now, le_level = level, le_message = message\<rparr> = (Inr (), q)"
      "lf_ok q" "lf_list q = lf_list (lg_queue lg) @ [\<lparr>le_timestamp = now, le_level = level, le_message = message\<rparr>]"
      "length (lf_buffer q) = length (lf_buffer (lg_queue lg))" using lf_push_ok [OF assms True] by blast
    then show ?thesis using False True by (intro logged [where q = q]) (simp_all add: log_entry_def not_less)
  next
    case full: False
    then have "length (lf_list (lg_queue lg)) = length (lf_buffer (lg_queue lg))" using lf_within_cap [OF assms] by simp
    then show ?thesis using lf_push_full [OF assms] False by (intro ignored) (simp_all add: log_entry_def)
  qed
qed

lemma writer_pop_cases:
  assumes "lf_ok (lg_queue lg)"
  obtains (empty) "writer_pop lg = Inr (False, lg)" "lf_list (lg_queue lg) = []"
  | (entry) q e es where
      "writer_pop lg = Inr (True, lg\<lparr>lg_shared := (lg_shared lg)\<lparr>ls_queue := q\<rparr>, lg_stderr := lg_stderr lg @ write_entry e\<rparr>)"
      "lf_list (lg_queue lg) = e # es" "lf_ok q" "lf_list q = es" "length (lf_buffer q) = length (lf_buffer (lg_queue lg))"
proof (cases "lf_list (lg_queue lg)")
  case Nil
  then show ?thesis using lf_pop_empty [OF Nil] by (intro empty) (simp_all add: writer_pop_def)
next
  case (Cons e es)
  then obtain q where "lf_pop (lg_queue lg) = Inr (Some e, q)" "lf_ok q" "lf_list q = es"
    "length (lf_buffer q) = length (lf_buffer (lg_queue lg))"
    using lf_pop_ok [OF assms Cons] by blast
  with Cons show ?thesis by (intro entry [where q = q and e = e and es = es]) (simp_all add: writer_pop_def)
qed

lemma logger_inv_new: "Logger_with_level l = Inr lg \<Longrightarrow> logger_inv lg"
  by (auto simp: Logger_with_level_def logger_inv_def lf_new_ok split: sum.splits)

lemma logger_inv_ok: "logger_inv lg \<Longrightarrow> lf_ok (lg_queue lg)"
  by (simp add: logger_inv_def)

lemma logger_inv_step: "logger_step lg lg' \<Longrightarrow> logger_inv lg \<Longrightarrow> logger_inv lg'"
proof (induction rule: logger_step.induct)
  case (log lg now level message)
  show ?case using log
    by (cases rule: log_entry_cases [OF logger_inv_ok [OF log(2)], of now level message]) (auto simp: logger_inv_def)
next
  case (writer_write lg n lg')
  then show ?case by (cases rule: writer_pop_cases [OF logger_inv_ok [OF writer_write(3)]]) (auto simp: logger_inv_def)
next
  case (writer_empty lg n lg')
  then show ?case by (cases rule: writer_pop_cases [OF logger_inv_ok [OF writer_empty(3)]]) (auto simp: logger_inv_def)
next
  case (writer_final lg lg')
  then show ?case by (cases rule: writer_pop_cases [OF logger_inv_ok [OF writer_final(3)]]) (auto simp: logger_inv_def)
next
  case (writer_return lg lg')
  then show ?case by (cases rule: writer_pop_cases [OF logger_inv_ok [OF writer_return(3)]]) (auto simp: logger_inv_def)
qed (auto simp: logger_inv_def set_level_def end_iteration_def drop_signal_def Let_def)

lemma logger_reach_inv: "logger_reach lg \<Longrightarrow> logger_inv lg"
  by (induction rule: logger_reach.induct) (auto intro: logger_inv_new logger_inv_step)

section \<open>Shutdown\<close>

text \<open>Once the logger is being dropped, every step brings the end closer.\<close>

fun phase :: "writer_pc \<Rightarrow> nat" where
  "phase (Popping n) = 6"
| "phase (At_Request n) = 5"
| "phase (Completing n) = 4"
| "phase (At_End n) = 3"
| "phase At_Head = 2"
| "phase Final_Drain = 1"
| "phase Returned = 0"

definition remaining :: "Logger \<Rightarrow> nat" where
  "remaining lg = length (lf_list (lg_queue lg)) + phase (lg_writer lg) + of_bool (lg_caller lg = Joining)"

lemma shutdown_step:
  assumes "logger_step lg lg'" "logger_inv lg" "lg_caller lg \<in> {Joining, Dropped}"
  shows "remaining lg' < remaining lg \<and> lg_caller lg' \<in> {Joining, Dropped} \<and> lg_accepted lg' = lg_accepted lg"
proof -
  note pop = writer_pop_cases [OF logger_inv_ok [OF assms(2)]]
  show ?thesis using assms(1)
  proof (cases rule: logger_step.cases)
    case (writer_write n lg')
    then show ?thesis using assms(3) by (cases rule: pop) (auto simp: remaining_def simp del: length_lf_list)
  next
    case (writer_empty n lg')
    then show ?thesis using assms(3) by (cases rule: pop) (auto simp: remaining_def simp del: length_lf_list)
  next
    case writer_final
    then show ?thesis using assms(3) by (cases rule: pop) (auto simp: remaining_def simp del: length_lf_list)
  next
    case (writer_return lg')
    then show ?thesis using assms(3) by (cases rule: pop) (auto simp: remaining_def simp del: length_lf_list)
  qed (use assms(2,3) in \<open>auto simp: remaining_def logger_inv_def end_iteration_def drop_signal_def Let_def simp del: length_lf_list\<close>)
qed

lemma shutdown_progress:
  assumes "logger_inv lg" "lg_caller lg = Joining"
  shows "\<exists>lg'. logger_step lg lg'"
proof -
  note pop = writer_pop_cases [OF logger_inv_ok [OF assms(1)]]
  have r: "\<not> ls_running (lg_shared lg)" using assms by (simp add: logger_inv_def)
  show ?thesis
  proof (cases "lg_writer lg")
    case (Popping n)
    then show ?thesis by (cases rule: pop) (blast intro: logger_step.writer_write logger_step.writer_empty)+
  next
    case Final_Drain
    then show ?thesis by (cases rule: pop) (blast intro: logger_step.writer_final logger_step.writer_return)+
  qed (use assms(2) r in \<open>blast intro: logger_step.intros\<close>)+
qed

section \<open>Properties\<close>

lemma new_queue: "\<exists>q. lf_new 4096 = Inr (q :: LogEntry lfqueue) \<and> lf_ok q \<and> lf_list q = [] \<and> length (lf_buffer q) = 4096"
proof -
  have "is_power_of_two 4096" using is_power_of_two_exp [of 12] by simp
  then obtain q :: "LogEntry lfqueue" where q: "lf_new 4096 = Inr q" by (simp add: lf_new_def)
  from lf_new_ok [OF q] q show ?thesis by simp
qed

text \<open>C20: whatever the two threads do and however they interleave, the text on standard error
  followed by the entries still queued is exactly the entries that were accepted, each once and in
  the order of the calls; the queue holds at most 4096.\<close>

theorem log_is_faithful:
  assumes "logger_reach lg"
  shows "lg_stderr lg @ concat (map write_entry (lf_list (ls_queue (lg_shared lg)))) =
      concat (map write_entry (lg_accepted lg)) \<and> length (lf_list (ls_queue (lg_shared lg))) \<le> 4096"
  using logger_reach_inv [OF assms] lf_within_cap [of "lg_queue lg"]
  by (simp add: logger_inv_def render_def)

theorem log_is_faithful_witness:
  "\<exists>lg. Logger_with_level Warn = Inr lg \<and>
     lg_stderr (log_static (Nanos 1) Debug ''x'' lg) @
       concat (map write_entry (lf_list (ls_queue (lg_shared (log_static (Nanos 1) Debug ''x'' lg))))) = []"
proof -
  obtain q :: "LogEntry lfqueue" where "lf_new 4096 = Inr q" using new_queue by blast
  then obtain lg where lg: "Logger_with_level Warn = Inr lg" "lg_caller lg = Idle" "lg_accepted lg = []" "lg_min_level lg = Warn"
    by (simp add: Logger_with_level_def)
  have "logger_reach (log_entry (Nanos 1) Debug (Static ''x'') lg)"
    by (rule logger_reach.stepped [OF logger_reach.created [OF lg(1)] logger_step.log [OF lg(2)]])
  from log_is_faithful [OF this] lg show ?thesis
    by (simp add: log_static_def log_entry_def less_LogLevel_def)
qed



text \<open>\<open>flush\<close> can return before an entry logged before it is written: when the request arrives
  between the writer's last pop and its look at the request, the writer reports the flush as complete
  with the entry still in the queue. No call but \<open>flush\<close> is possible while it runs, so the entry was
  accepted before the flush began.\<close>

lemma flush_can_return_early:
  "\<exists>lg lg'. logger_reach lg \<and> lg_caller lg = Flush_Seen \<and> logger_step lg lg' \<and> lg_caller lg' = Idle \<and>
     lg_accepted lg' = [\<lparr>le_timestamp = Nanos 1, le_level = Error, le_message = Static ''halt''\<rparr>] \<and> lg_stderr lg' = []"
proof -
  obtain q :: "LogEntry lfqueue" where q: "lf_new 4096 = Inr q" "lf_ok q" "lf_list q = []" "length (lf_buffer q) = 4096"
    using new_queue by blast
  define e where "e = \<lparr>le_timestamp = Nanos 1, le_level = Error, le_message = Static ''halt''\<rparr>"
  obtain q' where q': "lf_push q e = (Inr (), q')" using lf_push_ok [OF q(2), of e] q(3,4) by auto
  define st where "st qu rq cp c w es = \<lparr>lg_shared = \<lparr>ls_queue = qu, ls_running = True, ls_flush_requested = rq, ls_flush_complete = cp\<rparr>,
    lg_min_level = Debug, lg_caller = c, lg_writer = w, lg_idle_count = 0, lg_pause = None, lg_stderr = [], lg_accepted = es\<rparr>"
    for qu rq cp c w and es :: "LogEntry list"
  have 0: "logger_reach (st q False False Idle At_Head [])"
    by (rule logger_reach.created [where l = Debug]) (simp add: Logger_with_level_def q(1) st_def)
  have 1: "logger_reach (st q False False Idle (Popping 0) [])"
    using logger_reach.stepped [OF 0 logger_step.writer_enter] by (simp add: st_def)
  have "writer_pop (st q False False Idle (Popping 0) []) = Inr (False, st q False False Idle (Popping 0) [])"
    using lf_pop_empty [OF q(3)] by (simp add: writer_pop_def st_def)
  from logger_reach.stepped [OF 1 logger_step.writer_empty [OF _ this]]
  have 2: "logger_reach (st q False False Idle (At_Request 0) [])" by (simp add: st_def)
  have "log_entry (Nanos 1) Error (Static ''halt'') (st q False False Idle (At_Request 0) []) = st q' False False Idle (At_Request 0) [e]"
    using q' by (simp add: log_entry_def st_def e_def less_LogLevel_def)
  with logger_reach.stepped [OF 2 logger_step.log [where now = "Nanos 1" and level = Error and message = "Static ''halt''"]]
  have 3: "logger_reach (st q' False False Idle (At_Request 0) [e])" by (simp add: st_def)
  have 4: "logger_reach (st q' False False Flush_Cleared (At_Request 0) [e])"
    using logger_reach.stepped [OF 3 logger_step.flush_clear] by (simp add: st_def)
  have 5: "logger_reach (st q' True False Flush_Waiting (At_Request 0) [e])"
    using logger_reach.stepped [OF 4 logger_step.flush_request] by (simp add: st_def)
  have 6: "logger_reach (st q' True False Flush_Waiting (Completing 0) [e])"
    using logger_reach.stepped [OF 5 logger_step.writer_request [of _ 0]] by (simp add: st_def)
  have 7: "logger_reach (st q' True True Flush_Waiting (At_End 0) [e])"
    using logger_reach.stepped [OF 6 logger_step.writer_complete [of _ 0]] by (simp add: st_def)
  have 8: "logger_reach (st q' True True Flush_Seen (At_End 0) [e])"
    using logger_reach.stepped [OF 7 logger_step.flush_seen] by (simp add: st_def)
  have "logger_step (st q' True True Flush_Seen (At_End 0) [e]) (st q' False True Idle (At_End 0) [e])"
    using logger_step.flush_return [of "st q' True True Flush_Seen (At_End 0) [e]"] by (simp add: st_def)
  with 8 show ?thesis unfolding e_def [symmetric]
    by - (rule exI [where x = "st q' True True Flush_Seen (At_End 0) [e]"],
      rule exI [where x = "st q' False True Idle (At_End 0) [e]"], simp add: st_def)
qed

end
