(* ===== verification/CommonTests.thy ===== *)
theory CommonTests
  imports Types LFQueue MemPool Logging
begin

text \<open>
  The unit tests of the crate \<open>common\<close> (\<open>types.rs\<close>, \<open>lf_queue.rs\<close>, \<open>mem_pool.rs\<close>, \<open>time.rs\<close>,
  \<open>logging.rs\<close>), evaluated on the model. Tests that only read the clock or wait for the writer
  thread are left out.
\<close>

section \<open>Core types\<close>

definition test_side_opposite :: bool where
  "test_side_opposite \<longleftrightarrow> opposite Buy = Sell \<and> opposite Sell = Buy"

definition test_side_as_sign :: bool where
  "test_side_as_sign \<longleftrightarrow> as_sign Buy = 1 \<and> as_sign Sell = - 1"

definition test_invalid_constants :: bool where
  "test_invalid_constants \<longleftrightarrow>
     INVALID_ORDER_ID = 0 \<and> INVALID_TICKER_ID = - 1 \<and> INVALID_CLIENT_ID = - 1 \<and>
     sint INVALID_PRICE = 2 ^ 63 - 1 \<and> INVALID_QTY = - 1"

lemma types_tests_pass: "test_side_opposite" "test_side_as_sign" "test_invalid_constants"
  by code_simp+

section \<open>Lock-free queue\<close>

text \<open>The loops of the tests: pushes that must all be \<open>Ok\<close>, and a number of pops with their results.\<close>

fun push_all :: "'a list \<Rightarrow> 'a lfqueue \<Rightarrow> 'a lfqueue outcome" where
  "push_all [] q = Inr q"
| "push_all (x # xs) q = (case lf_push q x of (Inl _, _) \<Rightarrow> Inl Assertion_Failed | (Inr _, q) \<Rightarrow> push_all xs q)"

fun pop_n :: "nat \<Rightarrow> 'a lfqueue \<Rightarrow> ('a option list \<times> 'a lfqueue) outcome" where
  "pop_n 0 q = Inr ([], q)"
| "pop_n (Suc n) q =
     (case lf_pop q of
        Inl f \<Rightarrow> Inl f
      | Inr (r, q) \<Rightarrow> map_sum id (map_prod (Cons r) id) (pop_n n q))"

definition filled_queue :: "nat \<Rightarrow> 'a list \<Rightarrow> 'a lfqueue outcome" where
  "filled_queue n xs = (case lf_new n of Inl f \<Rightarrow> Inl f | Inr q \<Rightarrow> push_all xs q)"

text \<open>Filling a queue with \<open>xs\<close> and popping as often gives them back in order and empties it.\<close>

definition fifo :: "nat \<Rightarrow> 'a list \<Rightarrow> bool" where
  "fifo n xs \<longleftrightarrow>
     (case filled_queue n xs of
        Inl _ \<Rightarrow> False
      | Inr q \<Rightarrow> passes (pop_n (length xs) q) (\<lambda>(out, q). out = map Some xs \<and> lf_is_empty q))"

definition test_new_queue_is_empty :: bool where
  "test_new_queue_is_empty \<longleftrightarrow>
     passes (lf_new 8 :: u32 lfqueue outcome) (\<lambda>q. lf_is_empty q \<and> \<not> lf_is_full q \<and> lf_len q = 0 \<and> lf_capacity q = 8)"

definition test_single_push_pop :: bool where
  "test_single_push_pop \<longleftrightarrow>
     passes (filled_queue 8 [42 :: u32]) (\<lambda>q. lf_len q = 1 \<and> \<not> lf_is_empty q) \<and>
     (case filled_queue 8 [42 :: u32] of
        Inl _ \<Rightarrow> False
      | Inr q \<Rightarrow> passes (lf_pop q) (\<lambda>(r, q). r = Some 42 \<and> lf_is_empty q \<and> lf_len q = 0))"

definition test_multiple_push_pop :: bool where
  "test_multiple_push_pop \<longleftrightarrow>
     passes (filled_queue 8 [0, 1, 2, 3, 4 :: u32]) (\<lambda>q. lf_len q = 5) \<and> fifo 8 [0, 1, 2, 3, 4 :: u32]"

definition test_pop_empty_returns_none :: bool where
  "test_pop_empty_returns_none \<longleftrightarrow>
     (case lf_new 8 :: u32 lfqueue outcome of
        Inl _ \<Rightarrow> False
      | Inr q \<Rightarrow> passes (pop_n 2 q) (\<lambda>(out, q). out = [None, None]))"

definition test_full_queue_behavior :: bool where
  "test_full_queue_behavior \<longleftrightarrow>
     passes (filled_queue 4 [0, 1, 2, 3 :: u32]) (\<lambda>q. lf_is_full q \<and> lf_len q = 4) \<and>
     (case filled_queue 4 [0, 1, 2, 3 :: u32] of
        Inl _ \<Rightarrow> False
      | Inr q \<Rightarrow> (case lf_push q 100 of (result, q) \<Rightarrow> result = Inl 100 \<and> lf_is_full q))"

text \<open>The rounds of the wrap-around test: fill, check, empty, check.\<close>

fun rounds :: "u32 list \<Rightarrow> u32 lfqueue \<Rightarrow> bool" where
  "rounds [] q = True"
| "rounds (base # bs) q =
     (case push_all [base, base + 1, base + 2, base + 3] q of
        Inl _ \<Rightarrow> False
      | Inr q \<Rightarrow>
          lf_is_full q \<and>
          (case pop_n 4 q of
             Inl _ \<Rightarrow> False
           | Inr (out, q) \<Rightarrow>
               out = [Some base, Some (base + 1), Some (base + 2), Some (base + 3)] \<and> lf_is_empty q \<and> rounds bs q))"

definition test_wraparound_behavior :: bool where
  "test_wraparound_behavior \<longleftrightarrow>
     (case lf_new 4 of Inl _ \<Rightarrow> False | Inr q \<Rightarrow> rounds (map (\<lambda>round. word_of_nat round * 4) [0..<10]) q)"

definition test_interleaved_push_pop :: bool where
  "test_interleaved_push_pop \<longleftrightarrow>
     (case filled_queue 4 [1, 2 :: u32] of
        Inl _ \<Rightarrow> False
      | Inr q \<Rightarrow>
          (case lf_pop q of
             Inl _ \<Rightarrow> False
           | Inr (first, q) \<Rightarrow>
               first = Some 1 \<and>
               (case push_all [3] q of
                  Inl _ \<Rightarrow> False
                | Inr q \<Rightarrow> passes (pop_n 2 q) (\<lambda>(out, q). out = [Some 2, Some 3] \<and> lf_is_empty q))))"

definition test_fifo_order :: bool where
  "test_fifo_order \<longleftrightarrow> fifo 8 [0, 1, 2, 3, 4, 5, 6, 7 :: u32]"

definition test_with_string_type :: bool where
  "test_with_string_type \<longleftrightarrow> fifo 4 [''hello'', ''world'']"

text \<open>The test's struct is a pair of its two fields.\<close>

definition test_with_struct_type :: bool where
  "test_with_struct_type \<longleftrightarrow> fifo 4 [(1 :: u64, Fin (3 / 2)), (2, Fin (5 / 2))]"

definition test_capacity_constant :: bool where
  "test_capacity_constant \<longleftrightarrow>
     passes (lf_new 16 :: u32 lfqueue outcome) (\<lambda>q. lf_capacity q = 16) \<and>
     passes (lf_new 256 :: u32 lfqueue outcome) (\<lambda>q. lf_capacity q = 256)"

definition test_non_power_of_two_panics :: bool where
  "test_non_power_of_two_panics \<longleftrightarrow>
     (case lf_new 5 :: u32 lfqueue outcome of Inl f \<Rightarrow> f = Assertion_Failed | Inr _ \<Rightarrow> False)"

definition test_drop_cleans_up :: bool where
  "test_drop_cleans_up \<longleftrightarrow>
     (case filled_queue 4 [(), (), ()] of
        Inl _ \<Rightarrow> False
      | Inr q \<Rightarrow> map_option (map_sum id (length \<circ> fst)) (lf_drop q []) = Some (Inr 3))"

definition test_single_element_capacity :: bool where
  "test_single_element_capacity \<longleftrightarrow>
     (case filled_queue 1 [42 :: u32] of
        Inl _ \<Rightarrow> False
      | Inr q \<Rightarrow> lf_is_full q \<and> fst (lf_push q 43) = Inl 43 \<and>
          (case lf_pop q of
             Inl _ \<Rightarrow> False
           | Inr (r, q) \<Rightarrow> r = Some 42 \<and> lf_is_empty q \<and>
               (case push_all [44] q of Inl _ \<Rightarrow> False | Inr q \<Rightarrow> passes (lf_pop q) (\<lambda>(r, q). r = Some 44))))"

lemma queue_tests_pass:
  "test_new_queue_is_empty" "test_single_push_pop" "test_multiple_push_pop" "test_pop_empty_returns_none"
  "test_full_queue_behavior" "test_wraparound_behavior" "test_interleaved_push_pop" "test_fifo_order"
  "test_with_string_type" "test_with_struct_type" "test_capacity_constant" "test_non_power_of_two_panics"
  "test_single_element_capacity"
  by code_simp+

lemma queue_drop_test_pass: "test_drop_cleans_up"
proof -
  have "filled_queue 4 [(), (), ()] =
      Inr \<lparr>lf_buffer = [Some (), Some (), Some (), None], lf_tail = 3, lf_head = 0\<rparr>" by code_simp
  then show ?thesis
    by (simp add: test_drop_cleans_up_def lf_drop.simps lf_pop_def lf_MASK_def lf_N_def Let_def)
qed

section \<open>Memory pool\<close>

text \<open>Allocations that must succeed, the writes of a loop, and the release of several slots.\<close>

fun take_slots :: "nat \<Rightarrow> 'a mempool \<Rightarrow> (pool_ptr list \<times> 'a mempool) outcome" where
  "take_slots 0 p = Inr ([], p)"
| "take_slots (Suc n) p =
     (case pool_allocate p of
        Inl f \<Rightarrow> Inl f
      | Inr (None, _) \<Rightarrow> Inl Assertion_Failed
      | Inr (Some ptr, p) \<Rightarrow> map_sum id (map_prod (Cons ptr) id) (take_slots n p))"

fun write_all :: "(pool_ptr \<times> 'a) list \<Rightarrow> 'a mempool \<Rightarrow> 'a mempool" where
  "write_all [] p = p"
| "write_all ((ptr, v) # xs) p = write_all xs (pool_write p ptr v)"

fun free_all :: "pool_ptr list \<Rightarrow> 'a mempool \<Rightarrow> 'a mempool outcome" where
  "free_all [] p = Inr p"
| "free_all (ptr # ptrs) p = (case pool_deallocate p ptr of Inl f \<Rightarrow> Inl f | Inr p \<Rightarrow> free_all ptrs p)"

text \<open>A new pool of \<open>n\<close> slots from which \<open>k\<close> were allocated.\<close>

definition opened :: "nat \<Rightarrow> nat \<Rightarrow> (pool_ptr list \<times> 'a mempool) outcome" where
  "opened n k = (case pool_new n of Inl f \<Rightarrow> Inl f | Inr p \<Rightarrow> take_slots k p)"

definition test_allocation_and_deallocation :: bool where
  "test_allocation_and_deallocation \<longleftrightarrow>
     (case opened 4 0 :: (pool_ptr list \<times> u64 mempool) outcome of Inl _ \<Rightarrow> False | Inr (_, pool) \<Rightarrow>
       pool_capacity pool = 4 \<and> pool_available pool = 4) \<and>
     (case opened 4 1 :: (pool_ptr list \<times> u64 mempool) outcome of Inl _ \<Rightarrow> False | Inr (ptrs, pool) \<Rightarrow>
       pool_available pool = 3 \<and>
       (let ptr = ptrs ! 0; pool = pool_write pool ptr 42 in
        pool_get pool ptr = Inr 42 \<and> passes (pool_deallocate pool ptr) (\<lambda>pool. pool_available pool = 4)))"

definition test_pool_exhaustion :: bool where
  "test_pool_exhaustion \<longleftrightarrow>
     (case opened 2 2 :: (pool_ptr list \<times> u32 mempool) outcome of Inl _ \<Rightarrow> False | Inr (ptrs, pool) \<Rightarrow>
       pool_available pool = 0 \<and>
       passes (pool_allocate pool) (\<lambda>(r, pool). r = None \<and> passes (pool_allocate pool) (\<lambda>(r, _). r = None)) \<and>
       passes (free_all ptrs pool) (\<lambda>_. True))"

definition test_reuse_of_deallocated_slots :: bool where
  "test_reuse_of_deallocated_slots \<longleftrightarrow>
     (case opened 2 2 :: (pool_ptr list \<times> 32 word mempool) outcome of Inl _ \<Rightarrow> False | Inr (ptrs, pool) \<Rightarrow>
       let ptr1 = ptrs ! 0; ptr2 = ptrs ! 1; pool = write_all [(ptr1, 100), (ptr2, 200)] pool in
       (case pool_deallocate pool ptr1 of
          Inl _ \<Rightarrow> False
        | Inr pool \<Rightarrow>
            pool_available pool = 1 \<and>
            (case pool_allocate pool of
               Inr (Some ptr3, pool) \<Rightarrow>
                 ptr3 = ptr1 \<and> pool_available pool = 0 \<and>
                 (let pool = pool_write pool ptr3 300 in
                  pool_get pool ptr3 = Inr 300 \<and> passes (free_all [ptr2, ptr3] pool) (\<lambda>pool. pool_available pool = 2))
             | _ \<Rightarrow> False)))"

text \<open>\<open>drop_in_place\<close> releases what the string owns and has no counterpart.\<close>

definition test_multiple_allocation_deallocation_cycles :: bool where
  "test_multiple_allocation_deallocation_cycles \<longleftrightarrow>
     (case opened 3 1 :: (pool_ptr list \<times> string mempool) outcome of Inl _ \<Rightarrow> False | Inr (ptrs, pool) \<Rightarrow>
       let ptr1 = ptrs ! 0; pool = pool_write pool ptr1 ''hello'' in
       pool_get pool ptr1 = Inr ''hello'' \<and>
       (case pool_deallocate pool ptr1 of
          Inl _ \<Rightarrow> False
        | Inr pool \<Rightarrow>
            (case pool_allocate pool of
               Inr (Some ptr2, pool) \<Rightarrow>
                 (let pool = pool_write pool ptr2 ''world'' in
                  pool_get pool ptr2 = Inr ''world'' \<and> passes (pool_deallocate pool ptr2) (\<lambda>_. True))
             | _ \<Rightarrow> False)))"

text \<open>The test's struct is the triple of its fields; the price is the literal 99.99.\<close>

definition test_with_complex_type :: bool where
  "test_with_complex_type \<longleftrightarrow>
     (case opened 8 1 :: (pool_ptr list \<times> (u64 \<times> f64 \<times> u32) mempool) outcome of Inl _ \<Rightarrow> False | Inr (ptrs, pool) \<Rightarrow>
       let ptr = ptrs ! 0; price = rnd (9999 / 100); pool = pool_write pool ptr (12345, price, 100) in
       passes (pool_get pool ptr) (\<lambda>(id, p, quantity). id = 12345 \<and> p = price \<and> quantity = 100) \<and>
       passes (pool_deallocate pool ptr) (\<lambda>_. True))"

definition test_interleaved_operations :: bool where
  "test_interleaved_operations \<longleftrightarrow>
     (case opened 4 2 :: (pool_ptr list \<times> u8 mempool) outcome of Inl _ \<Rightarrow> False | Inr (ptrs, pool) \<Rightarrow>
       let a = ptrs ! 0; b = ptrs ! 1 in
       (case pool_deallocate (write_all [(a, 1), (b, 2)] pool) a of
          Inl _ \<Rightarrow> False
        | Inr pool \<Rightarrow>
            (case take_slots 2 pool of
               Inl _ \<Rightarrow> False
             | Inr (ptrs, pool) \<Rightarrow>
                 (let c = ptrs ! 0; d = ptrs ! 1; pool = write_all [(c, 3), (d, 4)] pool in
                  pool_get pool b = Inr 2 \<and> pool_get pool c = Inr 3 \<and> pool_get pool d = Inr 4 \<and>
                  passes (free_all [b, c, d] pool) (\<lambda>pool. pool_available pool = 4)))))"

definition test_zero_capacity_panics :: bool where
  "test_zero_capacity_panics \<longleftrightarrow>
     (case pool_new 0 :: u8 mempool outcome of Inl f \<Rightarrow> f = Assertion_Failed | Inr _ \<Rightarrow> False)"

definition test_get_by_index :: bool where
  "test_get_by_index \<longleftrightarrow>
     (case opened 4 1 :: (pool_ptr list \<times> u64 mempool) outcome of Inl _ \<Rightarrow> False | Inr (ptrs, pool) \<Rightarrow>
       let ptr = ptrs ! 0; pool = pool_write pool ptr 42 in
       pool_get_by_index pool ptr = Inr (Some 42) \<and>
       (let pool = pool_write pool ptr 100 in
        pool_get pool ptr = Inr 100 \<and> pool_get_by_index pool 100 = Inr None \<and>
        passes (pool_deallocate pool ptr) (\<lambda>_. True)))"

definition test_get_by_index_unchecked :: bool where
  "test_get_by_index_unchecked \<longleftrightarrow>
     (case opened 4 2 :: (pool_ptr list \<times> u64 mempool) outcome of Inl _ \<Rightarrow> False | Inr (ptrs, pool) \<Rightarrow>
       let ptr1 = ptrs ! 0; ptr2 = ptrs ! 1; pool = write_all [(ptr1, 111), (ptr2, 222)] pool in
       pool_get_by_index_unchecked pool ptr1 = Inr 111 \<and> pool_get_by_index_unchecked pool ptr2 = Inr 222 \<and>
       (let pool = pool_write pool ptr1 333 in
        pool_get pool ptr1 = Inr 333 \<and> passes (free_all [ptr1, ptr2] pool) (\<lambda>_. True)))"

lemma pool_tests_pass:
  "test_allocation_and_deallocation" "test_pool_exhaustion" "test_reuse_of_deallocated_slots"
  "test_multiple_allocation_deallocation_cycles" "test_with_complex_type" "test_interleaved_operations"
  "test_zero_capacity_panics" "test_get_by_index" "test_get_by_index_unchecked"
  by code_simp+

section \<open>Timing\<close>

text \<open>Saturating addition without a detour through large natural numbers, for evaluation.\<close>

lemma saturating_add_code [code]: "saturating_add a b = (if - 1 - a < b then - 1 else a + b)"
proof -
  have lt: "unat a < 2 ^ LENGTH('a)" by (rule unsigned_less)
  then have "unat a \<le> 2 ^ LENGTH('a) - 1" by linarith
  then have "unat (- 1 - a) = 2 ^ LENGTH('a) - 1 - unat a"
    using unat_sub_if' [of "- 1" a] by (simp add: unsigned_minus_1_eq_mask mask_eq_exp_minus_1)
  then have "- 1 - a < b \<longleftrightarrow> \<not> unat a + unat b < 2 ^ LENGTH('a)"
    unfolding word_less_nat_alt using lt by linarith
  then show ?thesis by (simp add: saturating_add_def)
qed

definition test_nanos_creation :: bool where
  "test_nanos_creation \<longleftrightarrow> as_u64 (Nanos_new 12345) = 12345 \<and> nanos_val (Nanos_new 12345) = 12345"

definition test_nanos_from_u64 :: bool where
  "test_nanos_from_u64 \<longleftrightarrow> nanos_val (Nanos 42) = 42 \<and> as_u64 (Nanos 42) = 42"

definition test_nanos_ordering :: bool where
  "test_nanos_ordering \<longleftrightarrow>
     (let a = Nanos 100; b = Nanos 200; c = Nanos 100 in
      nanos_val a < nanos_val b \<and> nanos_val b > nanos_val a \<and> a = c)"

definition test_nanos_subtraction :: bool where
  "test_nanos_subtraction \<longleftrightarrow> Nanos_sub (Nanos 200) (Nanos 100) = 100 \<and> Nanos_sub (Nanos 100) (Nanos 200) = 0"

definition test_nanos_addition :: bool where
  "test_nanos_addition \<longleftrightarrow> nanos_val (Nanos_add (Nanos 100) 50) = 150"

definition test_latency_stats_new :: bool where
  "test_latency_stats_new \<longleftrightarrow>
     (let stats = LatencyStats_new in
      ls_count stats = 0 \<and> latency_mean stats = Fin 0 \<and> ls_min stats = - 1 \<and> ls_max stats = 0)"

definition test_latency_stats_single_record :: bool where
  "test_latency_stats_single_record \<longleftrightarrow>
     (let stats = record_latency 100 LatencyStats_new in
      ls_count stats = 1 \<and> latency_mean stats = Fin 100 \<and> ls_min stats = 100 \<and> ls_max stats = 100)"

definition test_latency_stats_multiple_records :: bool where
  "test_latency_stats_multiple_records \<longleftrightarrow>
     (let stats = record_latency 300 (record_latency 200 (record_latency 100 LatencyStats_new)) in
      ls_count stats = 3 \<and> latency_mean stats = Fin 200 \<and> ls_min stats = 100 \<and> ls_max stats = 300)"

definition test_latency_stats_reset :: bool where
  "test_latency_stats_reset \<longleftrightarrow>
     (let stats = reset_stats (record_latency 200 (record_latency 100 LatencyStats_new)) in
      ls_count stats = 0 \<and> latency_mean stats = Fin 0 \<and> ls_min stats = - 1 \<and> ls_max stats = 0)"

text \<open>The timer tests with clock readings 500 nanoseconds apart.\<close>

definition timed :: "u64 \<Rightarrow> LatencyStats \<Rightarrow> LatencyStats" where
  "timed start stats = ScopedTimer_drop (Nanos (start + 500)) (ScopedTimer_new (Nanos start) stats)"

definition test_scoped_timer :: bool where
  "test_scoped_timer \<longleftrightarrow>
     (let stats = timed 1000 LatencyStats_new in ls_count stats = 1 \<and> (0 < ls_min stats \<or> 0 < ls_max stats))"

definition test_scoped_timer_multiple :: bool where
  "test_scoped_timer_multiple \<longleftrightarrow>
     ls_count (fold timed [1000, 2000, 3000, 4000, 5000] LatencyStats_new) = 5"

definition test_scoped_timer_elapsed :: bool where
  "test_scoped_timer_elapsed \<longleftrightarrow>
     (let timer = ScopedTimer_new (Nanos 1000) LatencyStats_new in
      0 \<le> ScopedTimer_elapsed (Nanos 1200) timer \<and> ls_count (ScopedTimer_drop (Nanos 1500) timer) = 1)"

lemma time_tests_pass:
  "test_nanos_creation" "test_nanos_from_u64" "test_nanos_ordering" "test_nanos_subtraction" "test_nanos_addition"
  "test_latency_stats_new" "test_latency_stats_single_record" "test_latency_stats_multiple_records"
  "test_latency_stats_reset" "test_scoped_timer" "test_scoped_timer_multiple" "test_scoped_timer_elapsed"
  by code_simp+

section \<open>Logging\<close>

definition test_log_level_ordering :: bool where
  "test_log_level_ordering \<longleftrightarrow> Debug < Info \<and> Info < Warn \<and> Warn < Error"

definition test_log_level_display :: bool where
  "test_log_level_display \<longleftrightarrow>
     LogLevel_as_str Debug = ''DEBUG'' \<and> LogLevel_as_str Info = ''INFO'' \<and> LogLevel_as_str Warn = ''WARN'' \<and>
     LogLevel_as_str Error = ''ERROR''"

definition test_logger_creation :: bool where
  "test_logger_creation \<longleftrightarrow> passes Logger_new (\<lambda>logger. ls_running (lg_shared logger) \<and> queue_len logger = 0)"

definition test_logger_with_level :: bool where
  "test_logger_with_level \<longleftrightarrow> passes (Logger_with_level Warn) (\<lambda>logger. lg_min_level logger = Warn)"

definition test_log_message_variants :: bool where
  "test_log_message_variants \<longleftrightarrow>
     write_to (Static ''hello'') = ''hello'' \<and> write_to (StaticWithI64 ''count'' (- 5)) = ''count: -5'' \<and>
     write_to (StaticWithU64 ''size'' 100) = ''size: 100'' \<and>
     write_to (StaticWithF64 ''price'' (Fin (3 / 2))) = ''price: 1.500000'' \<and>
     write_to (Formatted ''custom message'') = ''custom message''"

lemma logging_tests_pass: "test_log_level_ordering" "test_log_level_display"
  by code_simp+

lemma log_message_test_pass: "test_log_message_variants"
proof -
  have "rne 1500000 = 1500000" "char_of (48 :: nat) = CHR ''0''" "char_of (49 :: nat) = CHR ''1''"
    "char_of (53 :: nat) = CHR ''5''" by code_simp+
  then show ?thesis
    by (simp add: test_log_message_variants_def show_int_def show_nat.simps pad_zeros_def Let_def)
qed

text \<open>The queue of 4096 slots is not evaluated.\<close>

lemma logger_new_queue: "(lf_new 4096 :: 'a lfqueue outcome) = Inr \<lparr>lf_buffer = replicate 4096 None, lf_tail = 0, lf_head = 0\<rparr>"
  using is_power_of_two_exp [of 12] by (simp add: lf_new_def)

lemma logger_creation_tests_pass: "test_logger_creation" "test_logger_with_level"
  by (simp_all add: test_logger_creation_def test_logger_with_level_def Logger_new_def Logger_with_level_def logger_new_queue
      passes_def queue_len_def lf_len_def)

section \<open>Defaults and large capacities\<close>

definition test_default_trait :: bool where
  "test_default_trait \<longleftrightarrow> passes (lf_default 8 :: u32 lfqueue outcome) (\<lambda>q. lf_is_empty q \<and> lf_capacity q = 8)"

definition test_latency_stats_default :: bool where
  "test_latency_stats_default \<longleftrightarrow> ls_count LatencyStats_default = 0"

lemma default_tests_pass: "test_default_trait" "test_latency_stats_default"
  by code_simp+

definition test_large_capacity :: bool where
  "test_large_capacity \<longleftrightarrow>
     (let xs = map word_of_nat [0..<1024] :: u64 list in
      passes (filled_queue 1024 xs) lf_is_full \<and> fifo 1024 xs)"

text \<open>The loop that allocates a slot for each value and writes it.\<close>

fun store_each :: "'a list \<Rightarrow> 'a mempool \<Rightarrow> (pool_ptr list \<times> 'a mempool) outcome" where
  "store_each [] p = Inr ([], p)"
| "store_each (v # vs) p =
     (case pool_allocate p of
        Inl f \<Rightarrow> Inl f
      | Inr (None, _) \<Rightarrow> Inl Assertion_Failed
      | Inr (Some ptr, p) \<Rightarrow> map_sum id (map_prod (Cons ptr) id) (store_each vs (pool_write p ptr v)))"

definition test_full_capacity_usage :: bool where
  "test_full_capacity_usage \<longleftrightarrow>
     (case pool_new 64 :: nat mempool outcome of Inl _ \<Rightarrow> False | Inr pool \<Rightarrow>
       (case store_each [0..<64] pool of Inl _ \<Rightarrow> False | Inr (ptrs, pool) \<Rightarrow>
         pool_available pool = 0 \<and> passes (pool_allocate pool) (\<lambda>(r, _). r = None) \<and>
         map (pool_get pool) ptrs = map Inr [0..<64] \<and>
         passes (free_all ptrs pool) (\<lambda>pool. pool_available pool = 64)))"

text \<open>The large queue is not evaluated: its pushes and pops are those of a list.\<close>

lemma push_all_ok:
  "lf_ok q \<Longrightarrow> length (lf_list q) + length xs \<le> length (lf_buffer q) \<Longrightarrow>
     \<exists>q'. push_all xs q = Inr q' \<and> lf_ok q' \<and> lf_list q' = lf_list q @ xs \<and> length (lf_buffer q') = length (lf_buffer q)"
proof (induction xs arbitrary: q)
  case (Cons x xs)
  then have "length (lf_list q) < length (lf_buffer q)" by (simp del: length_lf_list)
  from lf_push_ok [OF Cons.prems(1) this, of x] obtain q1 where q1: "lf_push q x = (Inr (), q1)" "lf_ok q1"
    "lf_list q1 = lf_list q @ [x]" "length (lf_buffer q1) = length (lf_buffer q)" by blast
  with Cons.IH [of q1] Cons.prems(2) show ?case by (auto simp del: length_lf_list)
qed simp

lemma pop_n_ok:
  "lf_ok q \<Longrightarrow> lf_list q = xs \<Longrightarrow> \<exists>q'. pop_n (length xs) q = Inr (map Some xs, q') \<and> lf_ok q' \<and> lf_list q' = []"
proof (induction xs arbitrary: q)
  case (Cons x xs)
  from lf_pop_ok [OF Cons.prems] obtain q1 where "lf_pop q = Inr (Some x, q1)" "lf_ok q1" "lf_list q1 = xs" by blast
  with Cons.IH [of q1] show ?case by auto
qed simp

lemma large_capacity_passes: "test_large_capacity"
proof -
  let ?xs = "map word_of_nat [0..<1024] :: u64 list"
  have "is_power_of_two 1024" using is_power_of_two_exp [of 10] by simp
  then obtain q0 :: "u64 lfqueue" where q0: "lf_new 1024 = Inr q0" by (simp add: lf_new_def)
  have ok: "lf_ok q0" "lf_list q0 = []" "length (lf_buffer q0) = 1024" using lf_new_ok [OF q0] q0 by simp_all
  obtain q where q: "push_all ?xs q0 = Inr q" "lf_ok q" "lf_list q = ?xs" "length (lf_buffer q) = 1024"
    using push_all_ok [OF ok(1), of ?xs] ok(2,3) by (auto simp del: length_lf_list)
  obtain q' where q': "pop_n 1024 q = Inr (map Some ?xs, q')" "lf_list q' = []"
    using pop_n_ok [OF q(2,3)] by auto
  have "unat (lf_len q) = 1024" "unat (lf_len q') = 0"
    using arg_cong [OF q(3), of length] arg_cong [OF q'(2), of length] by simp_all
  then have "lf_is_full q" "lf_is_empty q'"
    by (simp_all add: lf_is_full_def lf_is_empty_def lf_N_def q(4) word_le_nat_alt unat_eq_0)
  with q0 q q' show ?thesis by (simp add: test_large_capacity_def filled_queue_def fifo_def passes_def)
qed

lemma store_each_fills:
  "length S = n \<Longrightarrow> length vs \<le> n \<Longrightarrow>
     store_each vs \<lparr>storage = S, free_list = [0..<n], free_count = length vs\<rparr> =
       Inr (rev [0..<length vs], \<lparr>storage = rev (map Some vs) @ drop (length vs) S, free_list = [0..<n], free_count = 0\<rparr>)"
proof (induction vs arbitrary: S)
  case (Cons v vs)
  let ?k = "length vs"
  have "drop ?k (S[?k := Some v]) = Some v # drop (Suc ?k) S"
    using Cons.prems by (simp add: Cons_nth_drop_Suc [symmetric] drop_update_swap)
  with Cons.IH [of "S[?k := Some v]"] Cons.prems show ?case by (simp add: pool_allocate_def pool_write_def Let_def)
qed simp

lemma free_all_counts:
  "free_count p + length ptrs \<le> length (free_list p) \<Longrightarrow> \<exists>p'. free_all ptrs p = Inr p' \<and> free_count p' = free_count p + length ptrs"
proof (induction ptrs arbitrary: p)
  case (Cons ptr ptrs)
  then show ?case using Cons.IH [of "p\<lparr>free_list := (free_list p)[free_count p := ptr], free_count := free_count p + 1\<rparr>"]
    by (simp add: pool_deallocate_def)
qed simp

lemma full_capacity_usage_passes: "test_full_capacity_usage"
proof -
  let ?vs = "[0..<64] :: nat list"
  let ?p = "\<lparr>storage = rev (map Some ?vs), free_list = [0..<64], free_count = 0\<rparr> :: nat mempool"
  have new: "(pool_new 64 :: nat mempool outcome) = Inr \<lparr>storage = replicate 64 None, free_list = [0..<64], free_count = 64\<rparr>"
    by (simp add: pool_new_def fill_free_list_eq)
  have "store_each ?vs \<lparr>storage = replicate 64 None, free_list = [0..<64], free_count = 64\<rparr> = Inr (rev [0..<64], ?p)"
    using store_each_fills [of "replicate 64 None" 64 ?vs] by simp
  moreover have "map (pool_get ?p) (rev [0..<64]) = map Inr ?vs"
    by (rule nth_equalityI) (simp_all add: rev_nth pool_get_def)
  moreover obtain p' where "free_all (rev [0..<64]) ?p = Inr p'" "free_count p' = 64"
    using free_all_counts [of ?p "rev [0..<64]"] by auto
  ultimately show ?thesis
    using new by (simp add: test_full_capacity_usage_def pool_available_def pool_allocate_def passes_def del: upt_rec_numeral)
qed

end
