(* ===== verification/WireTests.thy ===== *)
theory WireTests
  imports OrderServer Publisher
begin

text \<open>
  The unit tests of \<open>common/src/net\<close>, \<open>exchange/src/protocol.rs\<close>, \<open>exchange/src/order_server.rs\<close>
  and \<open>exchange/src/market_data.rs\<close>, evaluated on the model. Sockets are the scripted ones, so
  what a client thread of a test sends is the script of the connection it opens.
\<close>

section \<open>Wire protocol\<close>

definition test_client_request_size :: bool where
  "test_client_request_size \<longleftrightarrow> CLIENT_REQUEST_SIZE = 30"

definition test_client_response_size :: bool where
  "test_client_response_size \<longleftrightarrow> CLIENT_RESPONSE_SIZE = 42"

definition test_market_update_size :: bool where
  "test_market_update_size \<longleftrightarrow> MARKET_UPDATE_SIZE = 34"

definition test_client_request_roundtrip :: bool where
  "test_client_request_roundtrip \<longleftrightarrow>
     (let bytes = ClientRequest_as_bytes (ClientRequest_new RNew 100 1 12345 1 10050 100) in
      length bytes = CLIENT_REQUEST_SIZE \<and>
      (case ClientRequest_from_bytes bytes of
         None \<Rightarrow> False
       | Some parsed \<Rightarrow>
           rq_msg_type parsed = request_u8 RNew \<and> rq_client_id parsed = 100 \<and> rq_ticker_id parsed = 1 \<and>
           rq_order_id parsed = 12345 \<and> rq_side parsed = 1 \<and> rq_price parsed = 10050 \<and> rq_qty parsed = 100))"

definition test_client_response_roundtrip :: bool where
  "test_client_response_roundtrip \<longleftrightarrow>
     (let bytes = ClientResponse_as_bytes (ClientResponse_new Accepted 100 1 12345 67890 1 10050 0 100) in
      length bytes = CLIENT_RESPONSE_SIZE \<and>
      (case ClientResponse_from_bytes bytes of
         None \<Rightarrow> False
       | Some parsed \<Rightarrow>
           rs_msg_type parsed = response_u8 Accepted \<and> rs_client_id parsed = 100 \<and> rs_ticker_id parsed = 1 \<and>
           rs_client_order_id parsed = 12345 \<and> rs_market_order_id parsed = 67890 \<and> rs_side parsed = 1 \<and>
           rs_price parsed = 10050 \<and> rs_exec_qty parsed = 0 \<and> rs_leaves_qty parsed = 100))"

definition test_market_update_roundtrip :: bool where
  "test_market_update_roundtrip \<longleftrightarrow>
     (let bytes = MarketUpdate_as_bytes (MarketUpdate_new UAdd 1 12345 1 10050 100 99999) in
      length bytes = MARKET_UPDATE_SIZE \<and>
      (case MarketUpdate_from_bytes bytes of
         None \<Rightarrow> False
       | Some parsed \<Rightarrow>
           mu_msg_type parsed = update_u8 UAdd \<and> mu_ticker_id parsed = 1 \<and> mu_order_id parsed = 12345 \<and>
           mu_side parsed = 1 \<and> mu_price parsed = 10050 \<and> mu_qty parsed = 100 \<and> mu_priority parsed = 99999))"

definition test_request_type_conversion :: bool where
  "test_request_type_conversion \<longleftrightarrow>
     ClientRequestType_from_u8 1 = Some RNew \<and> ClientRequestType_from_u8 2 = Some RCancel \<and>
     ClientRequestType_from_u8 0 = None \<and> ClientRequestType_from_u8 255 = None"

definition test_response_type_conversion :: bool where
  "test_response_type_conversion \<longleftrightarrow>
     ClientResponseType_from_u8 1 = Some Accepted \<and> ClientResponseType_from_u8 2 = Some Canceled \<and>
     ClientResponseType_from_u8 3 = Some Filled \<and> ClientResponseType_from_u8 4 = Some CancelRejected \<and>
     ClientResponseType_from_u8 5 = Some InvalidRequest \<and> ClientResponseType_from_u8 0 = None"

definition test_market_update_type_conversion :: bool where
  "test_market_update_type_conversion \<longleftrightarrow>
     MarketUpdateType_from_u8 1 = Some UAdd \<and> MarketUpdateType_from_u8 2 = Some UModify \<and>
     MarketUpdateType_from_u8 3 = Some UCancel \<and> MarketUpdateType_from_u8 4 = Some UTrade \<and>
     MarketUpdateType_from_u8 5 = Some USnapshot \<and> MarketUpdateType_from_u8 6 = Some UClear \<and>
     MarketUpdateType_from_u8 0 = None"

definition test_from_bytes_with_wrong_size :: bool where
  "test_from_bytes_with_wrong_size \<longleftrightarrow>
     (let too_small = replicate 10 0 in
      ClientRequest_from_bytes too_small = None \<and> ClientResponse_from_bytes too_small = None \<and>
      MarketUpdate_from_bytes too_small = None)"

lemma protocol_tests_pass:
  "test_client_request_size" "test_client_response_size" "test_market_update_size" "test_client_request_roundtrip"
  "test_client_response_roundtrip" "test_market_update_roundtrip" "test_request_type_conversion"
  "test_response_type_conversion" "test_market_update_type_conversion" "test_from_bytes_with_wrong_size"
  by code_simp+

section \<open>Sockets\<close>

text \<open>The assertion on an \<open>io::Result\<close> after \<open>unwrap\<close>, and the resolution of the local address.\<close>

definition io_passes :: "'a io \<Rightarrow> ('a \<Rightarrow> bool) \<Rightarrow> bool" where
  "io_passes r P = (case r of Inl _ \<Rightarrow> False | Inr a \<Rightarrow> P a)"

definition local_resolve :: "string \<Rightarrow> u16 \<Rightarrow> socket_addr list io" where
  "local_resolve addr port = map_sum id (\<lambda>a. [SockV4 a port]) (addr_or_err addr)"

definition test_listener_bind :: bool where
  "test_listener_bind \<longleftrightarrow> io_passes (TcpListener_bind script_api (local_resolve ''127.0.0.1'' 0)) (\<lambda>_. True)"

definition test_listener_nonblocking :: bool where
  "test_listener_nonblocking \<longleftrightarrow>
     io_passes (TcpListener_bind script_api (local_resolve ''127.0.0.1'' 0)) (\<lambda>listener.
       case TcpListener_set_nonblocking script_api True listener of (r, listener) \<Rightarrow>
         r = Inr () \<and> fst (TcpListener_set_nonblocking script_api False listener) = Inr ())"

definition test_multicast_socket_new :: bool where
  "test_multicast_socket_new \<longleftrightarrow> io_passes (MulticastSocket_new script_api) (\<lambda>_. True)"

definition test_multicast_socket_nonblocking :: bool where
  "test_multicast_socket_nonblocking \<longleftrightarrow>
     io_passes (MulticastSocket_new script_api) (\<lambda>socket.
       case MulticastSocket_set_nonblocking script_api True socket of (r, socket) \<Rightarrow>
         r = Inr () \<and> fst (MulticastSocket_set_nonblocking script_api False socket) = Inr ())"

definition test_invalid_multicast_address :: bool where
  "test_invalid_multicast_address \<longleftrightarrow>
     (case MulticastSocket_join_group script_api ''192.168.1.1'' 5000 ''0.0.0.0'' of Inl _ \<Rightarrow> True | Inr _ \<Rightarrow> False)"

lemma socket_tests_pass:
  "test_listener_bind" "test_listener_nonblocking" "test_multicast_socket_new" "test_multicast_socket_nonblocking"
  "test_invalid_multicast_address"
  by code_simp+

section \<open>Order server\<close>

definition local_server :: "script OrderServer io" where
  "local_server = OrderServer_new script_api local_resolve (OrderServerConfig_new ''127.0.0.1'' 0)"

text \<open>The same server with connections that wait: for each, what its receives will return.\<close>

definition peers :: "u8 list io list list \<Rightarrow> script OrderServer io" where
  "peers scripts =
     map_sum id (\<lambda>server. server\<lparr>os_listener := (os_listener server)\<lparr>sc_pending := scripts\<rparr>\<rparr>) local_server"

definition accepted :: "ClientId \<Rightarrow> u8 list io list \<Rightarrow> script ClientConnection" where
  "accepted k chunks =
     ClientConnection_new k (TcpSocket_from_socket \<lparr>sc_mode = True, sc_incoming = chunks, sc_sent = [], sc_pending = []\<rparr>)"

definition new_order_request :: "ClientId \<Rightarrow> OrderId \<Rightarrow> Price \<Rightarrow> Qty \<Rightarrow> ClientRequest" where
  "new_order_request client_id order_id price qty = ClientRequest_new RNew client_id 1 order_id 1 price qty"

definition test_fifo_sequencer :: bool where
  "test_fifo_sequencer \<longleftrightarrow>
     (let sequencer = FifoSequencer_new; (n1, sequencer1) = FifoSequencer_next sequencer;
          (n2, sequencer2) = FifoSequencer_next sequencer1; (n3, sequencer3) = FifoSequencer_next sequencer2 in
      FifoSequencer_current sequencer = 1 \<and> n1 = 1 \<and> n2 = 2 \<and> n3 = 3 \<and> FifoSequencer_current sequencer3 = 4)"

definition test_order_server_config_default :: bool where
  "test_order_server_config_default \<longleftrightarrow>
     (let config = OrderServerConfig_default in
      listen_addr config = ''0.0.0.0'' \<and> osc_port config = DEFAULT_ORDER_SERVER_PORT)"

definition test_order_server_config_new :: bool where
  "test_order_server_config_new \<longleftrightarrow>
     (let config = OrderServerConfig_new ''127.0.0.1'' 9999 in
      listen_addr config = ''127.0.0.1'' \<and> osc_port config = 9999)"

definition test_order_server_creation :: bool where
  "test_order_server_creation \<longleftrightarrow>
     io_passes local_server (\<lambda>server. client_count server = 0 \<and> OrderServer_is_empty server \<and> current_sequence server = 1)"

definition test_order_server_on_port :: bool where
  "test_order_server_on_port \<longleftrightarrow> io_passes (OrderServer_on_port script_api local_resolve 0) (\<lambda>_. True)"

definition test_order_server_poll_empty :: bool where
  "test_order_server_poll_empty \<longleftrightarrow>
     (case local_server of Inl _ \<Rightarrow> False | Inr server \<Rightarrow> map_option fst (poll script_api [] server) = Some [])"

definition test_client_connection_and_message :: bool where
  "test_client_connection_and_message \<longleftrightarrow>
     (case local_server of
        Inl _ \<Rightarrow> False
      | Inr server \<Rightarrow>
          (case poll script_api [] server of
             None \<Rightarrow> False
           | Some (requests, server) \<Rightarrow> requests = [] \<and> client_count server = 0))"

definition test_send_response_no_client :: bool where
  "test_send_response_no_client \<longleftrightarrow>
     (case local_server of
        Inl _ \<Rightarrow> False
      | Inr server \<Rightarrow>
          (case fst (send_response script_api 1 (ClientResponse_new Accepted 1 1 1 1 1 10000 0 100) server) of
             Inl _ \<Rightarrow> True
           | Inr _ \<Rightarrow> False))"

definition test_disconnect_nonexistent_client :: bool where
  "test_disconnect_nonexistent_client \<longleftrightarrow> io_passes local_server (\<lambda>server. \<not> fst (disconnect_client server 999))"

definition test_disconnect_all :: bool where
  "test_disconnect_all \<longleftrightarrow> io_passes local_server (\<lambda>server. client_count (disconnect_all server) = 0)"

definition test_client_ids_empty :: bool where
  "test_client_ids_empty \<longleftrightarrow> io_passes local_server (\<lambda>server. client_ids server = {||})"

definition test_sequenced_request_structure :: bool where
  "test_sequenced_request_structure \<longleftrightarrow>
     (let seq_request = \<lparr>sequence_number = 42, sr_client_id = 1, sr_request = ClientRequest_new RNew 1 1 12345 1 10050 100\<rparr> in
      sequence_number seq_request = 42 \<and> sr_client_id seq_request = 1 \<and> rq_order_id (sr_request seq_request) = 12345)"

definition test_client_connection_integration :: bool where
  "test_client_connection_integration \<longleftrightarrow>
     (case fst (ClientConnection_receive script_api
             (accepted 1 [Inr (ClientRequest_as_bytes (new_order_request 1 12345 10050 100))])) of
        Inl _ \<Rightarrow> False
      | Inr requests \<Rightarrow>
          length requests = 1 \<and>
          (let req = requests ! 0 in
           rq_msg_type req = request_u8 RNew \<and> rq_order_id req = 12345 \<and> rq_ticker_id req = 1 \<and>
           rq_price req = 10050 \<and> rq_qty req = 100))"

text \<open>One \<open>poll\<close> of a server on which the peers wait; its map then holds the clients \<open>ks\<close>.\<close>

definition polled :: "ClientId list \<Rightarrow> u8 list io list list \<Rightarrow>
    (SequencedRequest list \<Rightarrow> script OrderServer \<Rightarrow> bool) \<Rightarrow> bool" where
  "polled ks scripts P =
     (case peers scripts of
        Inl _ \<Rightarrow> False
      | Inr server \<Rightarrow>
          (case poll script_api ks server of None \<Rightarrow> False | Some (requests, server) \<Rightarrow> P requests server))"

definition test_full_server_integration :: bool where
  "test_full_server_integration \<longleftrightarrow>
     polled [1] [[Inr (ClientRequest_as_bytes (new_order_request 1 9999 15000 50))]] (\<lambda>received_requests server.
       received_requests \<noteq> [] \<and>
       (let first_request = received_requests ! 0 in
        sequence_number first_request = 1 \<and> rq_order_id (sr_request first_request) = 9999 \<and>
        rq_price (sr_request first_request) = 15000 \<and> rq_qty (sr_request first_request) = 50) \<and>
       1 \<le> client_count server)"

definition test_multiple_clients :: bool where
  "test_multiple_clients \<longleftrightarrow>
     polled [1, 2, 3]
       (map (\<lambda>i. [Inr (ClientRequest_as_bytes
          (new_order_request (word_of_nat i + 1) (word_of_nat i + 1) (10000 + word_of_nat i * 100) ((word_of_nat i + 1) * 10)))])
          [0, 1, 2])
       (\<lambda>all_requests server.
         length all_requests = 3 \<and> sorted_wrt (<) (map sequence_number all_requests))"

definition test_send_response_to_client :: bool where
  "test_send_response_to_client \<longleftrightarrow>
     polled [1] [[]] (\<lambda>_ server.
       1 \<le> client_count server \<and> client_ids server = {|1|} \<and>
       (case send_response script_api 1 (ClientResponse_new Accepted 1 1 1 1 1 10000 0 100) server of
          (Inl _, _) \<Rightarrow> False
        | (Inr _, server) \<Rightarrow>
            (case map_option (sc_sent \<circ> tcp_socket \<circ> cc_socket) (get_client server 1) of
               Some [data] \<Rightarrow>
                 length data = CLIENT_RESPONSE_SIZE \<and>
                 map_option rs_msg_type (ClientResponse_from_bytes data) = Some (response_u8 Accepted)
             | _ \<Rightarrow> False)))"

definition test_broadcast :: bool where
  "test_broadcast \<longleftrightarrow>
     polled [1, 2] [[], []] (\<lambda>_ server.
       client_count server = 2 \<and>
       fst (broadcast script_api (ClientResponse_new Filled 0 1 1 1 1 10000 100 0) [1, 2] server) = 2)"

lemma order_server_tests_pass:
  "test_fifo_sequencer" "test_order_server_config_default" "test_order_server_config_new"
  "test_order_server_creation" "test_order_server_on_port" "test_send_response_no_client"
  "test_disconnect_nonexistent_client" "test_disconnect_all" "test_client_ids_empty" "test_sequenced_request_structure"
  by code_simp+

text \<open>The accept loop and the receive buffers of 64 KiB are not evaluated but rewritten.\<close>

lemma accept_none:
  "sc_pending (os_listener sv) = [] \<Longrightarrow> accept_connections script_api sv = Some sv"
  by (subst accept_connections.simps) (simp add: script_defs)

lemma accept_some:
  assumes "sc_pending (os_listener sv) = c # cs"
  shows "accept_connections script_api sv =
    accept_connections script_api
      (sv\<lparr>os_listener := (os_listener sv)\<lparr>sc_pending := cs\<rparr>, os_next_client_id := os_next_client_id sv + 1,
          os_clients := fmupd (os_next_client_id sv) (accepted (os_next_client_id sv) c) (os_clients sv)\<rparr>)"
  using assms
  by (subst accept_connections.simps)
    (simp add: script_defs TcpSocket_from_socket_def TcpSocket_set_nonblocking_def accepted_def Let_def)

lemma accepted_receive:
  "ClientConnection_receive script_api (accepted k []) = (Inr [], accepted k [])"
  "ClientConnection_receive script_api (accepted k (Inr (ClientRequest_as_bytes r) # chunks)) = (Inr [r], accepted k chunks)"
proof -
  have 1: "parse_frames ClientRequest_from_bytes CLIENT_REQUEST_SIZE [] = ([], [])"
    using rq.parse_concat [of "[]" "[]"] rq.size_pos by simp
  have 2: "parse_frames ClientRequest_from_bytes CLIENT_REQUEST_SIZE (ClientRequest_as_bytes r) = ([r], [])"
    using rq.parse_concat [of "[]" "[r]"] rq.size_pos by simp
  have 3: "ClientRequest_as_bytes r \<noteq> []" using rq.enc_len [of r] rq.size_pos by fastforce
  show "ClientConnection_receive script_api (accepted k []) = (Inr [], accepted k [])"
    by (simp add: script_defs accepted_def ClientConnection_receive_def parse_requests_def ClientConnection_new_def
        TcpSocket_from_socket_def Let_def 1)
  show "ClientConnection_receive script_api (accepted k (Inr (ClientRequest_as_bytes r) # chunks)) = (Inr [r], accepted k chunks)"
    using 3 by (simp add: script_defs accepted_def ClientConnection_receive_def parse_requests_def ClientConnection_new_def
        TcpSocket_from_socket_def Let_def 2)
qed

definition answered :: "ClientId \<Rightarrow> ClientResponse \<Rightarrow> script ClientConnection" where
  "answered k r = snd (ClientConnection_send script_api r (accepted k []))"

lemma accepted_send:
  "ClientConnection_send script_api r (accepted k []) = (Inr CLIENT_RESPONSE_SIZE, answered k r)"
  "sc_sent (tcp_socket (cc_socket (answered k r))) = [ClientResponse_as_bytes r]"
proof -
  have "length (ClientResponse_as_bytes r) = CLIENT_RESPONSE_SIZE" "CLIENT_RESPONSE_SIZE \<le> BUFFER_SIZE"
    by (simp_all add: ClientResponse_as_bytes_def CLIENT_RESPONSE_SIZE_def BUFFER_SIZE_def)
  then show "ClientConnection_send script_api r (accepted k []) = (Inr CLIENT_RESPONSE_SIZE, answered k r)"
      "sc_sent (tcp_socket (cc_socket (answered k r))) = [ClientResponse_as_bytes r]"
    by (simp_all add: answered_def ClientConnection_send_def TcpSocket_send_def accepted_def ClientConnection_new_def
        TcpSocket_from_socket_def script_defs Let_def)
qed

lemma local_server_eq:
  "local_server = Inr
     \<lparr>os_listener = \<lparr>sc_mode = True, sc_incoming = [], sc_sent = [], sc_pending = []\<rparr>,
      os_clients = fmempty, os_sequencer = FifoSequencer_new, os_next_client_id = 1,
      os_config = OrderServerConfig_new ''127.0.0.1'' 0\<rparr>"
proof -
  have "parse_ipv4 ''127.0.0.1'' = Some (127, 0, 0, 1)" by code_simp
  then show ?thesis
    by (simp add: local_server_def OrderServer_new_def local_resolve_def OrderServerConfig_new_def script_defs)
qed

lemmas poll_evals = polled_def peers_def local_server_eq poll_def accept_none accept_some accepted_receive accepted_send
  FifoSequencer_new_def FifoSequencer_next_def client_count_def client_ids_def send_response_def get_client_def fcard.rep_eq Let_def

lemma order_server_poll_tests_pass:
  "test_order_server_poll_empty" "test_client_connection_and_message"
  by (simp_all add: test_order_server_poll_empty_def test_client_connection_and_message_def poll_evals)

lemma order_server_receive_tests_pass:
  "test_client_connection_integration" "test_full_server_integration" "test_multiple_clients"
  by (simp_all add: test_client_connection_integration_def test_full_server_integration_def test_multiple_clients_def
      new_order_request_def ClientRequest_new_def poll_evals)

lemma order_server_send_tests_pass: "test_send_response_to_client" "test_broadcast"
  by (simp_all add: test_send_response_to_client_def test_broadcast_def poll_evals rs.enc_len rs.dec_enc ClientResponse_new_def
      card_insert_if)

section \<open>Market data publisher\<close>

definition create_test_config :: MarketDataPublisherConfig where
  "create_test_config =
     \<lparr>mc_multicast_addr = ''239.255.0.1'', mc_port = 5001, mc_interface = ''0.0.0.0'', mc_ttl = 1,
      mc_enable_snapshots = True, mc_snapshot_interval = 100\<rparr>"

text \<open>Updates published one after the other, each result unwrapped; a snapshot visits ticker 1.\<close>

definition published :: "MarketDataPublisherConfig \<Rightarrow> MarketUpdate list \<Rightarrow> script MarketDataPublisher io" where
  "published config updates =
     (case MarketDataPublisher_new script_api config of
        Inl e \<Rightarrow> Inl e
      | Inr publisher \<Rightarrow>
          (case publish_batch script_api (map (Pair [1]) updates) 0 publisher of
             (Inl e, _) \<Rightarrow> Inl e
           | (Inr _, publisher) \<Rightarrow> Inr publisher))"

definition mdp_test_config_default :: bool where
  "mdp_test_config_default \<longleftrightarrow>
     (let config = MarketDataPublisherConfig_default in
      mc_multicast_addr config = ''239.255.0.1'' \<and> mc_port config = 5000 \<and> mc_interface config = ''0.0.0.0'' \<and>
      mc_ttl config = 1 \<and> mc_enable_snapshots config \<and> mc_snapshot_interval config = 1000)"

definition test_market_update_serialization :: bool where
  "test_market_update_serialization \<longleftrightarrow>
     (let update = MarketUpdate_new UAdd 1 12345 1 10050 100 99999; bytes = MarketUpdate_as_bytes update in
      length bytes = MARKET_UPDATE_SIZE \<and>
      (case MarketUpdate_from_bytes bytes of
         None \<Rightarrow> False
       | Some parsed \<Rightarrow>
           mu_msg_type parsed = update_u8 UAdd \<and> mu_ticker_id parsed = 1 \<and> mu_order_id parsed = 12345 \<and>
           mu_side parsed = 1 \<and> mu_price parsed = 10050 \<and> mu_qty parsed = 100 \<and> mu_priority parsed = 99999))"

definition test_ticker_state_default :: bool where
  "test_ticker_state_default \<longleftrightarrow>
     (let st = TickerState_default in
      ts_bid_price st = 0 \<and> ts_bid_qty st = 0 \<and> ts_ask_price st = 0 \<and> ts_ask_qty st = 0 \<and> ts_last_seq st = 0)"

definition test_ticker_state_update_bid :: bool where
  "test_ticker_state_update_bid \<longleftrightarrow>
     (let st = TickerState_default\<lparr>ts_bid_price := 10050, ts_bid_qty := 100\<rparr> in
      ts_bid_price st = 10050 \<and> ts_bid_qty st = 100)"

definition test_ticker_state_update_ask :: bool where
  "test_ticker_state_update_ask \<longleftrightarrow>
     (let st = TickerState_default\<lparr>ts_ask_price := 10060, ts_ask_qty := 200\<rparr> in
      ts_ask_price st = 10060 \<and> ts_ask_qty st = 200)"

definition test_ticker_state_cancel_reduces_qty :: bool where
  "test_ticker_state_cancel_reduces_qty \<longleftrightarrow>
     (let st = TickerState_default\<lparr>ts_bid_price := 10050, ts_bid_qty := 100\<rparr>;
          partial = st\<lparr>ts_bid_qty := saturating_sub (ts_bid_qty st) 30\<rparr>;
          full = partial\<lparr>ts_bid_qty := saturating_sub (ts_bid_qty partial) 100\<rparr> in
      ts_bid_qty partial = 70 \<and> ts_bid_qty full = 0)"

definition test_market_update_types :: bool where
  "test_market_update_types \<longleftrightarrow>
     list_all (\<lambda>(i, ty). update_type (MarketUpdate_new ty 1 (word_of_nat i + 1) 1 10000 100 (word_of_nat i)) = Some ty)
       (List.enumerate 0 [UAdd, UModify, UCancel, UTrade, USnapshot, UClear])"

definition test_publisher_creation :: bool where
  "test_publisher_creation \<longleftrightarrow> io_passes (MarketDataPublisher_new script_api create_test_config) (\<lambda>_. True)"

definition test_publisher_with_defaults :: bool where
  "test_publisher_with_defaults \<longleftrightarrow> io_passes (MarketDataPublisher_with_defaults script_api) (\<lambda>_. True)"

definition test_publisher_register_ticker :: bool where
  "test_publisher_register_ticker \<longleftrightarrow>
     io_passes (MarketDataPublisher_new script_api create_test_config) (\<lambda>publisher.
       mdp_ticker_count publisher = 0 \<and> mdp_ticker_count (register_ticker 1 publisher) = 1 \<and>
       mdp_ticker_count (register_ticker 2 (register_ticker 1 publisher)) = 2 \<and>
       mdp_ticker_count (register_ticker 1 (register_ticker 2 (register_ticker 1 publisher))) = 2)"

definition test_publisher_initial_state :: bool where
  "test_publisher_initial_state \<longleftrightarrow>
     io_passes (MarketDataPublisher_new script_api create_test_config) (\<lambda>publisher.
       mp_sequence publisher = 0 \<and> mp_total_updates_sent publisher = 0 \<and> mp_total_bytes_sent publisher = 0 \<and>
       mdp_ticker_count publisher = 0 \<and> mc_multicast_addr (mp_config publisher) = ''239.255.0.1'' \<and>
       mc_port (mp_config publisher) = 5001)"

definition test_publisher_publish_updates_stats :: bool where
  "test_publisher_publish_updates_stats \<longleftrightarrow>
     io_passes (published create_test_config [MarketUpdate_new UAdd 1 1 (side_i8 Buy) 10050 100 1]) (\<lambda>publisher.
       mp_sequence publisher = 1 \<and> mp_total_updates_sent publisher = 1 \<and> 0 < mp_total_bytes_sent publisher \<and>
       mdp_ticker_count publisher = 1)"

definition test_publisher_publish_batch :: bool where
  "test_publisher_publish_batch \<longleftrightarrow>
     io_passes (published create_test_config
         (map (\<lambda>i. MarketUpdate_new UAdd 1 (word_of_nat i) (side_i8 Buy) (10050 + word_of_nat i) 100 (word_of_nat i)) [0..<5]))
       (\<lambda>publisher. mp_sequence publisher = 5 \<and> mp_total_updates_sent publisher = 5)"

definition test_publisher_ticker_state_tracking :: bool where
  "test_publisher_ticker_state_tracking \<longleftrightarrow>
     io_passes (published create_test_config
         [MarketUpdate_new UAdd 1 1 (side_i8 Buy) 10050 100 1, MarketUpdate_new UAdd 1 2 (side_i8 Sell) 10060 200 2])
       (\<lambda>publisher. get_ticker_state publisher 1 = Some (10050, 100, 10060, 200))"

definition test_publisher_snapshot_interval :: bool where
  "test_publisher_snapshot_interval \<longleftrightarrow>
     io_passes (published (create_test_config\<lparr>mc_snapshot_interval := 3\<rparr>)
         (map (\<lambda>i. MarketUpdate_new UAdd 1 (word_of_nat i) (side_i8 Buy) 10050 100 (word_of_nat i)) [0..<4]))
       (\<lambda>publisher. 4 \<le> mp_total_updates_sent publisher)"

definition test_publisher_clear :: bool where
  "test_publisher_clear \<longleftrightarrow>
     (case MarketDataPublisher_new script_api create_test_config of
        Inl _ \<Rightarrow> False
      | Inr publisher \<Rightarrow>
          mdp_ticker_count (register_ticker 1 publisher) = 1 \<and>
          (case publish_clear script_api 1 (register_ticker 1 publisher) of
             (Inl _, _) \<Rightarrow> False
           | (Inr _, publisher) \<Rightarrow> get_ticker_state publisher 1 = None))"

lemma publisher_state_tests_pass:
  "mdp_test_config_default" "test_market_update_serialization" "test_ticker_state_default"
  "test_ticker_state_update_bid" "test_ticker_state_update_ask" "test_ticker_state_cancel_reduces_qty"
  "test_market_update_types"
  by code_simp+

lemma publisher_socket_tests_pass:
  "test_publisher_creation" "test_publisher_with_defaults" "test_publisher_register_ticker"
  "test_publisher_initial_state" "test_publisher_publish_updates_stats" "test_publisher_publish_batch"
  "test_publisher_ticker_state_tracking" "test_publisher_snapshot_interval" "test_publisher_clear"
  by code_simp+

section \<open>Constants and defaults\<close>

definition test_fifo_sequencer_default :: bool where
  "test_fifo_sequencer_default \<longleftrightarrow> FifoSequencer_current FifoSequencer_default = 1"

text \<open>The size of a packed struct is the number of bytes of its fields.\<close>

definition test_message_sizes :: bool where
  "test_message_sizes \<longleftrightarrow>
     CLIENT_REQUEST_SIZE = length (ClientRequest_as_bytes (ClientRequest_new RNew 0 0 0 0 0 0)) \<and>
     CLIENT_RESPONSE_SIZE = length (ClientResponse_as_bytes (ClientResponse_new Accepted 0 0 0 0 0 0 0 0))"

lemma wire_constant_tests_pass: "test_fifo_sequencer_default" "test_message_sizes"
  by code_simp+

end
