(* ===== verification/MatchingTests.thy ===== *)
theory MatchingTests
  imports MatchingEngine
begin

text \<open>
  The unit tests of \<open>exchange/src/matching_engine.rs\<close>. The pools of 65536 slots of the books are not
  evaluated: each run of the engine is replaced by the run of the abstract engine it refines.
\<close>

section \<open>The tests\<close>

definition test_new_matching_engine :: bool where
  "test_new_matching_engine \<longleftrightarrow> ticker_count MatchingEngine_new = 0 \<and> next_order_id MatchingEngine_new = 1"

definition test_add_ticker :: bool where
  "test_add_ticker \<longleftrightarrow>
     passes (add_tickers [1, 2] MatchingEngine_new) (\<lambda>engine.
       ticker_count engine = 2 \<and> get_order_book engine 1 \<noteq> None \<and> get_order_book engine 2 \<noteq> None \<and>
       get_order_book engine 3 = None)"

definition test_add_duplicate_ticker :: bool where
  "test_add_duplicate_ticker \<longleftrightarrow>
     passes (add_tickers [1, 1] MatchingEngine_new) (\<lambda>engine. ticker_count engine = 1)"

text \<open>One request to an engine with the given tickers.\<close>

definition replies :: "TickerId list \<Rightarrow> ClientRequest \<Rightarrow> (ClientResponse \<Rightarrow> MarketUpdate list \<Rightarrow> MatchingEngine \<Rightarrow> bool) \<Rightarrow> bool" where
  "replies tickers request P =
     (case add_tickers tickers MatchingEngine_new of
        Inl _ \<Rightarrow> False
      | Inr engine \<Rightarrow>
          (case process_request engine request of
             Inl _ \<Rightarrow> False
           | Inr ((response, updates), engine) \<Rightarrow> P response updates engine))"

definition test_new_order_accepted :: bool where
  "test_new_order_accepted \<longleftrightarrow>
     replies [1] (ClientRequest_new RNew 100 1 12345 1 10050 100) (\<lambda>response updates engine.
       rs_msg_type response = response_u8 Accepted \<and> rs_client_id response = 100 \<and> rs_ticker_id response = 1 \<and>
       rs_client_order_id response = 12345 \<and> rs_market_order_id response = 1 \<and> rs_side response = 1 \<and>
       rs_price response = 10050 \<and> rs_exec_qty response = 0 \<and> rs_leaves_qty response = 100 \<and>
       length updates = 1 \<and>
       (let update = updates ! 0 in
        mu_msg_type update = update_u8 UAdd \<and> mu_ticker_id update = 1 \<and> mu_order_id update = 1 \<and>
        mu_side update = 1 \<and> mu_price update = 10050 \<and> mu_qty update = 100) \<and>
       next_order_id engine = 2)"

definition test_new_order_unknown_ticker :: bool where
  "test_new_order_unknown_ticker \<longleftrightarrow>
     replies [] (ClientRequest_new RNew 100 999 12345 1 10050 100) (\<lambda>response updates engine.
       rs_msg_type response = response_u8 InvalidRequest \<and> updates = [])"

definition test_new_order_invalid_side :: bool where
  "test_new_order_invalid_side \<longleftrightarrow>
     replies [1] (ClientRequest_new RNew 100 1 12345 0 10050 100) (\<lambda>response updates engine.
       rs_msg_type response = response_u8 InvalidRequest \<and> updates = [])"

definition test_cancel_order_not_found :: bool where
  "test_cancel_order_not_found \<longleftrightarrow>
     replies [1] (ClientRequest_new RCancel 100 1 99999 1 10050 0) (\<lambda>response updates engine.
       rs_msg_type response = response_u8 CancelRejected \<and> updates = [])"

definition test_cancel_order_unknown_ticker :: bool where
  "test_cancel_order_unknown_ticker \<longleftrightarrow>
     replies [] (ClientRequest_new RCancel 100 999 12345 1 10050 0) (\<lambda>response updates engine.
       rs_msg_type response = response_u8 CancelRejected \<and> updates = [])"

definition test_invalid_request_type :: bool where
  "test_invalid_request_type \<longleftrightarrow>
     replies [1] \<lparr>rq_msg_type = 255, rq_client_id = 100, rq_ticker_id = 1, rq_order_id = 12345, rq_side = 1,
                  rq_price = 10050, rq_qty = 100\<rparr> (\<lambda>response updates engine.
       rs_msg_type response = response_u8 InvalidRequest \<and> updates = [])"

definition test_multiple_orders_increment_id :: bool where
  "test_multiple_orders_increment_id \<longleftrightarrow>
     passes (engine_exec [1] (map (\<lambda>i. ClientRequest_new RNew 100 1 (word_of_nat i) 1 (10050 + word_of_nat i) 100) [0, 1, 2, 3, 4]))
       (\<lambda>(replies, engine). map (rs_market_order_id \<circ> fst) replies = [1, 2, 3, 4, 5] \<and> next_order_id engine = 6)"

section \<open>They pass\<close>

lemma engine_start_tests_pass: "test_new_matching_engine"
  by code_simp

lemma started_engine:
  obtains engine where "add_tickers ts MatchingEngine_new = Inr engine" "me_ok engine" "engine_abs engine = aengine_start (set ts)"
  using add_tickers_ok [OF MatchingEngine_new_ok, of ts] by auto

lemma started_books:
  assumes "engine_abs engine = aengine_start T"
  shows "get_order_book engine t = None \<longleftrightarrow> t \<notin> T" "(\<exists>b. get_order_book engine t = Some b) \<longleftrightarrow> t \<in> T"
    "ticker_count engine = card T"
proof -
  have *: "get_order_book engine t = None \<longleftrightarrow> t \<notin> T" for t
    using fun_cong [OF arg_cong [where f = fst, OF assms], of t]
    by (auto simp: engine_abs_def aengine_start_def get_order_book_def split: if_splits)
  then show "get_order_book engine t = None \<longleftrightarrow> t \<notin> T" "(\<exists>b. get_order_book engine t = Some b) \<longleftrightarrow> t \<in> T"
    by (simp, metis not_None_eq)
  have "t |\<in>| fmdom (me_order_books engine) \<longleftrightarrow> t \<in> T" for t
    using * [of t] by (simp add: get_order_book_def fmlookup_dom_iff not_None_eq) (metis not_None_eq)
  then have "fset (fmdom (me_order_books engine)) = T" by auto
  then show "ticker_count engine = card T" by (simp add: ticker_count_def fcard.rep_eq)
qed

lemma engine_ticker_tests_pass: "test_add_ticker" "test_add_duplicate_ticker"
proof -
  show "test_add_ticker"
    by (rule started_engine [of "[1, 2]"]) (simp add: test_add_ticker_def passes_def started_books card_insert_if)
  show "test_add_duplicate_ticker"
    by (rule started_engine [of "[1, 1]"]) (simp add: test_add_duplicate_ticker_def passes_def started_books)
qed

lemma replies_abstract:
  assumes "\<And>engine. aengine_step request (aengine_start (set tickers)) = ((response, updates), engine_abs engine) \<Longrightarrow>
      P response updates engine"
    and "fst (aengine_step request (aengine_start (set tickers))) = (response, updates)"
  shows "replies tickers request P"
proof -
  obtain engine where e: "add_tickers tickers MatchingEngine_new = Inr engine" "me_ok engine"
      "engine_abs engine = aengine_start (set tickers)" by (rule started_engine)
  obtain rp engine' where p: "process_request engine request = Inr (rp, engine')"
      "aengine_step request (aengine_start (set tickers)) = (rp, engine_abs engine')"
    using process_request_ok [OF e(2), of request] e(3) by auto
  with assms show ?thesis by (simp add: replies_def e(1))
qed

lemmas abstract_evals = aengine_step_def aengine_start_def request_type_def ClientRequest_new_def
  ClientRequestType_from_u8_def parse_side_def abook_new_def ORDER_POOL_SIZE_def accept_reply_def invalid_reply_def
  cancel_reject_reply_def ClientResponse_new_def MarketUpdate_new_def engine_abs_def next_order_id_def

lemma engine_reply_tests_pass:
  "test_new_order_accepted" "test_new_order_unknown_ticker" "test_new_order_invalid_side"
  "test_cancel_order_not_found" "test_cancel_order_unknown_ticker" "test_invalid_request_type"
  unfolding test_new_order_accepted_def test_new_order_unknown_ticker_def test_new_order_invalid_side_def
    test_cancel_order_not_found_def test_cancel_order_unknown_ticker_def test_invalid_request_type_def
  by (rule replies_abstract; simp add: abstract_evals)+

lemma engine_id_test_pass: "test_multiple_orders_increment_id"
proof -
  let ?rqs = "map (\<lambda>i. ClientRequest_new RNew 100 1 (word_of_nat i) 1 (10050 + word_of_nat i) 100) [0, 1, 2, 3, 4]"
  obtain rps engine where "engine_exec [1] ?rqs = Inr (rps, engine)"
      "run_spec aengine_step ?rqs (aengine_start (set [1])) = (rps, engine_abs engine)"
    using engine_exec_ok [of "[1]" ?rqs] by blast
  then show ?thesis
    by (auto simp: test_multiple_orders_increment_id_def passes_def abstract_evals)
qed

definition me_test_default_impl :: bool where
  "me_test_default_impl \<longleftrightarrow> ticker_count MatchingEngine_default = 0 \<and> next_order_id MatchingEngine_default = 1"

lemma engine_default_passes: "me_test_default_impl"
  by code_simp

end
