(* ===== verification/PositionTests.thy ===== *)
theory PositionTests
  imports Risk
begin

text \<open>
  The unit tests of \<open>trading/src/position.rs\<close> and \<open>trading/src/risk.rs\<close>, evaluated on the model. A
  test is the conjunction of its assertions; a panic is a failure. They compare the definitions
  with the values the authors of the code expect.
\<close>

section \<open>Positions\<close>

fun fills :: "(Side \<times> Qty \<times> Price) list \<Rightarrow> Position \<Rightarrow> Position outcome" where
  "fills [] pos = Inr pos"
| "fills ((side, qty, price) # fs) pos =
     (case on_fill side qty price pos of Inl f \<Rightarrow> Inl f | Inr pos \<Rightarrow> fills fs pos)"

definition test_position_new :: bool where
  "test_position_new \<longleftrightarrow>
     (let pos = Position_new 1 in
      ps_ticker_id pos = 1 \<and> ps_position pos = 0 \<and> ps_open_buy_qty pos = 0 \<and> ps_open_sell_qty pos = 0 \<and>
      ps_volume_traded pos = 0 \<and> ps_realized_pnl pos = 0 \<and> ps_unrealized_pnl pos = 0)"

definition test_buy_fill_opens_long :: bool where
  "test_buy_fill_opens_long \<longleftrightarrow>
     passes (fills [(Buy, 100, 5000)] (Position_new 1)) (\<lambda>pos.
       ps_position pos = 100 \<and> ps_avg_open_price pos = 5000 \<and> ps_volume_traded pos = 100 \<and> ps_realized_pnl pos = 0)"

definition test_sell_fill_opens_short :: bool where
  "test_sell_fill_opens_short \<longleftrightarrow>
     passes (fills [(Sell, 100, 5000)] (Position_new 1)) (\<lambda>pos.
       ps_position pos = - 100 \<and> ps_avg_open_price pos = 5000 \<and> ps_volume_traded pos = 100 \<and> ps_realized_pnl pos = 0)"

definition test_partial_close_long_with_profit :: bool where
  "test_partial_close_long_with_profit \<longleftrightarrow>
     passes (fills [(Buy, 100, 5000), (Sell, 50, 5500)] (Position_new 1)) (\<lambda>pos.
       ps_position pos = 50 \<and> ps_avg_open_price pos = 5000 \<and> ps_volume_traded pos = 150 \<and> ps_realized_pnl pos = 25000)"

definition test_partial_close_long_with_loss :: bool where
  "test_partial_close_long_with_loss \<longleftrightarrow>
     passes (fills [(Buy, 100, 5000), (Sell, 50, 4500)] (Position_new 1)) (\<lambda>pos.
       ps_position pos = 50 \<and> ps_realized_pnl pos = - 25000)"

definition test_partial_close_short_with_profit :: bool where
  "test_partial_close_short_with_profit \<longleftrightarrow>
     passes (fills [(Sell, 100, 5000), (Buy, 50, 4500)] (Position_new 1)) (\<lambda>pos.
       ps_position pos = - 50 \<and> ps_realized_pnl pos = 25000)"

definition test_partial_close_short_with_loss :: bool where
  "test_partial_close_short_with_loss \<longleftrightarrow>
     passes (fills [(Sell, 100, 5000), (Buy, 50, 5500)] (Position_new 1)) (\<lambda>pos.
       ps_position pos = - 50 \<and> ps_realized_pnl pos = - 25000)"

definition test_full_close_long :: bool where
  "test_full_close_long \<longleftrightarrow>
     passes (fills [(Buy, 100, 5000), (Sell, 100, 5200)] (Position_new 1)) (\<lambda>pos.
       ps_position pos = 0 \<and> ps_realized_pnl pos = 20000 \<and> ps_unrealized_pnl pos = 0)"

definition test_add_to_long_position :: bool where
  "test_add_to_long_position \<longleftrightarrow>
     passes (fills [(Buy, 100, 5000), (Buy, 100, 6000)] (Position_new 1)) (\<lambda>pos.
       ps_position pos = 200 \<and> ps_avg_open_price pos = 5500 \<and> ps_volume_traded pos = 200 \<and> ps_realized_pnl pos = 0)"

definition test_add_to_short_position :: bool where
  "test_add_to_short_position \<longleftrightarrow>
     passes (fills [(Sell, 100, 5000), (Sell, 100, 4000)] (Position_new 1)) (\<lambda>pos.
       ps_position pos = - 200 \<and> ps_avg_open_price pos = 4500)"

definition test_unrealized_pnl_long :: bool where
  "test_unrealized_pnl_long \<longleftrightarrow>
     passes (fills [(Buy, 100, 5000)] (Position_new 1)) (\<lambda>pos.
       let pos = Position_update_market_price 5500 pos in
       ps_unrealized_pnl pos = 50000 \<and>
       ps_unrealized_pnl (Position_update_market_price 4500 pos) = - 50000)"

definition test_unrealized_pnl_short :: bool where
  "test_unrealized_pnl_short \<longleftrightarrow>
     passes (fills [(Sell, 100, 5000)] (Position_new 1)) (\<lambda>pos.
       let pos = Position_update_market_price 4500 pos in
       ps_unrealized_pnl pos = 50000 \<and>
       ps_unrealized_pnl (Position_update_market_price 5500 pos) = - 50000)"

definition test_total_pnl :: bool where
  "test_total_pnl \<longleftrightarrow>
     passes (fills [(Buy, 100, 5000), (Sell, 50, 5500)] (Position_new 1)) (\<lambda>pos.
       let pos = Position_update_market_price 5200 pos in
       ps_realized_pnl pos = 25000 \<and> ps_unrealized_pnl pos = 10000 \<and> Position_total_pnl pos = 35000)"

definition test_open_order_tracking :: bool where
  "test_open_order_tracking \<longleftrightarrow>
     (let pos = (Position_new 1)\<lparr>ps_position := 100\<rparr>;
          pos = add_open_order Sell 30 (add_open_order Buy 50 pos);
          pos' = remove_open_order Sell 10 (remove_open_order Buy 20 pos)
      in ps_open_buy_qty pos = 50 \<and> ps_open_sell_qty pos = 30 \<and>
         max_long_exposure pos = 150 \<and> max_short_exposure pos = 70 \<and>
         ps_open_buy_qty pos' = 30 \<and> ps_open_sell_qty pos' = 20)"

definition test_open_order_saturating_sub :: bool where
  "test_open_order_saturating_sub \<longleftrightarrow>
     ps_open_buy_qty (remove_open_order Buy 100 (add_open_order Buy 10 (Position_new 1))) = 0"

definition test_net_position :: bool where
  "test_net_position \<longleftrightarrow>
     net_position (Position_new 1) = 0 \<and>
     passes (on_fill Buy 100 5000 (Position_new 1)) (\<lambda>pos.
       net_position pos = 100 \<and>
       passes (on_fill Sell 150 5000 pos) (\<lambda>pos. net_position pos = - 50))"

definition test_position_flip_long_to_short :: bool where
  "test_position_flip_long_to_short \<longleftrightarrow>
     passes (fills [(Buy, 100, 5000), (Sell, 150, 5500)] (Position_new 1)) (\<lambda>pos.
       ps_position pos = - 50 \<and> ps_realized_pnl pos = 50000 \<and> ps_avg_open_price pos = 5500)"

definition test_position_flip_short_to_long :: bool where
  "test_position_flip_short_to_long \<longleftrightarrow>
     passes (fills [(Sell, 100, 5000), (Buy, 150, 4500)] (Position_new 1)) (\<lambda>pos.
       ps_position pos = 50 \<and> ps_realized_pnl pos = 50000 \<and> ps_avg_open_price pos = 4500)"

definition test_volume_accumulation :: bool where
  "test_volume_accumulation \<longleftrightarrow>
     passes (fills [(Buy, 100, 5000), (Buy, 50, 5100), (Sell, 75, 5200)] (Position_new 1)) (\<lambda>pos.
       ps_volume_traded pos = 225)"

lemma position_tests_pass:
  "test_position_new" "test_buy_fill_opens_long" "test_sell_fill_opens_short" "test_partial_close_long_with_profit"
  "test_partial_close_long_with_loss" "test_partial_close_short_with_profit" "test_partial_close_short_with_loss"
  "test_full_close_long" "test_add_to_long_position" "test_add_to_short_position" "test_unrealized_pnl_long"
  "test_unrealized_pnl_short" "test_total_pnl" "test_open_order_tracking" "test_open_order_saturating_sub"
  "test_net_position" "test_position_flip_long_to_short" "test_position_flip_short_to_long" "test_volume_accumulation"
  by code_simp+

section \<open>The position keeper\<close>

fun keeper_fills :: "(TickerId \<times> Side \<times> Qty \<times> Price) list \<Rightarrow> PositionKeeper \<Rightarrow> PositionKeeper outcome" where
  "keeper_fills [] keeper = Inr keeper"
| "keeper_fills ((ticker_id, side, qty, price) # fs) keeper =
     (case PositionKeeper_on_fill ticker_id side qty price keeper of
        Inl f \<Rightarrow> Inl f
      | Inr keeper \<Rightarrow> keeper_fills fs keeper)"

definition test_position_keeper_new :: bool where
  "test_position_keeper_new \<longleftrightarrow>
     PositionKeeper_total_pnl PositionKeeper_new = 0 \<and> fcard (all_positions PositionKeeper_new) = 0"

definition test_position_keeper_get_position :: bool where
  "test_position_keeper_get_position \<longleftrightarrow>
     get_position PositionKeeper_new 1 = None \<and>
     passes (on_fill Buy 100 5000 (Position_new 1)) (\<lambda>pos.
       let keeper = get_position_mut 1 (\<lambda>_. pos) PositionKeeper_new in
       map_option ps_position (get_position keeper 1) = Some 100)"

definition test_position_keeper_on_fill :: bool where
  "test_position_keeper_on_fill \<longleftrightarrow>
     passes (keeper_fills [(1, Buy, 100, 5000), (2, Sell, 50, 3000)] PositionKeeper_new) (\<lambda>keeper.
       map_option ps_position (get_position keeper 1) = Some 100 \<and>
       map_option ps_position (get_position keeper 2) = Some (- 50))"

definition test_position_keeper_total_pnl :: bool where
  "test_position_keeper_total_pnl \<longleftrightarrow>
     passes (PositionKeeper_on_fill 1 Buy 100 5000 PositionKeeper_new) (\<lambda>keeper.
       passes (PositionKeeper_on_fill 2 Sell 100 4000 (PositionKeeper_update_market_price 1 5500 keeper)) (\<lambda>keeper.
         PositionKeeper_total_pnl (PositionKeeper_update_market_price 2 3500 keeper) = 100000))"

definition test_position_keeper_all_positions :: bool where
  "test_position_keeper_all_positions \<longleftrightarrow>
     passes (keeper_fills [(1, Buy, 100, 5000), (2, Sell, 50, 3000), (3, Buy, 200, 4000)] PositionKeeper_new)
       (\<lambda>keeper. fcard (all_positions keeper) = 3)"

lemma keeper_tests_pass:
  "test_position_keeper_new" "test_position_keeper_get_position" "test_position_keeper_on_fill"
  "test_position_keeper_total_pnl" "test_position_keeper_all_positions"
  by code_simp+

section \<open>Risk checks\<close>

definition create_position_with_state :: "TickerId \<Rightarrow> i64 \<Rightarrow> Qty \<Rightarrow> Qty \<Rightarrow> i64 \<Rightarrow> i64 \<Rightarrow> Position" where
  "create_position_with_state ticker_id position open_buy_qty open_sell_qty realized_pnl unrealized_pnl =
     \<lparr>ps_ticker_id = ticker_id, ps_position = position, ps_open_buy_qty = open_buy_qty,
      ps_open_sell_qty = open_sell_qty, ps_volume_traded = 0, ps_realized_pnl = realized_pnl,
      ps_unrealized_pnl = unrealized_pnl, ps_avg_open_price = 0, ps_last_price = 0\<rparr>"

definition test_risk_check_result_is_allowed :: bool where
  "test_risk_check_result_is_allowed \<longleftrightarrow>
     is_allowed Allowed \<and> \<not> is_allowed OrderTooLarge \<and> \<not> is_allowed PositionTooLarge \<and>
     \<not> is_allowed LossTooLarge \<and> \<not> is_allowed OpenOrdersTooMany"

definition test_risk_limits_default :: bool where
  "test_risk_limits_default \<longleftrightarrow>
     (let limits = RiskLimits_default in
      max_order_qty limits = 1000 \<and> max_position limits = 10000 \<and> max_loss limits = 100000 \<and> max_open_orders limits = 100)"

definition test_risk_limits_new :: bool where
  "test_risk_limits_new \<longleftrightarrow>
     (let limits = RiskLimits_new 500 5000 50000 50 in
      max_order_qty limits = 500 \<and> max_position limits = 5000 \<and> max_loss limits = 50000 \<and> max_open_orders limits = 50)"

definition test_risk_manager_new :: bool where
  "test_risk_manager_new \<longleftrightarrow>
     max_order_qty (rm_default_limits RiskManager_new) = 1000 \<and> hm_len (rm_limits RiskManager_new) = 0"

definition test_risk_manager_with_default_limits :: bool where
  "test_risk_manager_with_default_limits \<longleftrightarrow>
     (let rm = with_default_limits (RiskLimits_new 2000 20000 200000 200) in
      max_order_qty (rm_default_limits rm) = 2000 \<and> max_position (rm_default_limits rm) = 20000)"

definition test_risk_manager_set_and_get_limits :: bool where
  "test_risk_manager_set_and_get_limits \<longleftrightarrow>
     (let rm = set_limits 1 (RiskLimits_new 500 5000 50000 50) RiskManager_new in
      max_order_qty (get_limits rm 1) = 500 \<and> max_order_qty (get_limits rm 2) = 1000)"

definition test_risk_manager_remove_limits :: bool where
  "test_risk_manager_remove_limits \<longleftrightarrow>
     (let rm = set_limits 1 (RiskLimits_new 500 5000 50000 50) RiskManager_new in
      max_order_qty (get_limits rm 1) = 500 \<and> max_order_qty (get_limits (remove_limits 1 rm) 1) = 1000)"

definition test_check_order_allowed :: bool where
  "test_check_order_allowed \<longleftrightarrow>
     check_order RiskManager_new (create_position_with_state 1 0 0 0 0 0) Buy 100 5000 = Allowed"

definition test_check_order_too_large :: bool where
  "test_check_order_too_large \<longleftrightarrow>
     check_order RiskManager_new (create_position_with_state 1 0 0 0 0 0) Buy 1001 5000 = OrderTooLarge"

definition test_check_order_at_max_qty_allowed :: bool where
  "test_check_order_at_max_qty_allowed \<longleftrightarrow>
     check_order RiskManager_new (create_position_with_state 1 0 0 0 0 0) Buy 1000 5000 = Allowed"

definition test_check_order_position_too_large_buy :: bool where
  "test_check_order_position_too_large_buy \<longleftrightarrow>
     check_order RiskManager_new (create_position_with_state 1 9500 0 0 0 0) Buy 600 5000 = PositionTooLarge \<and>
     check_order RiskManager_new (create_position_with_state 1 9500 0 0 0 0) Buy 500 5000 = Allowed"

definition test_check_order_position_too_large_sell_short :: bool where
  "test_check_order_position_too_large_sell_short \<longleftrightarrow>
     check_order RiskManager_new (create_position_with_state 1 (- 9500) 0 0 0 0) Sell 600 5000 = PositionTooLarge \<and>
     check_order RiskManager_new (create_position_with_state 1 (- 9500) 0 0 0 0) Sell 500 5000 = Allowed"

definition test_check_order_includes_pending_orders_buy :: bool where
  "test_check_order_includes_pending_orders_buy \<longleftrightarrow>
     check_order RiskManager_new (create_position_with_state 1 9000 500 0 0 0) Buy 600 5000 = PositionTooLarge \<and>
     check_order RiskManager_new (create_position_with_state 1 9000 500 0 0 0) Buy 500 5000 = Allowed"

definition test_check_order_includes_pending_orders_sell :: bool where
  "test_check_order_includes_pending_orders_sell \<longleftrightarrow>
     check_order RiskManager_new (create_position_with_state 1 (- 9000) 0 500 0 0) Sell 600 5000 = PositionTooLarge \<and>
     check_order RiskManager_new (create_position_with_state 1 (- 9000) 0 500 0 0) Sell 500 5000 = Allowed"

definition test_check_order_reducing_position_allowed :: bool where
  "test_check_order_reducing_position_allowed \<longleftrightarrow>
     check_order RiskManager_new (create_position_with_state 1 15000 0 0 0 0) Sell 1000 5000 = Allowed"

definition test_check_order_loss_too_large :: bool where
  "test_check_order_loss_too_large \<longleftrightarrow>
     check_order RiskManager_new (create_position_with_state 1 100 0 0 (- 50000) (- 50100)) Buy 100 5000 = LossTooLarge"

definition test_check_order_loss_at_limit_allowed :: bool where
  "test_check_order_loss_at_limit_allowed \<longleftrightarrow>
     check_order RiskManager_new (create_position_with_state 1 100 0 0 (- 50000) (- 50000)) Buy 100 5000 = Allowed"

definition test_check_order_profit_always_allowed :: bool where
  "test_check_order_profit_always_allowed \<longleftrightarrow>
     check_order RiskManager_new (create_position_with_state 1 100 0 0 50000 25000) Buy 100 5000 = Allowed"

definition test_check_open_orders_allowed :: bool where
  "test_check_open_orders_allowed \<longleftrightarrow>
     check_open_orders RiskManager_new 1 50 = Allowed"

definition test_check_open_orders_at_limit :: bool where
  "test_check_open_orders_at_limit \<longleftrightarrow>
     check_open_orders RiskManager_new 1 100 = OpenOrdersTooMany"

definition test_check_open_orders_over_limit :: bool where
  "test_check_open_orders_over_limit \<longleftrightarrow>
     check_open_orders RiskManager_new 1 150 = OpenOrdersTooMany"

definition test_check_open_orders_just_under_limit :: bool where
  "test_check_open_orders_just_under_limit \<longleftrightarrow>
     check_open_orders RiskManager_new 1 99 = Allowed"

definition test_check_position_allowed :: bool where
  "test_check_position_allowed \<longleftrightarrow>
     check_position RiskManager_new (create_position_with_state 1 5000 0 0 0 0) = Allowed"

definition test_check_position_too_large_long :: bool where
  "test_check_position_too_large_long \<longleftrightarrow>
     check_position RiskManager_new (create_position_with_state 1 10001 0 0 0 0) = PositionTooLarge"

definition test_check_position_too_large_short :: bool where
  "test_check_position_too_large_short \<longleftrightarrow>
     check_position RiskManager_new (create_position_with_state 1 (- 10001) 0 0 0 0) = PositionTooLarge"

definition test_check_position_at_limit_allowed :: bool where
  "test_check_position_at_limit_allowed \<longleftrightarrow>
     check_position RiskManager_new (create_position_with_state 1 10000 0 0 0 0) = Allowed"

definition test_check_position_loss_too_large :: bool where
  "test_check_position_loss_too_large \<longleftrightarrow>
     check_position RiskManager_new (create_position_with_state 1 100 0 0 (- 100001) 0) = LossTooLarge"

definition test_check_order_with_open_orders_all_pass :: bool where
  "test_check_order_with_open_orders_all_pass \<longleftrightarrow>
     check_order_with_open_orders RiskManager_new (create_position_with_state 1 0 0 0 0 0) Buy 100 5000 50 = Allowed"

definition test_check_order_with_open_orders_rejects_open_orders_first :: bool where
  "test_check_order_with_open_orders_rejects_open_orders_first \<longleftrightarrow>
     check_order_with_open_orders RiskManager_new (create_position_with_state 1 0 0 0 0 0) Buy 100 5000 100 = OpenOrdersTooMany"

definition test_check_order_with_open_orders_checks_order_after_open_orders :: bool where
  "test_check_order_with_open_orders_checks_order_after_open_orders \<longleftrightarrow>
     check_order_with_open_orders RiskManager_new (create_position_with_state 1 0 0 0 0 0) Buy 1001 5000 50 = OrderTooLarge"

definition test_per_ticker_limits :: bool where
  "test_per_ticker_limits \<longleftrightarrow>
     (let rm = set_limits 1 (RiskLimits_new 100 1000 10000 10) RiskManager_new in
      check_order rm (create_position_with_state 1 0 0 0 0 0) Buy 101 5000 = OrderTooLarge \<and>
      check_order rm (create_position_with_state 2 0 0 0 0 0) Buy 101 5000 = Allowed)"

definition test_multiple_tickers_different_limits :: bool where
  "test_multiple_tickers_different_limits \<longleftrightarrow>
     (let rm = set_limits 1 (RiskLimits_new 100 1000 10000 10) RiskManager_new;
          rm = set_limits 2 (RiskLimits_new 500 5000 50000 50) rm;
          position1 = create_position_with_state 1 0 0 0 0 0;
          position2 = create_position_with_state 2 0 0 0 0 0
      in check_order rm position1 Buy 100 5000 = Allowed \<and> check_order rm position1 Buy 101 5000 = OrderTooLarge \<and>
         check_order rm position2 Buy 500 5000 = Allowed \<and> check_order rm position2 Buy 501 5000 = OrderTooLarge)"

definition test_check_order_zero_qty :: bool where
  "test_check_order_zero_qty \<longleftrightarrow>
     check_order RiskManager_new (create_position_with_state 1 0 0 0 0 0) Buy 0 5000 = Allowed"

definition test_check_position_zero_position :: bool where
  "test_check_position_zero_position \<longleftrightarrow>
     check_position RiskManager_new (create_position_with_state 1 0 0 0 0 0) = Allowed"

definition test_priority_order_too_large_before_position :: bool where
  "test_priority_order_too_large_before_position \<longleftrightarrow>
     check_order RiskManager_new (create_position_with_state 1 9999 0 0 0 0) Buy 2000 5000 = OrderTooLarge"

definition test_priority_position_before_loss :: bool where
  "test_priority_position_before_loss \<longleftrightarrow>
     check_order (set_limits 1 (RiskLimits_new 10000 100 100000 100) RiskManager_new)
       (create_position_with_state 1 99 0 0 (- 200000) 0) Buy 100 5000 = PositionTooLarge"

lemma risk_tests_pass:
  "test_risk_check_result_is_allowed" "test_risk_limits_default" "test_risk_limits_new" "test_risk_manager_new"
  "test_risk_manager_with_default_limits" "test_risk_manager_set_and_get_limits" "test_risk_manager_remove_limits"
  "test_check_order_allowed" "test_check_order_too_large" "test_check_order_at_max_qty_allowed"
  "test_check_order_position_too_large_buy" "test_check_order_position_too_large_sell_short"
  "test_check_order_includes_pending_orders_buy" "test_check_order_includes_pending_orders_sell"
  "test_check_order_reducing_position_allowed" "test_check_order_loss_too_large"
  "test_check_order_loss_at_limit_allowed" "test_check_order_profit_always_allowed"
  "test_check_open_orders_allowed" "test_check_open_orders_at_limit" "test_check_open_orders_over_limit"
  "test_check_open_orders_just_under_limit" "test_check_position_allowed" "test_check_position_too_large_long"
  "test_check_position_too_large_short" "test_check_position_at_limit_allowed"
  "test_check_position_loss_too_large" "test_check_order_with_open_orders_all_pass"
  "test_check_order_with_open_orders_rejects_open_orders_first"
  "test_check_order_with_open_orders_checks_order_after_open_orders" "test_per_ticker_limits"
  "test_multiple_tickers_different_limits" "test_check_order_zero_qty" "test_check_position_zero_position"
  "test_priority_order_too_large_before_position" "test_priority_position_before_loss"
  by code_simp+

definition rm_test_default_impl :: bool where
  "rm_test_default_impl \<longleftrightarrow> max_order_qty (rm_default_limits RiskManager_default) = 1000"

lemma risk_default_passes: "rm_test_default_impl"
  by code_simp

end
