(* ===== verification/FeatureTests.thy ===== *)
theory FeatureTests
  imports Strategies
begin

text \<open>
  The unit tests of \<open>trading/src/market_data.rs\<close>, \<open>trading/src/features.rs\<close> and
  \<open>trading/src/strategies/mod.rs\<close>, evaluated on the model, with the assertions of the source. The
  comparisons of floating-point numbers are those of the theory \<open>F64\<close>.
\<close>

section \<open>The best bid and offer\<close>

definition test_bbo_new :: bool where
  "test_bbo_new \<longleftrightarrow>
     (let bbo = BBO_new in
      bb_bid_price bbo = INVALID_PRICE \<and> bb_ask_price bbo = INVALID_PRICE \<and> bb_bid_qty bbo = 0 \<and> bb_ask_qty bbo = 0 \<and>
      \<not> has_bid bbo \<and> \<not> has_ask bbo \<and> \<not> BBO_is_valid bbo)"

definition test_bbo_spread :: bool where
  "test_bbo_spread \<longleftrightarrow>
     spread BBO_new = None \<and>
     (let bbo = BBO_new\<lparr>bb_bid_price := 100, bb_bid_qty := 10, bb_ask_price := 102, bb_ask_qty := 20\<rparr> in
      BBO_is_valid bbo \<and> spread bbo = Some 2 \<and> mid_price bbo = Some 101)"

definition test_bbo_has_bid_ask :: bool where
  "test_bbo_has_bid_ask \<longleftrightarrow>
     (let bbo = BBO_new\<lparr>bb_bid_price := 100, bb_bid_qty := 10\<rparr>;
          bbo' = bbo\<lparr>bb_ask_price := 102, bb_ask_qty := 20\<rparr>
      in has_bid bbo \<and> \<not> has_ask bbo \<and> has_bid bbo' \<and> has_ask bbo' \<and> BBO_is_valid bbo')"

definition test_process_add_update :: bool where
  "test_process_add_update \<longleftrightarrow>
     (let bbo = (get_or (fmempty :: (TickerId, BBO) fmap) 1 BBO_new)\<lparr>bb_bid_price := 10050, bb_bid_qty := 100\<rparr> in
      bb_bid_price bbo = 10050 \<and> bb_bid_qty bbo = 100 \<and> has_bid bbo)"

definition test_process_trade_reduces_qty :: bool where
  "test_process_trade_reduces_qty \<longleftrightarrow>
     (let bbo = BBO_new\<lparr>bb_bid_price := 100, bb_bid_qty := 100, bb_ask_price := 102, bb_ask_qty := 50\<rparr>;
          bbo = bbo\<lparr>bb_ask_qty := saturating_sub (bb_ask_qty bbo) 20\<rparr>
      in bb_ask_qty bbo = 30)"

definition test_process_clear :: bool where
  "test_process_clear \<longleftrightarrow> (let bbo = BBO_new in \<not> BBO_is_valid bbo \<and> bb_bid_price bbo = INVALID_PRICE)"

lemma bbo_tests_pass:
  "test_bbo_new" "test_bbo_spread" "test_bbo_has_bid_ask" "test_process_add_update" "test_process_trade_reduces_qty"
  "test_process_clear"
  by code_simp+

section \<open>Features\<close>

definition make_bbo :: "Price \<Rightarrow> Qty \<Rightarrow> Price \<Rightarrow> Qty \<Rightarrow> BBO" where
  "make_bbo bid_price bid_qty ask_price ask_qty =
     \<lparr>bb_bid_price = bid_price, bb_bid_qty = bid_qty, bb_ask_price = ask_price, bb_ask_qty = ask_qty\<rparr>"

definition test_ticker_features_new :: bool where
  "test_ticker_features_new \<longleftrightarrow>
     (let features = TickerFeatures_new 42 in
      tf_ticker_id features = 42 \<and> tf_fair_value features = 0 \<and> tf_spread features = 0 \<and> tf_mid_price features = 0 \<and>
      f_eq (tf_imbalance features) (Fin 0) \<and> f_eq (tf_trade_signal features) (Fin 0) \<and>
      \<not> TickerFeatures_is_valid features)"

definition test_feature_engine_new :: bool where
  "test_feature_engine_new \<longleftrightarrow>
     fe_ticker_count FeatureEngine_new = 0 \<and> f_near (fe_fair_value_alpha FeatureEngine_new) (rnd (1 / 10)) EPSILON"

definition test_feature_engine_with_alpha :: bool where
  "test_feature_engine_with_alpha \<longleftrightarrow>
     f_near (fe_fair_value_alpha (FeatureEngine_with_alpha (rnd (5 / 10)))) (rnd (5 / 10)) EPSILON \<and>
     f_near (fe_fair_value_alpha (FeatureEngine_with_alpha (rnd (15 / 10)))) (Fin 1) EPSILON \<and>
     f_lt (f_abs (fe_fair_value_alpha (FeatureEngine_with_alpha (rnd (- 5 / 10))))) EPSILON"

definition test_calculate_imbalance :: bool where
  "test_calculate_imbalance \<longleftrightarrow>
     f_lt (f_abs (calculate_imbalance (make_bbo 100 50 102 50))) EPSILON \<and>
     f_near (calculate_imbalance (make_bbo 100 75 102 25)) (rnd (5 / 10)) EPSILON \<and>
     f_near (calculate_imbalance (make_bbo 100 25 102 75)) (rnd (- 5 / 10)) EPSILON \<and>
     f_near (calculate_imbalance (make_bbo 100 100 102 0)) (Fin 1) EPSILON \<and>
     f_lt (f_abs (calculate_imbalance (make_bbo 100 0 102 0))) EPSILON"

definition test_on_bbo_update_first_update :: bool where
  "test_on_bbo_update_first_update \<longleftrightarrow>
     (case get_features (on_bbo_update 1 (make_bbo 100 50 102 50) FeatureEngine_new) 1 of
        None \<Rightarrow> False
      | Some features \<Rightarrow>
          tf_ticker_id features = 1 \<and> tf_mid_price features = 101 \<and> tf_fair_value features = 101 \<and>
          tf_spread features = 2 \<and> f_lt (f_abs (tf_imbalance features)) EPSILON \<and> TickerFeatures_is_valid features)"

definition test_on_bbo_update_ema :: bool where
  "test_on_bbo_update_ema \<longleftrightarrow>
     (let engine1 = on_bbo_update 1 (make_bbo 99 50 101 50) (FeatureEngine_with_alpha (rnd (5 / 10)));
          engine2 = on_bbo_update 1 (make_bbo 109 50 111 50) engine1;
          engine3 = on_bbo_update 1 (make_bbo 109 50 111 50) engine2
      in map_option tf_fair_value (get_features engine1 1) = Some 100 \<and>
         map_option tf_fair_value (get_features engine2 1) = Some 105 \<and>
         map_option tf_fair_value (get_features engine3 1) = Some 108)"

definition test_on_bbo_update_invalid_bbo :: bool where
  "test_on_bbo_update_invalid_bbo \<longleftrightarrow>
     get_features (on_bbo_update 1 (make_bbo INVALID_PRICE 0 102 50) FeatureEngine_new) 1 = None"

definition test_trade_signal_fair_value_above_mid :: bool where
  "test_trade_signal_fair_value_above_mid \<longleftrightarrow>
     (let engine = (on_bbo_update 1 (make_bbo 109 50 111 50) ^^ 20) (FeatureEngine_with_alpha (rnd (1 / 10)));
          engine = on_bbo_update 1 (make_bbo 99 50 101 50) engine
      in case get_features engine 1 of None \<Rightarrow> False | Some features \<Rightarrow> f_lt (Fin 0) (tf_trade_signal features))"

definition test_trade_signal_fair_value_below_mid :: bool where
  "test_trade_signal_fair_value_below_mid \<longleftrightarrow>
     (let engine = (on_bbo_update 1 (make_bbo 99 50 101 50) ^^ 20) (FeatureEngine_with_alpha (rnd (1 / 10)));
          engine = on_bbo_update 1 (make_bbo 109 50 111 50) engine
      in case get_features engine 1 of None \<Rightarrow> False | Some features \<Rightarrow> f_lt (tf_trade_signal features) (Fin 0))"

definition test_trade_signal_with_imbalance :: bool where
  "test_trade_signal_with_imbalance \<longleftrightarrow>
     (case get_features (on_bbo_update 1 (make_bbo 100 90 102 10) (FeatureEngine_with_alpha (Fin 1))) 1 of
        None \<Rightarrow> False
      | Some features \<Rightarrow> f_near (tf_trade_signal features) (rnd (24 / 100)) (rnd (1 / 100)))"

definition test_calculate_trade_signal_no_features :: bool where
  "test_calculate_trade_signal_no_features \<longleftrightarrow> f_lt (f_abs (calculate_trade_signal FeatureEngine_new 999)) EPSILON"

definition test_reserve_tickers :: bool where
  "test_reserve_tickers \<longleftrightarrow>
     (let engine = fe_reserve_tickers [1, 2, 3] FeatureEngine_new in
      fe_ticker_count engine = 3 \<and> get_features engine 1 \<noteq> None \<and> get_features engine 2 \<noteq> None \<and>
      get_features engine 3 \<noteq> None \<and> get_features engine 4 = None)"

definition test_clear :: bool where
  "test_clear \<longleftrightarrow>
     (let bbo = make_bbo 100 50 102 50;
          engine = on_bbo_update 2 bbo (on_bbo_update 1 bbo FeatureEngine_new)
      in fe_ticker_count engine = 2 \<and> fe_ticker_count (fe_clear engine) = 0)"

definition test_set_fair_value_alpha :: bool where
  "test_set_fair_value_alpha \<longleftrightarrow>
     (let engine = set_fair_value_alpha (rnd (8 / 10)) FeatureEngine_new in
      f_near (fe_fair_value_alpha engine) (rnd (8 / 10)) EPSILON \<and>
      f_near (fe_fair_value_alpha (set_fair_value_alpha (Fin 2) engine)) (Fin 1) EPSILON)"

lemma feature_tests_pass:
  "test_ticker_features_new" "test_feature_engine_new" "test_feature_engine_with_alpha" "test_calculate_imbalance"
  "test_on_bbo_update_first_update" "test_on_bbo_update_ema" "test_on_bbo_update_invalid_bbo"
  "test_trade_signal_with_imbalance" "test_calculate_trade_signal_no_features" "test_reserve_tickers" "test_clear"
  "test_set_fair_value_alpha"
  by code_simp+

text \<open>Repeating a quote that the features have settled on changes nothing.\<close>

lemma steady_quotes:
  assumes "fmlookup (fe_features e) t = Some f" "refresh (fe_fair_value_alpha e) bbo f = f"
  shows "(on_bbo_update t bbo ^^ n) e = e"
proof (induction n)
  case (Suc n)
  have "fmupd t f (fe_features e) = fe_features e" using assms(1) by (intro fmap_ext) auto
  then have "on_bbo_update t bbo e = e" using assms by (simp add: on_bbo_update_def Let_def get_or_def)
  with Suc show ?case by simp
qed simp

lemma repeated_quotes:
  assumes "BBO_is_valid bbo" "refresh alpha bbo (refresh alpha bbo (TickerFeatures_new t)) = refresh alpha bbo (TickerFeatures_new t)"
    and "fe_fair_value_alpha e = alpha" "fe_features e = fmempty"
  shows "(on_bbo_update t bbo ^^ 20) e = on_bbo_update t bbo e"
proof -
  have "(on_bbo_update t bbo ^^ 20) e = (on_bbo_update t bbo ^^ 19) (on_bbo_update t bbo e)"
    using funpow_Suc_right [of 19 "on_bbo_update t bbo"] by simp
  also have "\<dots> = on_bbo_update t bbo e"
    by (rule steady_quotes [where f = "refresh alpha bbo (TickerFeatures_new t)"])
      (simp_all add: assms on_bbo_update_def Let_def)
  finally show ?thesis .
qed

lemma signal_tests_pass: "test_trade_signal_fair_value_above_mid" "test_trade_signal_fair_value_below_mid"
proof -
  let ?a = "rnd (1 / 10)"
  have alpha: "fe_fair_value_alpha (FeatureEngine_with_alpha ?a) = ?a"
    "fe_features (FeatureEngine_with_alpha ?a) = fmempty"
    by code_simp (simp add: FeatureEngine_with_alpha_def)
  have high: "BBO_is_valid (make_bbo 109 50 111 50)"
    "refresh ?a (make_bbo 109 50 111 50) (refresh ?a (make_bbo 109 50 111 50) (TickerFeatures_new 1)) =
       refresh ?a (make_bbo 109 50 111 50) (TickerFeatures_new 1)" by code_simp+
  have low: "BBO_is_valid (make_bbo 99 50 101 50)"
    "refresh ?a (make_bbo 99 50 101 50) (refresh ?a (make_bbo 99 50 101 50) (TickerFeatures_new 1)) =
       refresh ?a (make_bbo 99 50 101 50) (TickerFeatures_new 1)" by code_simp+
  show "test_trade_signal_fair_value_above_mid"
    unfolding test_trade_signal_fair_value_above_mid_def repeated_quotes [OF high alpha] by code_simp
  show "test_trade_signal_fair_value_below_mid"
    unfolding test_trade_signal_fair_value_below_mid_def repeated_quotes [OF low alpha] by code_simp
qed

section \<open>Orders and quotes\<close>

definition test_order_request_new :: bool where
  "test_order_request_new \<longleftrightarrow>
     (let req = OrderRequest_new 1 Buy 10000 100 in
      or_ticker_id req = 1 \<and> or_side req = Buy \<and> or_price req = 10000 \<and> or_qty req = 100)"

definition test_order_request_buy_sell :: bool where
  "test_order_request_buy_sell \<longleftrightarrow>
     or_side (OrderRequest_buy 1 10000 100) = Buy \<and> or_side (OrderRequest_sell 1 10100 50) = Sell"

definition test_quote_pair_new :: bool where
  "test_quote_pair_new \<longleftrightarrow>
     (let pair = QuotePair_new (OrderRequest_buy 1 10000 100) (OrderRequest_sell 1 10100 100) in
      is_two_sided pair \<and> has_quotes pair \<and> map_option or_price (qp_bid pair) = Some 10000 \<and>
      map_option or_price (qp_ask pair) = Some 10100)"

definition test_quote_pair_empty :: bool where
  "test_quote_pair_empty \<longleftrightarrow> \<not> is_two_sided QuotePair_empty \<and> \<not> has_quotes QuotePair_empty"

definition test_quote_pair_one_sided :: bool where
  "test_quote_pair_one_sided \<longleftrightarrow>
     (let bid = bid_only (OrderRequest_buy 1 10000 100); ask = ask_only (OrderRequest_sell 1 10100 100) in
      \<not> is_two_sided bid \<and> has_quotes bid \<and> \<not> is_two_sided ask \<and> has_quotes ask)"

definition test_strategy_action_requires_orders :: bool where
  "test_strategy_action_requires_orders \<longleftrightarrow>
     \<not> requires_orders NoAction \<and> \<not> requires_orders (CancelAll 1) \<and> requires_orders (Quote QuotePair_empty) \<and>
     requires_orders (Take (OrderRequest_buy 1 10000 100))"

lemma vocabulary_tests_pass:
  "test_order_request_new" "test_order_request_buy_sell" "test_quote_pair_new" "test_quote_pair_empty"
  "test_quote_pair_one_sided" "test_strategy_action_requires_orders"
  by code_simp+

definition test_iter_features :: bool where
  "test_iter_features \<longleftrightarrow>
     (let bbo = \<lparr>bb_bid_price = 100, bb_bid_qty = 50, bb_ask_price = 102, bb_ask_qty = 50\<rparr>;
          engine = on_bbo_update 2 bbo (on_bbo_update 1 bbo FeatureEngine_new)
      in list_all (\<lambda>iter. let ticker_ids = map fst (iter_features iter engine) in
           length ticker_ids = 2 \<and> 1 \<in> set ticker_ids \<and> 2 \<in> set ticker_ids) [[1, 2], [2, 1]])"

lemma iter_features_passes: "test_iter_features"
  by code_simp

end
