(* ===== verification/StrategyTests.thy ===== *)
theory StrategyTests
  imports MarketMaker LiquidityTaker
begin

text \<open>
  The unit tests of the two strategies, \<open>trading/src/strategies/market_maker.rs\<close> and
  \<open>liquidity_taker.rs\<close>, evaluated on the model.
\<close>

section \<open>The market maker\<close>

definition mm_make_features :: "TickerId \<Rightarrow> Price \<Rightarrow> Price \<Rightarrow> f64 \<Rightarrow> TickerFeatures" where
  "mm_make_features ticker_id fair_value sprd imbalance =
     \<lparr>tf_ticker_id = ticker_id, tf_fair_value = fair_value, tf_spread = sprd, tf_mid_price = fair_value,
      tf_imbalance = imbalance, tf_trade_signal = Fin 0\<rparr>"

text \<open>\<open>match action { StrategyAction::Quote(pair) => ..., _ => panic! }\<close>, and the same for a pair
  whose two sides are unwrapped.\<close>

definition quoting :: "(QuotePair \<Rightarrow> bool) \<Rightarrow> StrategyAction \<Rightarrow> bool" where
  "quoting P act = (case act of Quote pair \<Rightarrow> P pair | _ \<Rightarrow> False)"

definition two_sided :: "(OrderRequest \<Rightarrow> OrderRequest \<Rightarrow> bool) \<Rightarrow> StrategyAction \<Rightarrow> bool" where
  "two_sided P = quoting (\<lambda>pair.
     case (qp_bid pair, qp_ask pair) of (Some bid, Some ask) \<Rightarrow> P bid ask | _ \<Rightarrow> False)"

definition mm_test_config_default :: bool where
  "mm_test_config_default \<longleftrightarrow>
     (let config = MarketMakerConfig_default in
      mm_half_spread config = 50 \<and> mm_min_spread config = 20 \<and> mm_base_qty config = 100 \<and> mm_max_qty config = 500)"

definition mm_test_config_builder :: bool where
  "mm_test_config_builder \<longleftrightarrow>
     (let config = mm_with_max_position 5000 (with_position_skew (rnd (8 / 10)) (mm_with_max_qty 1000
            (mm_with_base_qty 200 (with_min_spread 50 (with_half_spread 100 (MarketMakerConfig_new 1)))))) in
      mm_ticker_id config = 1 \<and> mm_half_spread config = 100 \<and> mm_min_spread config = 50 \<and> mm_base_qty config = 200 \<and>
      mm_max_qty config = 1000 \<and> f_near (mm_position_skew_factor config) (rnd (8 / 10)) EPSILON \<and>
      mm_max_position config = 5000)"

definition mm_test_config_position_skew_clamped :: bool where
  "mm_test_config_position_skew_clamped \<longleftrightarrow>
     f_near (mm_position_skew_factor (with_position_skew (rnd (15 / 10)) (MarketMakerConfig_new 1))) (Fin 1) EPSILON \<and>
     f_lt (f_abs (mm_position_skew_factor (with_position_skew (rnd (- 5 / 10)) (MarketMakerConfig_new 1)))) EPSILON"

definition test_market_maker_new :: bool where
  "test_market_maker_new \<longleftrightarrow>
     (let mm = MarketMaker_for_ticker 1 in
      mm_ticker_id (mk_config mm) = 1 \<and> mk_last_bid_price mm = 0 \<and> mk_last_ask_price mm = 0 \<and>
      mk_current_position mm = 0 \<and> mk_active mm)"

definition test_market_maker_activate_deactivate :: bool where
  "test_market_maker_activate_deactivate \<longleftrightarrow>
     (let mm = MarketMaker_for_ticker 1; off = mm_deactivate mm in
      mk_active mm \<and> \<not> mk_active off \<and> mk_active (mm_activate off))"

definition test_market_maker_set_position :: bool where
  "test_market_maker_set_position \<longleftrightarrow>
     (let mm = MarketMaker_for_ticker 1; mm1 = mm_set_position 500 mm in
      mk_current_position mm = 0 \<and> mk_current_position mm1 = 500 \<and>
      mk_current_position (mm_set_position (- 300) mm1) = - 300)"

definition test_on_features_generates_quotes :: bool where
  "test_on_features_generates_quotes \<longleftrightarrow>
     passes (mm_on_features (mm_make_features 1 10000 100 (Fin 0)) (MarketMaker_for_ticker 1)) (\<lambda>(action, _).
       two_sided (\<lambda>bid ask. or_price bid <s 10000 \<and> 10000 <s or_price ask \<and> or_qty bid = 100 \<and> or_qty ask = 100) action)"

definition test_on_features_inactive_returns_none :: bool where
  "test_on_features_inactive_returns_none \<longleftrightarrow>
     passes (mm_on_features (mm_make_features 1 10000 100 (Fin 0)) (mm_deactivate (MarketMaker_for_ticker 1)))
       (\<lambda>(action, _). action = NoAction)"

definition test_on_features_invalid_features_returns_none :: bool where
  "test_on_features_invalid_features_returns_none \<longleftrightarrow>
     passes (mm_on_features (TickerFeatures_new 1) (MarketMaker_for_ticker 1)) (\<lambda>(action, _). action = NoAction)"

definition test_quote_spread :: bool where
  "test_quote_spread \<longleftrightarrow>
     (let mm = MarketMaker_new (with_min_spread 20 (with_half_spread 50 (MarketMakerConfig_new 1))) in
      passes (mm_on_features (mm_make_features 1 10000 100 (Fin 0)) mm) (\<lambda>(action, _).
        two_sided (\<lambda>bid ask. 100 \<le>s or_price ask - or_price bid) action))"

definition test_quote_no_update_within_threshold :: bool where
  "test_quote_no_update_within_threshold \<longleftrightarrow>
     (let mm = MarketMaker_new (with_price_threshold 10 (MarketMakerConfig_new 1)) in
      passes (mm_on_features (mm_make_features 1 10000 100 (Fin 0)) mm) (\<lambda>(action1, mm).
        quoting (\<lambda>_. True) action1 \<and>
        passes (mm_on_features (mm_make_features 1 10005 100 (Fin 0)) mm) (\<lambda>(action2, mm).
          action2 = NoAction \<and>
          passes (mm_on_features (mm_make_features 1 10050 100 (Fin 0)) mm) (\<lambda>(action3, mm).
            quoting (\<lambda>_. True) action3))))"

definition mm_test_position_skew_long_position :: bool where
  "mm_test_position_skew_long_position \<longleftrightarrow>
     (let config = mm_with_max_position 1000 (with_position_skew (rnd (5 / 10)) (mm_with_base_qty 100 (MarketMakerConfig_new 1)));
          mm = mm_set_position 500 (MarketMaker_new config) in
      passes (mm_on_features (mm_make_features 1 10000 100 (Fin 0)) mm) (\<lambda>(action, _).
        two_sided (\<lambda>bid ask. or_qty bid < 100 \<and> 100 \<le> or_qty ask) action))"

definition mm_test_position_skew_short_position :: bool where
  "mm_test_position_skew_short_position \<longleftrightarrow>
     (let config = mm_with_max_position 1000 (with_position_skew (rnd (5 / 10)) (mm_with_base_qty 100 (MarketMakerConfig_new 1)));
          mm = mm_set_position (- 500) (MarketMaker_new config) in
      passes (mm_on_features (mm_make_features 1 10000 100 (Fin 0)) mm) (\<lambda>(action, _).
        two_sided (\<lambda>bid ask. or_qty ask < 100 \<and> 100 \<le> or_qty bid) action))"

definition test_max_position_stops_quoting :: bool where
  "test_max_position_stops_quoting \<longleftrightarrow>
     (let mm = mm_set_position 1000 (MarketMaker_new (mm_with_max_position 1000 (mm_with_base_qty 100 (MarketMakerConfig_new 1)))) in
      passes (mm_on_features (mm_make_features 1 10000 100 (Fin 0)) mm) (\<lambda>(action, _).
        quoting (\<lambda>pair. qp_bid pair = None \<and> qp_ask pair \<noteq> None) action))"

definition test_max_short_position_stops_selling :: bool where
  "test_max_short_position_stops_selling \<longleftrightarrow>
     (let mm = mm_set_position (- 1000) (MarketMaker_new (mm_with_max_position 1000 (mm_with_base_qty 100 (MarketMakerConfig_new 1)))) in
      passes (mm_on_features (mm_make_features 1 10000 100 (Fin 0)) mm) (\<lambda>(action, _).
        quoting (\<lambda>pair. qp_bid pair \<noteq> None \<and> qp_ask pair = None) action))"

definition test_imbalance_widens_spread :: bool where
  "test_imbalance_widens_spread \<longleftrightarrow>
     (let config = with_half_spread 50 (MarketMakerConfig_new 1) in
      passes (mm_on_features (mm_make_features 1 10000 100 (Fin 0)) (MarketMaker_new config)) (\<lambda>(action1, _).
        passes (mm_on_features (mm_make_features 1 10000 100 (rnd (8 / 10))) (MarketMaker_new config)) (\<lambda>(action2, _).
          two_sided (\<lambda>bid1 ask1. two_sided (\<lambda>bid2 ask2.
            or_price ask1 - or_price bid1 \<le>s or_price ask2 - or_price bid2) action2) action1)))"

definition mm_test_reset :: bool where
  "mm_test_reset \<longleftrightarrow>
     passes (mm_on_features (mm_make_features 1 10000 100 (Fin 0)) (MarketMaker_for_ticker 1)) (\<lambda>(_, mm).
       0 <s mk_last_bid_price mm \<and> 0 <s mk_last_ask_price mm \<and>
       (let mm = mm_reset mm in mk_last_bid_price mm = 0 \<and> mk_last_ask_price mm = 0))"

definition test_quotes_after_reset :: bool where
  "test_quotes_after_reset \<longleftrightarrow>
     passes (mm_on_features (mm_make_features 1 10000 100 (Fin 0)) (MarketMaker_for_ticker 1)) (\<lambda>(_, mm).
       passes (mm_on_features (mm_make_features 1 10000 100 (Fin 0)) (mm_reset mm)) (\<lambda>(action, _).
         quoting (\<lambda>_. True) action))"

lemma market_maker_tests_pass:
  "mm_test_config_default" "mm_test_config_builder" "mm_test_config_position_skew_clamped" "test_market_maker_new"
  "test_market_maker_activate_deactivate" "test_market_maker_set_position" "test_on_features_generates_quotes"
  "test_on_features_inactive_returns_none" "test_on_features_invalid_features_returns_none" "test_quote_spread"
  by code_simp+

lemma market_maker_quote_tests_pass:
  "test_quote_no_update_within_threshold" "mm_test_position_skew_long_position" "mm_test_position_skew_short_position"
  "test_max_position_stops_quoting" "test_max_short_position_stops_selling" "test_imbalance_widens_spread"
  "mm_test_reset" "test_quotes_after_reset"
  by code_simp+

section \<open>The liquidity taker\<close>

definition lt_make_features :: "TickerId \<Rightarrow> Price \<Rightarrow> Price \<Rightarrow> f64 \<Rightarrow> TickerFeatures" where
  "lt_make_features ticker_id fair_value sprd trade_signal =
     \<lparr>tf_ticker_id = ticker_id, tf_fair_value = fair_value, tf_spread = sprd, tf_mid_price = fair_value,
      tf_imbalance = Fin 0, tf_trade_signal = trade_signal\<rparr>"

definition taking :: "(OrderRequest \<Rightarrow> bool) \<Rightarrow> StrategyAction \<Rightarrow> bool" where
  "taking P act = (case act of Take order \<Rightarrow> P order | _ \<Rightarrow> False)"

definition lt_test_config_default :: bool where
  "lt_test_config_default \<longleftrightarrow>
     (let config = LiquidityTakerConfig_default in
      f_near (lt_buy_threshold config) (rnd (3 / 10)) EPSILON \<and>
      f_near (lt_sell_threshold config) (f_neg (rnd (3 / 10))) EPSILON \<and>
      lt_base_qty config = 100 \<and> lt_max_qty config = 500 \<and> lt_scale_with_signal config)"

definition lt_test_config_builder :: bool where
  "lt_test_config_builder \<longleftrightarrow>
     (let config = lt_with_max_position 10000 (with_aggression_bps 20 (with_signal_scaling False (lt_with_max_qty 1000
            (lt_with_base_qty 200 (with_sell_threshold (f_neg (rnd (5 / 10))) (with_buy_threshold (rnd (5 / 10))
            (LiquidityTakerConfig_new 1))))))) in
      lt_ticker_id config = 1 \<and> f_near (lt_buy_threshold config) (rnd (5 / 10)) EPSILON \<and>
      f_near (lt_sell_threshold config) (f_neg (rnd (5 / 10))) EPSILON \<and> lt_base_qty config = 200 \<and>
      lt_max_qty config = 1000 \<and> \<not> lt_scale_with_signal config \<and> lt_aggression_bps config = 20 \<and>
      lt_max_position config = 10000)"

definition test_config_symmetric_threshold :: bool where
  "test_config_symmetric_threshold \<longleftrightarrow>
     (let config = with_threshold (rnd (4 / 10)) (LiquidityTakerConfig_new 1) in
      f_near (lt_buy_threshold config) (rnd (4 / 10)) EPSILON \<and>
      f_near (lt_sell_threshold config) (f_neg (rnd (4 / 10))) EPSILON)"

definition test_config_threshold_clamping :: bool where
  "test_config_threshold_clamping \<longleftrightarrow>
     (let config = with_sell_threshold (f_neg (rnd (15 / 10))) (with_buy_threshold (rnd (15 / 10)) (LiquidityTakerConfig_new 1)) in
      f_near (lt_buy_threshold config) (Fin 1) EPSILON \<and> f_near (lt_sell_threshold config) (Fin (- 1)) EPSILON)"

definition test_liquidity_taker_new :: bool where
  "test_liquidity_taker_new \<longleftrightarrow>
     (let lt = LiquidityTaker_for_ticker 1 in
      lt_ticker_id (tk_config lt) = 1 \<and> tk_current_position lt = 0 \<and> tk_active lt \<and> tk_orders_sent lt = 0)"

definition test_liquidity_taker_activate_deactivate :: bool where
  "test_liquidity_taker_activate_deactivate \<longleftrightarrow>
     (let lt = LiquidityTaker_for_ticker 1; off = lt_deactivate lt in
      tk_active lt \<and> \<not> tk_active off \<and> tk_active (lt_activate off))"

definition test_buy_signal_above_threshold :: bool where
  "test_buy_signal_above_threshold \<longleftrightarrow>
     passes (on_features_simple (lt_make_features 1 10000 100 (rnd (5 / 10))) 1000000000
       (LiquidityTaker_new (with_signal_scaling False (with_buy_threshold (rnd (3 / 10)) (LiquidityTakerConfig_new 1))))) (\<lambda>(action, _). taking (\<lambda>order. or_side order = Buy \<and> or_ticker_id order = 1 \<and> or_qty order = 100) action)"

definition test_sell_signal_below_threshold :: bool where
  "test_sell_signal_below_threshold \<longleftrightarrow>
     passes (on_features_simple (lt_make_features 1 10000 100 (f_neg (rnd (5 / 10)))) 1000000000
       (LiquidityTaker_new (with_signal_scaling False (with_sell_threshold (f_neg (rnd (3 / 10))) (LiquidityTakerConfig_new 1))))) (\<lambda>(action, _). taking (\<lambda>order. or_side order = Sell \<and> or_ticker_id order = 1 \<and> or_qty order = 100) action)"

definition test_signal_below_threshold_no_action :: bool where
  "test_signal_below_threshold_no_action \<longleftrightarrow>
     passes (on_features_simple (lt_make_features 1 10000 100 (rnd (3 / 10))) 1000000000
       (LiquidityTaker_new (with_threshold (rnd (5 / 10)) (LiquidityTakerConfig_new 1)))) (\<lambda>(action, _). action = NoAction)"

definition test_inactive_strategy_no_action :: bool where
  "test_inactive_strategy_no_action \<longleftrightarrow>
     passes (on_features_simple (lt_make_features 1 10000 100 (rnd (8 / 10))) 1000000000
       (lt_deactivate (LiquidityTaker_for_ticker 1))) (\<lambda>(action, _). action = NoAction)"

definition test_invalid_features_no_action :: bool where
  "test_invalid_features_no_action \<longleftrightarrow>
     passes (on_features_simple (TickerFeatures_new 1) 1000000000 (LiquidityTaker_for_ticker 1))
       (\<lambda>(action, _). action = NoAction)"

definition test_signal_scaling_at_threshold :: bool where
  "test_signal_scaling_at_threshold \<longleftrightarrow>
     passes (on_features_simple (lt_make_features 1 10000 100 (rnd (31 / 100))) 1000000000
       (LiquidityTaker_new (with_signal_scaling True (lt_with_max_qty 500 (lt_with_base_qty 100 (with_threshold (rnd (3 / 10)) (LiquidityTakerConfig_new 1))))))) (\<lambda>(action, _). taking (\<lambda>order. 100 \<le> or_qty order \<and> or_qty order \<le> 150) action)"

definition test_signal_scaling_at_max :: bool where
  "test_signal_scaling_at_max \<longleftrightarrow>
     passes (on_features_simple (lt_make_features 1 10000 100 (Fin 1)) 1000000000
       (LiquidityTaker_new (with_signal_scaling True (lt_with_max_qty 500 (lt_with_base_qty 100 (with_threshold (rnd (3 / 10)) (LiquidityTakerConfig_new 1))))))) (\<lambda>(action, _). taking (\<lambda>order. or_qty order = 500) action)"

definition test_no_signal_scaling :: bool where
  "test_no_signal_scaling \<longleftrightarrow>
     passes (on_features_simple (lt_make_features 1 10000 100 (rnd (9 / 10))) 1000000000
       (LiquidityTaker_new (with_signal_scaling False (lt_with_max_qty 500 (lt_with_base_qty 100 (with_threshold (rnd (3 / 10)) (LiquidityTakerConfig_new 1))))))) (\<lambda>(action, _). taking (\<lambda>order. or_qty order = 100) action)"

definition test_rate_limiting :: bool where
  "test_rate_limiting \<longleftrightarrow>
     passes (run_outcome (on_features_simple (lt_make_features 1 10000 100 (rnd (5 / 10)))) [1000000000, 1000000001, 1500000000]
         (LiquidityTaker_new (with_min_interval_ns 100000000 (with_threshold (rnd (3 / 10)) (LiquidityTakerConfig_new 1)))))
       (\<lambda>(actions, _).
          case actions of
            [action1, action2, action3] \<Rightarrow> taking (\<lambda>_. True) action1 \<and> action2 = NoAction \<and> taking (\<lambda>_. True) action3
          | _ \<Rightarrow> False)"

definition test_cooldown_increases_interval :: bool where
  "test_cooldown_increases_interval \<longleftrightarrow>
     passes (on_features_simple (lt_make_features 1 10000 100 (rnd (5 / 10))) 1000000000
       (LiquidityTaker_new (with_cooldown_factor (Fin 2) (with_min_interval_ns 100000000
         (with_threshold (rnd (3 / 10)) (LiquidityTakerConfig_new 1)))))) (\<lambda>(_, lt).
       100000000 < tk_effective_interval_ns lt)"

definition test_reset_cooldown :: bool where
  "test_reset_cooldown \<longleftrightarrow>
     passes (on_features_simple (lt_make_features 1 10000 100 (rnd (5 / 10))) 1000000000
       (LiquidityTaker_new (with_cooldown_factor (Fin 2) (with_min_interval_ns 100000000
         (with_threshold (rnd (3 / 10)) (LiquidityTakerConfig_new 1)))))) (\<lambda>(_, lt).
       100000000 < tk_effective_interval_ns lt \<and> tk_effective_interval_ns (reset_cooldown lt) = 100000000)"

definition test_max_long_position_blocks_buy :: bool where
  "test_max_long_position_blocks_buy \<longleftrightarrow>
     passes (on_features_simple (lt_make_features 1 10000 100 (rnd (8 / 10))) 1000000000
       (lt_set_position 1000 (LiquidityTaker_new (lt_with_max_position 1000 (with_threshold (rnd (3 / 10)) (LiquidityTakerConfig_new 1)))))) (\<lambda>(action, _). action = NoAction)"

definition test_max_short_position_blocks_sell :: bool where
  "test_max_short_position_blocks_sell \<longleftrightarrow>
     passes (on_features_simple (lt_make_features 1 10000 100 (f_neg (rnd (8 / 10)))) 1000000000
       (lt_set_position (- 1000) (LiquidityTaker_new (lt_with_max_position 1000 (with_threshold (rnd (3 / 10)) (LiquidityTakerConfig_new 1)))))) (\<lambda>(action, _). action = NoAction)"

definition test_long_position_allows_sell :: bool where
  "test_long_position_allows_sell \<longleftrightarrow>
     passes (on_features_simple (lt_make_features 1 10000 100 (f_neg (rnd (8 / 10)))) 1000000000
       (lt_set_position 1000 (LiquidityTaker_new (lt_with_max_position 1000 (with_threshold (rnd (3 / 10)) (LiquidityTakerConfig_new 1)))))) (\<lambda>(action, _). taking (\<lambda>_. True) action)"

definition test_buy_order_price_aggression :: bool where
  "test_buy_order_price_aggression \<longleftrightarrow>
     passes (lt_on_features (lt_make_features 1 10000 100 (rnd (5 / 10))) 1000000000 9950 10050
       (LiquidityTaker_new (with_aggression_bps 10 (with_threshold (rnd (3 / 10)) (LiquidityTakerConfig_new 1))))) (\<lambda>(action, _). taking (\<lambda>order. 10050 <s or_price order) action)"

definition test_sell_order_price_aggression :: bool where
  "test_sell_order_price_aggression \<longleftrightarrow>
     passes (lt_on_features (lt_make_features 1 10000 100 (f_neg (rnd (5 / 10)))) 1000000000 9950 10050
       (LiquidityTaker_new (with_aggression_bps 10 (with_threshold (rnd (3 / 10)) (LiquidityTakerConfig_new 1))))) (\<lambda>(action, _). taking (\<lambda>order. or_price order <s 9950) action)"

definition test_on_fill_reduces_cooldown :: bool where
  "test_on_fill_reduces_cooldown \<longleftrightarrow>
     (let config = with_cooldown_factor (Fin 2) (with_min_interval_ns 100000000 (LiquidityTakerConfig_new 1));
          lt = (LiquidityTaker_new config)\<lparr>tk_effective_interval_ns := 400000000\<rparr>;
          lt = lt_on_fill lt
      in tk_effective_interval_ns lt = 200000000 \<and>
         100000000 \<le> tk_effective_interval_ns (lt_on_fill (lt_on_fill (lt_on_fill lt))))"

definition lt_test_reset :: bool where
  "lt_test_reset \<longleftrightarrow>
     passes (on_features_simple (lt_make_features 1 10000 100 (rnd (5 / 10))) 1000000000 (LiquidityTaker_for_ticker 1)) (\<lambda>(_, lt).
       0 < tk_orders_sent lt \<and> 0 < tk_last_order_time_ns lt \<and>
       (let lt = lt_reset lt in
        tk_orders_sent lt = 0 \<and> tk_last_order_time_ns lt = 0 \<and>
        tk_effective_interval_ns lt = lt_min_order_interval_ns (tk_config lt)))"

definition test_orders_sent_counter :: bool where
  "test_orders_sent_counter \<longleftrightarrow>
     tk_orders_sent (LiquidityTaker_new (with_min_interval_ns 1 (with_threshold (rnd (3 / 10)) (LiquidityTakerConfig_new 1)))) = 0 \<and>
     passes (on_features_simple (lt_make_features 1 10000 100 (rnd (5 / 10))) 1000000
         (LiquidityTaker_new (with_min_interval_ns 1 (with_threshold (rnd (3 / 10)) (LiquidityTakerConfig_new 1)))))
       (\<lambda>(_, lt). tk_orders_sent lt = 1) \<and>
     passes (run_outcome (on_features_simple (lt_make_features 1 10000 100 (rnd (5 / 10)))) [1000000, 1000000000]
         (LiquidityTaker_new (with_min_interval_ns 1 (with_threshold (rnd (3 / 10)) (LiquidityTakerConfig_new 1)))))
       (\<lambda>(_, lt). tk_orders_sent lt = 2)"

lemma liquidity_taker_config_tests_pass:
  "lt_test_config_default" "lt_test_config_builder" "test_config_symmetric_threshold"
  "test_config_threshold_clamping" "test_liquidity_taker_new" "test_liquidity_taker_activate_deactivate"
  by code_simp+

lemma liquidity_taker_signal_tests_pass:
  "test_buy_signal_above_threshold" "test_sell_signal_below_threshold" "test_signal_below_threshold_no_action"
  "test_inactive_strategy_no_action" "test_invalid_features_no_action"
  by code_simp+

lemma liquidity_taker_scaling_tests_pass:
  "test_signal_scaling_at_threshold" "test_signal_scaling_at_max" "test_no_signal_scaling"
  by code_simp+

lemma liquidity_taker_rate_tests_pass:
  "test_rate_limiting"
  by code_simp+

lemma liquidity_taker_cooldown_tests_pass:
  "test_cooldown_increases_interval" "test_reset_cooldown"
  by code_simp+

lemma liquidity_taker_position_tests_pass:
  "test_max_long_position_blocks_buy" "test_max_short_position_blocks_sell" "test_long_position_allows_sell"
  by code_simp+

lemma liquidity_taker_price_tests_pass:
  "test_buy_order_price_aggression" "test_sell_order_price_aggression"
  by code_simp+

lemma liquidity_taker_reset_tests_pass:
  "test_on_fill_reduces_cooldown" "lt_test_reset"
  by code_simp+

lemma liquidity_taker_count_tests_pass:
  "test_orders_sent_counter"
  by code_simp+

end
