(* ===== verification/EngineTests.thy ===== *)
theory EngineTests
  imports TradeEngine
begin

text \<open>
  The unit tests of \<open>trading/src/trade_engine.rs\<close>, evaluated on the model. Without callbacks the
  hidden state of the engine is the unit value; the clock reads zero.
\<close>

section \<open>Helpers\<close>

definition te_make_bbo :: "Price \<Rightarrow> Qty \<Rightarrow> Price \<Rightarrow> Qty \<Rightarrow> BBO" where
  "te_make_bbo bid_price bid_qty ask_price ask_qty =
     \<lparr>bb_bid_price = bid_price, bb_bid_qty = bid_qty, bb_ask_price = ask_price, bb_ask_qty = ask_qty\<rparr>"

definition make_market_update :: "TickerId \<Rightarrow> MarketUpdateType \<Rightarrow> Side \<Rightarrow> Price \<Rightarrow> Qty \<Rightarrow> MarketUpdate" where
  "make_market_update ticker_id ty side price qty = MarketUpdate_new ty ticker_id 1 (side_i8 side) price qty 1"

definition make_fill_response :: "OrderId \<Rightarrow> TickerId \<Rightarrow> Side \<Rightarrow> Price \<Rightarrow> Qty \<Rightarrow> Qty \<Rightarrow> ClientResponse" where
  "make_fill_response client_order_id ticker_id side price exec_qty leaves_qty =
     ClientResponse_new Filled 1 ticker_id client_order_id 1000 (side_i8 side) price exec_qty leaves_qty"

definition make_accepted_response :: "OrderId \<Rightarrow> TickerId \<Rightarrow> Side \<Rightarrow> Price \<Rightarrow> Qty \<Rightarrow> ClientResponse" where
  "make_accepted_response client_order_id ticker_id side price qty =
     ClientResponse_new Accepted 1 ticker_id client_order_id 1000 (side_i8 side) price 0 qty"

definition make_canceled_response :: "OrderId \<Rightarrow> TickerId \<Rightarrow> ClientResponse" where
  "make_canceled_response client_order_id ticker_id =
     ClientResponse_new Canceled 1 ticker_id client_order_id 1000 1 0 0 0"

text \<open>\<open>engine.submit_order(...).unwrap()\<close>, and the engine without risk checks of most tests.\<close>

definition submitted :: "(RiskCheckResult + OrderId) \<times> 'w TradeEngine \<Rightarrow> (OrderId \<Rightarrow> 'w TradeEngine \<Rightarrow> bool) \<Rightarrow> bool" where
  "submitted r P = (case r of (Inr order_id, engine) \<Rightarrow> P order_id engine | _ \<Rightarrow> False)"

definition unchecked_engine :: "unit TradeEngine" where
  "unchecked_engine = TradeEngine_new (with_risk_checks False (TradeEngineConfig_new 1)) ()"

section \<open>Configuration and market data\<close>

definition te_test_config_default :: bool where
  "te_test_config_default \<longleftrightarrow>
     (let config = TradeEngineConfig_default in
      tc_client_id config = 1 \<and> tc_tickers config = [] \<and> tc_enable_risk_checks config \<and> tc_max_events_per_cycle config = 100)"

definition te_test_config_builder :: bool where
  "te_test_config_builder \<longleftrightarrow>
     (let config = with_max_events_per_cycle 50 (with_risk_checks False (with_tickers [1, 2, 3] (TradeEngineConfig_new 42))) in
      tc_client_id config = 42 \<and> tc_tickers config = [1, 2, 3] \<and> \<not> tc_enable_risk_checks config \<and>
      tc_max_events_per_cycle config = 50)"

definition test_engine_new :: bool where
  "test_engine_new \<longleftrightarrow>
     (let engine = TradeEngine_new (with_tickers [1, 2] (TradeEngineConfig_new 1)) () in
      \<not> te_running engine \<and> market_updates_processed (te_stats engine) = 0 \<and> total_pending_orders engine = 0)"

definition test_engine_start_stop :: bool where
  "test_engine_start_stop \<longleftrightarrow>
     (let engine = TradeEngine_with_defaults 1 () in
      \<not> te_running engine \<and> te_running (te_start engine) \<and> \<not> te_running (te_stop (te_start engine)))"

definition test_on_market_update_add :: bool where
  "test_on_market_update_add \<longleftrightarrow>
     (let engine = snd (on_market_update (make_market_update 1 UAdd Buy 10000 100) (TradeEngine_with_defaults 1 ())) in
      map_option bb_bid_price (te_get_bbo engine 1) = Some 10000 \<and> map_option bb_bid_qty (te_get_bbo engine 1) = Some 100 \<and>
      market_updates_processed (te_stats engine) = 1)"

definition test_on_market_update_both_sides :: bool where
  "test_on_market_update_both_sides \<longleftrightarrow>
     (case te_get_bbo (snd (on_market_update (make_market_update 1 UAdd Sell 10100 50)
            (snd (on_market_update (make_market_update 1 UAdd Buy 10000 100) (TradeEngine_with_defaults 1 ()))))) 1 of
        None \<Rightarrow> False
      | Some bbo \<Rightarrow>
          bb_bid_price bbo = 10000 \<and> bb_bid_qty bbo = 100 \<and> bb_ask_price bbo = 10100 \<and> bb_ask_qty bbo = 50 \<and>
          BBO_is_valid bbo)"

definition test_on_market_update_trade :: bool where
  "test_on_market_update_trade \<longleftrightarrow>
     map_option bb_ask_qty (te_get_bbo (snd (on_market_update (make_market_update 1 UTrade Buy 10100 20)
       (te_update_bbo 1 (te_make_bbo 10000 100 10100 50) (TradeEngine_with_defaults 1 ())))) 1) = Some 30"

definition test_on_market_update_clear :: bool where
  "test_on_market_update_clear \<longleftrightarrow>
     (case te_get_bbo (snd (on_market_update (make_market_update 1 UClear Buy 0 0)
            (te_update_bbo 1 (te_make_bbo 10000 100 10100 50) (TradeEngine_with_defaults 1 ())))) 1 of
        None \<Rightarrow> False
      | Some bbo \<Rightarrow> \<not> BBO_is_valid bbo)"

definition test_update_bbo_directly :: bool where
  "test_update_bbo_directly \<longleftrightarrow>
     (let engine = te_update_bbo 1 (te_make_bbo 10000 100 10100 50) (TradeEngine_with_defaults 1 ()) in
      map_option bb_bid_price (te_get_bbo engine 1) = Some 10000 \<and> map_option bb_ask_price (te_get_bbo engine 1) = Some 10100 \<and>
      map_option TickerFeatures_is_valid (te_get_features engine 1) = Some True)"

definition test_features_updated_on_bbo_change :: bool where
  "test_features_updated_on_bbo_change \<longleftrightarrow>
     te_get_features (TradeEngine_with_defaults 1 ()) 1 = None \<and>
     (case te_get_features (te_update_bbo 1 (te_make_bbo 10000 100 10100 50) (TradeEngine_with_defaults 1 ())) 1 of
        None \<Rightarrow> False
      | Some features \<Rightarrow>
          TickerFeatures_is_valid features \<and> tf_mid_price features = 10050 \<and> tf_spread features = 100)"

lemma engine_market_tests_pass:
  "te_test_config_default" "te_test_config_builder" "test_engine_new" "test_engine_start_stop" "test_on_market_update_add"
  "test_on_market_update_both_sides" "test_on_market_update_trade" "test_on_market_update_clear"
  "test_update_bbo_directly" "test_features_updated_on_bbo_change"
  by code_simp+

section \<open>Orders\<close>

definition test_submit_order_success :: bool where
  "test_submit_order_success \<longleftrightarrow>
     submitted (submit_order (Nanos 0) 1 Buy 10000 100 unchecked_engine) (\<lambda>order_id engine.
       get_pending_order engine order_id \<noteq> None \<and> pending_order_count engine 1 = 1 \<and>
       orders_submitted (te_stats engine) = 1)"

text \<open>The callback counts its calls in the hidden state.\<close>

definition test_submit_order_with_callback :: bool where
  "test_submit_order_with_callback \<longleftrightarrow>
     submitted (submit_order (Nanos 0) 1 Buy 10000 100
         (set_order_submit_callback (\<lambda>ticker side price qty next_id. (next_id, next_id + 1))
            (TradeEngine_new (with_risk_checks False (TradeEngineConfig_new 1)) (1000 :: u64)))) (\<lambda>order_id engine.
       order_id = 1000 \<and>
       submitted (submit_order (Nanos 0) 1 Sell 10100 50 engine) (\<lambda>order_id engine. order_id = 1001))"

definition test_submit_order_risk_rejection :: bool where
  "test_submit_order_risk_rejection \<longleftrightarrow>
     (case submit_order (Nanos 0) 1 Buy 10000 100
             (risk_manager_mut (set_limits 1 (RiskLimits_new 50 1000 100000 10)) (TradeEngine_with_defaults 1 ())) of
        (Inl risk, engine) \<Rightarrow> risk = OrderTooLarge \<and> orders_rejected_risk (te_stats engine) = 1
      | _ \<Rightarrow> False)"

definition test_cancel_order :: bool where
  "test_cancel_order \<longleftrightarrow>
     submitted (submit_order (Nanos 0) 1 Buy 10000 100
         (set_order_cancel_callback (\<lambda>id ticker cancelled_ids. cancelled_ids @ [id])
            (TradeEngine_new (with_risk_checks False (TradeEngineConfig_new 1)) ([] :: OrderId list)))) (\<lambda>order_id engine.
       get_pending_order (te_cancel_order order_id engine) order_id \<noteq> None)"

definition test_cancel_all_orders :: bool where
  "test_cancel_all_orders \<longleftrightarrow>
     submitted (submit_order (Nanos 0) 1 Buy 10000 100 unchecked_engine) (\<lambda>_ engine.
     submitted (submit_order (Nanos 0) 1 Sell 10100 50 engine) (\<lambda>_ engine.
     submitted (submit_order (Nanos 0) 2 Buy 20000 200 engine) (\<lambda>_ engine.
       pending_order_count engine 1 = 2 \<and> pending_order_count engine 2 = 1 \<and>
       pending_order_count (cancel_all_orders [1, 2, 3] 1 engine) 1 = 2)))"

lemma engine_order_tests_pass:
  "test_submit_order_success" "test_submit_order_with_callback" "test_submit_order_risk_rejection" "test_cancel_order"
  "test_cancel_all_orders"
  by code_simp+

section \<open>Responses\<close>

definition test_on_response_accepted :: bool where
  "test_on_response_accepted \<longleftrightarrow>
     submitted (submit_order (Nanos 0) 1 Buy 10000 100 unchecked_engine) (\<lambda>order_id engine.
     passes (on_response (make_accepted_response order_id 1 Buy 10000 100) engine) (\<lambda>engine.
       responses_processed (te_stats engine) = 1 \<and> get_pending_order engine order_id \<noteq> None))"

definition test_on_response_filled_full :: bool where
  "test_on_response_filled_full \<longleftrightarrow>
     submitted (submit_order (Nanos 0) 1 Buy 10000 100 unchecked_engine) (\<lambda>order_id engine.
     passes (on_response (make_fill_response order_id 1 Buy 10000 100 0) engine) (\<lambda>engine.
       fills_received (te_stats engine) = 1 \<and> get_pending_order engine order_id = None \<and>
       pending_order_count engine 1 = 0 \<and> map_option ps_position (te_get_position engine 1) = Some 100))"

definition test_on_response_filled_partial :: bool where
  "test_on_response_filled_partial \<longleftrightarrow>
     submitted (submit_order (Nanos 0) 1 Buy 10000 100 unchecked_engine) (\<lambda>order_id engine.
     passes (on_response (make_fill_response order_id 1 Buy 10000 60 40) engine) (\<lambda>engine.
       map_option to_leaves_qty (get_pending_order engine order_id) = Some 40 \<and> pending_order_count engine 1 = 1 \<and>
       map_option ps_position (te_get_position engine 1) = Some 60))"

definition test_on_response_canceled :: bool where
  "test_on_response_canceled \<longleftrightarrow>
     submitted (submit_order (Nanos 0) 1 Buy 10000 100 unchecked_engine) (\<lambda>order_id engine.
     passes (on_response (make_canceled_response order_id 1) engine) (\<lambda>engine.
       get_pending_order engine order_id = None \<and> pending_order_count engine 1 = 0))"

lemma engine_response_tests_pass:
  "test_on_response_accepted" "test_on_response_filled_full" "test_on_response_filled_partial"
  "test_on_response_canceled"
  by code_simp+

section \<open>Strategy actions\<close>

definition test_process_strategy_action_none :: bool where
  "test_process_strategy_action_none \<longleftrightarrow>
     fst (process_strategy_action (Nanos 0) (Nanos 0) [] NoAction (TradeEngine_with_defaults 1 ())) = []"

definition test_process_strategy_action_take :: bool where
  "test_process_strategy_action_take \<longleftrightarrow>
     (let results = fst (process_strategy_action (Nanos 0) (Nanos 0) [] (Take (OrderRequest_buy 1 10000 100)) unchecked_engine) in
      length results = 1 \<and> fst (results ! 0) \<noteq> None \<and> snd (results ! 0) = Allowed)"

definition test_process_strategy_action_quote :: bool where
  "test_process_strategy_action_quote \<longleftrightarrow>
     (let (results, engine) = process_strategy_action (Nanos 0) (Nanos 0) []
            (Quote (QuotePair_new (OrderRequest_buy 1 10000 100) (OrderRequest_sell 1 10100 100))) unchecked_engine in
      length results = 2 \<and> fst (results ! 0) \<noteq> None \<and> fst (results ! 1) \<noteq> None \<and> pending_order_count engine 1 = 2)"

definition test_process_strategy_action_cancel_all :: bool where
  "test_process_strategy_action_cancel_all \<longleftrightarrow>
     submitted (submit_order (Nanos 0) 1 Buy 10000 100 unchecked_engine) (\<lambda>_ engine.
     submitted (submit_order (Nanos 0) 1 Sell 10100 50 engine) (\<lambda>_ engine.
       fst (process_strategy_action (Nanos 0) (Nanos 0) [1, 2] (CancelAll 1) engine) = []))"

definition test_process_order_request :: bool where
  "test_process_order_request \<longleftrightarrow>
     submitted (process_order_request (Nanos 0) (OrderRequest_buy 1 10000 100) unchecked_engine) (\<lambda>_ engine.
       pending_order_count engine 1 = 1)"

lemma engine_action_tests_pass:
  "test_process_strategy_action_none" "test_process_strategy_action_take" "test_process_strategy_action_quote"
  "test_process_strategy_action_cancel_all" "test_process_order_request"
  by code_simp+

section \<open>The event loop, resets, positions and risk\<close>

definition test_run_cycle_not_running :: bool where
  "test_run_cycle_not_running \<longleftrightarrow>
     passes (run_cycle list_next list_next [] [] (TradeEngine_with_defaults 1 ())) (\<lambda>(processed, _). processed = 0)"

definition test_run_cycle_with_events :: bool where
  "test_run_cycle_with_events \<longleftrightarrow>
     (case submit_order (Nanos 0) 1 Buy 10000 100 (te_start unchecked_engine) of
        (Inl _, _) \<Rightarrow> False
      | (Inr order_id, engine) \<Rightarrow>
          passes (run_cycle list_next list_next [make_fill_response order_id 1 Buy 10000 100 0]
              [make_market_update 1 UAdd Buy 10000 100, make_market_update 1 UAdd Sell 10100 50] engine)
            (\<lambda>(processed, engine).
              processed = 3 \<and> responses_processed (te_stats engine) = 1 \<and>
              market_updates_processed (te_stats engine) = 2 \<and> total_cycles (te_stats engine) = 1))"

definition test_run_cycle_respects_max_events :: bool where
  "test_run_cycle_respects_max_events \<longleftrightarrow>
     passes (run_cycle (\<lambda>it. (None, it)) list_next ()
         (map (\<lambda>i. make_market_update 1 UAdd Buy (10000 + word_of_nat i) 100) [0..<10])
         (te_start (TradeEngine_new (with_max_events_per_cycle 2 (with_risk_checks False (TradeEngineConfig_new 1))) ())))
       (\<lambda>(processed, _). processed = 2)"

definition te_test_reset :: bool where
  "te_test_reset \<longleftrightarrow>
     submitted (submit_order (Nanos 0) 1 Buy 10000 100
         (te_update_bbo 1 (te_make_bbo 10000 100 10100 50)
            (TradeEngine_new (with_risk_checks False (with_tickers [1, 2] (TradeEngineConfig_new 1))) ()))) (\<lambda>_ engine.
       orders_submitted (te_stats engine) = 1 \<and> total_pending_orders engine = 1 \<and>
       (let engine = te_reset engine in
        orders_submitted (te_stats engine) = 0 \<and> total_pending_orders engine = 0 \<and>
        (case te_get_features engine 1 of None \<Rightarrow> True | Some features \<Rightarrow> \<not> TickerFeatures_is_valid features)))"

definition test_position_updated_on_fill :: bool where
  "test_position_updated_on_fill \<longleftrightarrow>
     submitted (submit_order (Nanos 0) 1 Buy 10000 100 unchecked_engine) (\<lambda>order_id engine.
     passes (on_response (make_fill_response order_id 1 Buy 10000 100 0) engine) (\<lambda>engine.
       map_option ps_position (te_get_position engine 1) = Some 100 \<and>
       map_option ps_volume_traded (te_get_position engine 1) = Some 100))"

text \<open>Orders of 100, each submitted and then filled at its price.\<close>

fun trades :: "(Side \<times> Price) list \<Rightarrow> unit TradeEngine \<Rightarrow> unit TradeEngine outcome" where
  "trades [] engine = Inr engine"
| "trades ((side, price) # ts) engine =
     (case submit_order (Nanos 0) 1 side price 100 engine of
        (Inl _, engine) \<Rightarrow> Inl Assertion_Failed
      | (Inr order_id, engine) \<Rightarrow>
          (case on_response (make_fill_response order_id 1 side price 100 0) engine of
             Inl f \<Rightarrow> Inl f
           | Inr engine \<Rightarrow> trades ts engine))"

definition test_position_tracking_round_trip :: bool where
  "test_position_tracking_round_trip \<longleftrightarrow>
     passes (trades [(Buy, 10000)] unchecked_engine) (\<lambda>engine.
       map_option ps_position (te_get_position engine 1) = Some 100) \<and>
     passes (trades [(Buy, 10000), (Sell, 10100)] unchecked_engine) (\<lambda>engine.
       (case te_get_position engine 1 of
          None \<Rightarrow> False
        | Some position \<Rightarrow>
            ps_position position = 0 \<and> ps_volume_traded position = 200 \<and> ps_realized_pnl position = 10000))"

definition test_check_order_risk_disabled :: bool where
  "test_check_order_risk_disabled \<longleftrightarrow> check_order_risk unchecked_engine 1 Buy 10000 1000000 = Allowed"

definition test_check_order_risk_enabled :: bool where
  "test_check_order_risk_enabled \<longleftrightarrow>
     (let engine = TradeEngine_with_defaults 1 () in
      check_order_risk engine 1 Buy 10000 500 = Allowed \<and> check_order_risk engine 1 Buy 10000 1500 = OrderTooLarge)"

definition test_stats_new :: bool where
  "test_stats_new \<longleftrightarrow>
     (let stats = TradeEngineStats_new in
      market_updates_processed stats = 0 \<and> responses_processed stats = 0 \<and> orders_submitted stats = 0 \<and>
      orders_rejected_risk stats = 0 \<and> fills_received stats = 0 \<and> strategy_cycles stats = 0 \<and> total_cycles stats = 0)"

definition test_stats_reset :: bool where
  "test_stats_reset \<longleftrightarrow>
     (let stats = TradeEngineStats_reset (TradeEngineStats_new\<lparr>market_updates_processed := 100, orders_submitted := 50\<rparr>) in
      market_updates_processed stats = 0 \<and> orders_submitted stats = 0)"

lemma run_cycle_not_running_passes: "test_run_cycle_not_running"
  by code_simp

lemma run_cycle_respects_max_events_passes: "test_run_cycle_respects_max_events"
proof -
  let ?e = "te_start (TradeEngine_new (with_max_events_per_cycle 2 (with_risk_checks False (TradeEngineConfig_new 1))) ())"
  have e: "te_running ?e" "unat (tc_max_events_per_cycle (te_config ?e)) = 2"
    by (simp_all add: te_start_def TradeEngine_new_def reserve_def with_max_events_per_cycle_def with_risk_checks_def
        TradeEngineConfig_new_def TradeEngineConfig_default_def)
  have "for_each_take (\<lambda>it. (None, it)) on_response n it e = Inr (0, e)" for n and it :: unit and e :: "unit TradeEngine"
    by (cases n) simp_all
  moreover have "for_each_take list_next (\<lambda>u e. Inr (snd (on_market_update u e))) n us e =
      Inr (min n (length us), fold (\<lambda>u e. snd (on_market_update u e)) (take n us) e)" for n us and e :: "unit TradeEngine"
    by (rule for_each_take_list) simp
  ultimately show ?thesis using e by (simp add: test_run_cycle_respects_max_events_def run_cycle_def passes_def)
qed

lemma engine_reset_passes: "te_test_reset"
  by code_simp

text \<open>The test with events is proved from the counters that each step moves.\<close>

lemma on_market_update_stats:
  "te_stats (snd (on_market_update u e)) = market_updates_processed_update (\<lambda>n. n + 1) (te_stats e)"
  by (simp add: on_market_update_def bump_def Let_def)

lemma on_response_stats:
  assumes "on_response r e = Inr e'"
  shows "responses_processed (te_stats e') = responses_processed (te_stats e) + 1"
    "market_updates_processed (te_stats e') = market_updates_processed (te_stats e)"
    "total_cycles (te_stats e') = total_cycles (te_stats e)"
  using assms by (auto simp: on_response_def book_fill_def settle_fill_def drop_order_def lower_count_def bump_def Let_def
      split: option.splits ClientResponseType.splits sum.splits if_splits)

lemmas respond_stats = on_response_stats [OF on_response_eq]

lemma run_cycle_three_events:
  fixes e :: "'w TradeEngine"
  assumes "te_running e" "unat (tc_max_events_per_cycle (te_config e)) = 100" "te_stats e = TradeEngineStats_new"
    "\<not> tc_enable_risk_checks (te_config e)"
  shows "case submit_order now 1 Buy 10000 100 e of
      (Inl _, _) \<Rightarrow> False
    | (Inr order_id, engine) \<Rightarrow>
        passes (run_cycle list_next list_next [r order_id] [u1, u2] engine) (\<lambda>(processed, engine).
          processed = 3 \<and> responses_processed (te_stats engine) = 1 \<and> market_updates_processed (te_stats engine) = 2 \<and>
          total_cycles (te_stats engine) = 1)"
proof -
  have 1: "for_each_take list_next on_response n rs e = Inr (min n (length rs), fold respond (take n rs) e)"
    for n rs and e :: "'w TradeEngine"
    by (rule for_each_take_list) (rule on_response_eq)
  have 2: "for_each_take list_next (\<lambda>u e. Inr (snd (on_market_update u e))) n us e =
      Inr (min n (length us), fold (\<lambda>u e. snd (on_market_update u e)) (take n us) e)" for n us and e :: "'w TradeEngine"
    by (rule for_each_take_list) simp
  show ?thesis
    using assms by (simp add: passes_def submit_order_def check_order_risk_def is_allowed_def
        assign_id_def run_cycle_def 1 2 Let_def bump_def on_market_update_stats respond_stats TradeEngineStats_new_def
        split: option.splits prod.splits)
qed

lemma engine_run_cycle_with_events_pass: "test_run_cycle_with_events"
  unfolding test_run_cycle_with_events_def
  by (rule run_cycle_three_events) (simp_all add: unchecked_engine_def te_start_def TradeEngine_new_def reserve_def
      with_risk_checks_def TradeEngineConfig_new_def TradeEngineConfig_default_def)

lemma engine_position_tests_pass:
  "test_position_updated_on_fill" "test_position_tracking_round_trip" "test_check_order_risk_disabled"
  "test_check_order_risk_enabled" "test_stats_new" "test_stats_reset"
  by code_simp+

end
