(* ===== verification/IntegrationTests.thy ===== *)
theory IntegrationTests
  imports OrderGateway MatchingTests StrategyTests EngineTests
begin

text \<open>
  The integration tests, \<open>trading/tests/integration.rs\<close>: order flow and cancellation through the
  matching engine, the components of a client, the strategies, and flows across the matching engine,
  the trade engine and a strategy. Runs of the matching engine are those of the abstract engine it
  refines; the rest is evaluated.
\<close>

section \<open>Helpers\<close>

definition it_make_features :: "TickerId \<Rightarrow> Price \<Rightarrow> Price \<Rightarrow> f64 \<Rightarrow> f64 \<Rightarrow> TickerFeatures" where
  "it_make_features ticker_id fair_value sprd imbalance trade_signal =
     \<lparr>tf_ticker_id = ticker_id, tf_fair_value = fair_value, tf_spread = sprd, tf_mid_price = fair_value,
      tf_imbalance = imbalance, tf_trade_signal = trade_signal\<rparr>"

definition it_make_bbo :: "Price \<Rightarrow> Qty \<Rightarrow> Price \<Rightarrow> Qty \<Rightarrow> BBO" where
  "it_make_bbo bid_price bid_qty ask_price ask_qty =
     \<lparr>bb_bid_price = bid_price, bb_bid_qty = bid_qty, bb_ask_price = ask_price, bb_ask_qty = ask_qty\<rparr>"

definition it_make_fill_response :: "OrderId \<Rightarrow> TickerId \<Rightarrow> Side \<Rightarrow> Price \<Rightarrow> Qty \<Rightarrow> Qty \<Rightarrow> ClientResponse" where
  "it_make_fill_response client_order_id ticker_id side price exec_qty leaves_qty =
     ClientResponse_new Filled 1 ticker_id client_order_id 1000 (side_i8 side) price exec_qty leaves_qty"

text \<open>A further request to an engine, and the trade engine of most tests.\<close>

definition then_replies :: "MatchingEngine \<Rightarrow> ClientRequest \<Rightarrow> (ClientResponse \<Rightarrow> MarketUpdate list \<Rightarrow> MatchingEngine \<Rightarrow> bool) \<Rightarrow> bool" where
  "then_replies engine request P =
     (case process_request engine request of Inl _ \<Rightarrow> False | Inr ((response, updates), engine) \<Rightarrow> P response updates engine)"

definition one_ticker_engine :: "unit TradeEngine" where
  "one_ticker_engine = TradeEngine_new (with_risk_checks False (with_tickers [1] (TradeEngineConfig_new 1))) ()"

section \<open>Order flow\<close>

definition it_test_submit_new_order_accepted :: bool where
  "it_test_submit_new_order_accepted \<longleftrightarrow>
     replies [1] (ClientRequest_new RNew 100 1 12345 1 10050 100) (\<lambda>response updates engine.
       rs_msg_type response = response_u8 Accepted \<and> rs_client_id response = 100 \<and> rs_ticker_id response = 1 \<and>
       rs_client_order_id response = 12345 \<and> rs_market_order_id response = 1 \<and> rs_leaves_qty response = 100 \<and>
       rs_exec_qty response = 0 \<and> length updates = 1 \<and>
       (let update = updates ! 0 in
        mu_msg_type update = update_u8 UAdd \<and> mu_ticker_id update = 1 \<and> mu_order_id update = 1 \<and>
        mu_side update = 1 \<and> mu_price update = 10050 \<and> mu_qty update = 100))"

definition it_test_submit_multiple_orders_different_sides :: bool where
  "it_test_submit_multiple_orders_different_sides \<longleftrightarrow>
     replies [1] (ClientRequest_new RNew 100 1 1001 1 10000 100) (\<lambda>buy_response buy_updates engine.
       rs_msg_type buy_response = response_u8 Accepted \<and> length buy_updates = 1 \<and>
       then_replies engine (ClientRequest_new RNew 100 1 1002 (- 1) 10100 50) (\<lambda>sell_response sell_updates engine.
         rs_msg_type sell_response = response_u8 Accepted \<and> length sell_updates = 1 \<and>
         rs_market_order_id buy_response = 1 \<and> rs_market_order_id sell_response = 2))"

definition it_test_order_rejected_unknown_ticker :: bool where
  "it_test_order_rejected_unknown_ticker \<longleftrightarrow>
     replies [] (ClientRequest_new RNew 100 999 12345 1 10050 100) (\<lambda>response updates engine.
       rs_msg_type response = response_u8 InvalidRequest \<and> updates = [])"

definition it_test_order_rejected_invalid_side :: bool where
  "it_test_order_rejected_invalid_side \<longleftrightarrow>
     replies [1] (ClientRequest_new RNew 100 1 12345 0 10050 100) (\<lambda>response updates engine.
       rs_msg_type response = response_u8 InvalidRequest \<and> updates = [])"

section \<open>Cancellation\<close>

definition it_test_cancel_request_processing :: bool where
  "it_test_cancel_request_processing \<longleftrightarrow>
     replies [1] (ClientRequest_new RNew 100 1 12345 1 10050 100) (\<lambda>response _ engine.
       let market_order_id = rs_market_order_id response in
       then_replies engine (ClientRequest_new RCancel 100 1 market_order_id 1 10050 0) (\<lambda>cancel updates engine.
         rs_msg_type cancel = response_u8 Canceled \<and> rs_client_order_id cancel = market_order_id \<and>
         length updates = 1 \<and> mu_msg_type (updates ! 0) = update_u8 UCancel))"

definition it_test_cancel_nonexistent_order_rejected :: bool where
  "it_test_cancel_nonexistent_order_rejected \<longleftrightarrow>
     replies [1] (ClientRequest_new RCancel 100 1 99999 1 10050 0) (\<lambda>response updates engine.
       rs_msg_type response = response_u8 CancelRejected \<and> updates = [])"

definition it_test_cancel_unknown_ticker_rejected :: bool where
  "it_test_cancel_unknown_ticker_rejected \<longleftrightarrow>
     replies [] (ClientRequest_new RCancel 100 999 12345 1 10050 0) (\<lambda>response updates engine.
       rs_msg_type response = response_u8 CancelRejected \<and> updates = [])"

definition it_test_double_cancel_second_rejected :: bool where
  "it_test_double_cancel_second_rejected \<longleftrightarrow>
     replies [1] (ClientRequest_new RNew 100 1 12345 1 10050 100) (\<lambda>response _ engine.
       let cancel_request = ClientRequest_new RCancel 100 1 (rs_market_order_id response) 1 10050 0 in
       then_replies engine cancel_request (\<lambda>first first_updates engine.
         rs_msg_type first = response_u8 Canceled \<and> length first_updates = 1 \<and>
         mu_msg_type (first_updates ! 0) = update_u8 UCancel \<and>
         then_replies engine cancel_request (\<lambda>second second_updates engine.
           rs_msg_type second = response_u8 CancelRejected \<and> second_updates = [])))"

text \<open>Engines are compared with the abstract engine, request by request.\<close>

lemma replies_start:
  assumes "\<And>engine. me_ok engine \<Longrightarrow> engine_abs engine = aengine_start (set tickers) \<Longrightarrow> then_replies engine request P"
  shows "replies tickers request P"
  by (rule started_engine [of tickers]) (use assms in \<open>simp add: replies_def then_replies_def\<close>)

lemma then_replies_abstract:
  assumes "me_ok engine" "engine_abs engine = a" "aengine_step request a = ((response, updates), a')"
    and "\<And>engine. me_ok engine \<Longrightarrow> engine_abs engine = a' \<Longrightarrow> P response updates engine"
  shows "then_replies engine request P"
proof -
  obtain rp engine' where "process_request engine request = Inr (rp, engine')" "me_ok engine'"
    "aengine_step request (engine_abs engine) = (rp, engine_abs engine')"
    using process_request_ok [OF assms(1), of request] by blast
  with assms show ?thesis by (auto simp: then_replies_def)
qed

lemma order_flow_tests_pass:
  "it_test_submit_new_order_accepted" "it_test_order_rejected_unknown_ticker" "it_test_order_rejected_invalid_side"
  "it_test_cancel_nonexistent_order_rejected" "it_test_cancel_unknown_ticker_rejected"
  unfolding it_test_submit_new_order_accepted_def it_test_order_rejected_unknown_ticker_def it_test_order_rejected_invalid_side_def
    it_test_cancel_nonexistent_order_rejected_def it_test_cancel_unknown_ticker_rejected_def
  by (rule replies_abstract; simp add: abstract_evals)+

lemmas step_evals = aengine_step_def aengine_start_def request_type_def ClientRequest_new_def ClientRequestType_from_u8_def
  parse_side_def abook_new_def ORDER_POOL_SIZE_def accept_reply_def cancel_reply_def cancel_reject_reply_def
  ClientResponse_new_def MarketUpdate_new_def

lemma orders_on_both_sides_pass: "it_test_submit_multiple_orders_different_sides"
  unfolding it_test_submit_multiple_orders_different_sides_def
  apply (rule replies_start, rule then_replies_abstract, assumption, assumption, simp add: step_evals)
  apply (intro conjI; simp?)
  apply (rule then_replies_abstract, assumption, assumption, simp add: step_evals)
  apply simp
  done

lemma cancel_tests_pass: "it_test_cancel_request_processing" "it_test_double_cancel_second_rejected"
  unfolding it_test_cancel_request_processing_def it_test_double_cancel_second_rejected_def Let_def
   apply (rule replies_start, rule then_replies_abstract, assumption, assumption, simp add: step_evals)
   apply (rule then_replies_abstract, assumption, assumption, simp add: step_evals)
   apply simp
  apply (rule replies_start, rule then_replies_abstract, assumption, assumption, simp add: step_evals)
  apply (rule then_replies_abstract, assumption, assumption, simp add: step_evals)
  apply (intro conjI; simp?)
  apply (rule then_replies_abstract, assumption, assumption, simp add: step_evals)
  apply simp
  done

section \<open>The components of a client\<close>

definition it_test_feature_engine_computes_signals_from_bbo :: bool where
  "it_test_feature_engine_computes_signals_from_bbo \<longleftrightarrow>
     (case get_features (on_bbo_update 1 (it_make_bbo 10000 100 10100 50) FeatureEngine_new) 1 of
        None \<Rightarrow> False
      | Some features \<Rightarrow>
          TickerFeatures_is_valid features \<and> tf_mid_price features = 10050 \<and> tf_spread features = 100 \<and>
          f_near (tf_imbalance features) (f_div (f_sub (Fin 100) (Fin 50)) (f_add (Fin 100) (Fin 50))) (rnd (1 / 1000)) \<and>
          tf_fair_value features = 10050)"

definition it_test_feature_engine_ema_fair_value :: bool where
  "it_test_feature_engine_ema_fair_value \<longleftrightarrow>
     (let fe1 = on_bbo_update 1 (it_make_bbo 10000 100 10200 100) (FeatureEngine_with_alpha (rnd (5 / 10)));
          fe2 = on_bbo_update 1 (it_make_bbo 10200 100 10400 100) fe1
      in map_option tf_fair_value (get_features fe1 1) = Some 10100 \<and>
         map_option tf_fair_value (get_features fe2 1) = Some 10200)"

definition it_test_risk_manager_validates_orders :: bool where
  "it_test_risk_manager_validates_orders \<longleftrightarrow>
     (let rm = set_limits 1 (RiskLimits_new 100 1000 100000 10) RiskManager_new; position = Position_new 1 in
      check_order rm position Buy 50 10000 = Allowed \<and> check_order rm position Buy 200 10000 = OrderTooLarge)"

definition it_test_risk_manager_position_limits :: bool where
  "it_test_risk_manager_position_limits \<longleftrightarrow>
     (let position = (Position_new 1)\<lparr>ps_position := 9500\<rparr> in
      check_order RiskManager_new position Buy 600 10000 = PositionTooLarge \<and>
      check_order RiskManager_new position Buy 500 10000 = Allowed)"

definition it_test_position_keeper_tracks_fills :: bool where
  "it_test_position_keeper_tracks_fills \<longleftrightarrow>
     passes (PositionKeeper_on_fill 1 Buy 100 10000 PositionKeeper_new) (\<lambda>keeper.
       (case get_position keeper 1 of
          None \<Rightarrow> False
        | Some position \<Rightarrow> ps_position position = 100 \<and> ps_avg_open_price position = 10000 \<and> ps_volume_traded position = 100) \<and>
       passes (PositionKeeper_on_fill 1 Sell 50 10100 keeper) (\<lambda>keeper.
         case get_position keeper 1 of
           None \<Rightarrow> False
         | Some position \<Rightarrow> ps_position position = 50 \<and> ps_volume_traded position = 150 \<and> ps_realized_pnl position = 5000))"

definition it_test_position_keeper_unrealized_pnl :: bool where
  "it_test_position_keeper_unrealized_pnl \<longleftrightarrow>
     passes (PositionKeeper_on_fill 1 Buy 100 10000 PositionKeeper_new) (\<lambda>keeper.
       case get_position (PositionKeeper_update_market_price 1 10500 keeper) 1 of
         None \<Rightarrow> False
       | Some position \<Rightarrow> ps_unrealized_pnl position = 50000 \<and> Position_total_pnl position = 50000)"

definition it_test_trade_engine_integration :: bool where
  "it_test_trade_engine_integration \<longleftrightarrow>
     (let engine = te_update_bbo 1 (it_make_bbo 10000 100 10100 50) one_ticker_engine in
      (case te_get_features engine 1 of
         None \<Rightarrow> False
       | Some features \<Rightarrow> TickerFeatures_is_valid features \<and> tf_mid_price features = 10050) \<and>
      submitted (submit_order (Nanos 0) 1 Buy 10000 100 engine) (\<lambda>order_id engine.
        get_pending_order engine order_id \<noteq> None \<and> pending_order_count engine 1 = 1 \<and>
        passes (on_response (it_make_fill_response order_id 1 Buy 10000 100 0) engine) (\<lambda>engine.
          get_pending_order engine order_id = None \<and> pending_order_count engine 1 = 0 \<and>
          map_option ps_position (te_get_position engine 1) = Some 100)))"

lemma client_component_tests_pass:
  "it_test_feature_engine_computes_signals_from_bbo" "it_test_feature_engine_ema_fair_value"
  "it_test_risk_manager_validates_orders" "it_test_risk_manager_position_limits" "it_test_position_keeper_tracks_fills"
  "it_test_position_keeper_unrealized_pnl"
  by code_simp+

lemma trade_engine_integration_passes: "it_test_trade_engine_integration"
  by code_simp

section \<open>Strategies\<close>

definition it_test_market_maker_generates_quotes_from_features :: bool where
  "it_test_market_maker_generates_quotes_from_features \<longleftrightarrow>
     passes (mm_on_features (it_make_features 1 10000 100 (Fin 0) (Fin 0))
         (MarketMaker_new (mm_with_base_qty 100 (with_half_spread 50 (MarketMakerConfig_new 1))))) (\<lambda>(action, _).
       quoting is_two_sided action \<and>
       two_sided (\<lambda>bid ask. or_price bid <s 10000 \<and> 10000 <s or_price ask \<and> or_qty bid = 100 \<and> or_qty ask = 100 \<and>
         or_side bid = Buy \<and> or_side ask = Sell) action)"

definition it_test_market_maker_position_skew :: bool where
  "it_test_market_maker_position_skew \<longleftrightarrow>
     passes (mm_on_features (it_make_features 1 10000 100 (Fin 0) (Fin 0))
         (mm_set_position 500 (MarketMaker_new (mm_with_max_position 1000 (with_position_skew (rnd (5 / 10))
            (mm_with_base_qty 100 (MarketMakerConfig_new 1))))))) (\<lambda>(action, _).
       two_sided (\<lambda>bid ask. or_qty bid < 100 \<and> 100 \<le> or_qty ask) action)"

definition it_test_market_maker_stops_at_max_position :: bool where
  "it_test_market_maker_stops_at_max_position \<longleftrightarrow>
     passes (mm_on_features (it_make_features 1 10000 100 (Fin 0) (Fin 0))
         (mm_set_position 1000 (MarketMaker_new (mm_with_max_position 1000 (mm_with_base_qty 100 (MarketMakerConfig_new 1))))))
       (\<lambda>(action, _). quoting (\<lambda>pair. qp_bid pair = None \<and> qp_ask pair \<noteq> None) action)"

definition it_test_liquidity_taker_generates_orders_on_signals :: bool where
  "it_test_liquidity_taker_generates_orders_on_signals \<longleftrightarrow>
     passes (on_features_simple (it_make_features 1 10000 100 (Fin 0) (rnd (5 / 10))) 1000000000
         (LiquidityTaker_new (with_signal_scaling False (lt_with_base_qty 100 (with_threshold (rnd (3 / 10)) (LiquidityTakerConfig_new 1))))))
       (\<lambda>(action, _). taking (\<lambda>order. or_side order = Buy \<and> or_ticker_id order = 1 \<and> or_qty order = 100) action)"

definition it_test_liquidity_taker_sell_signal :: bool where
  "it_test_liquidity_taker_sell_signal \<longleftrightarrow>
     passes (on_features_simple (it_make_features 1 10000 100 (Fin 0) (f_neg (rnd (5 / 10)))) 1000000000
         (LiquidityTaker_new (with_signal_scaling False (with_threshold (rnd (3 / 10)) (LiquidityTakerConfig_new 1)))))
       (\<lambda>(action, _). taking (\<lambda>order. or_side order = Sell \<and> or_ticker_id order = 1) action)"

definition it_test_liquidity_taker_no_action_below_threshold :: bool where
  "it_test_liquidity_taker_no_action_below_threshold \<longleftrightarrow>
     passes (on_features_simple (it_make_features 1 10000 100 (Fin 0) (rnd (3 / 10))) 1000000000
         (LiquidityTaker_new (with_threshold (rnd (5 / 10)) (LiquidityTakerConfig_new 1))))
       (\<lambda>(action, _). action = NoAction)"

definition it_test_liquidity_taker_rate_limiting :: bool where
  "it_test_liquidity_taker_rate_limiting \<longleftrightarrow>
     passes (run_outcome (on_features_simple (it_make_features 1 10000 100 (Fin 0) (rnd (5 / 10)))) [1000000000, 1000000001, 1500000000]
         (LiquidityTaker_new (with_min_interval_ns 100000000 (with_threshold (rnd (3 / 10)) (LiquidityTakerConfig_new 1)))))
       (\<lambda>(actions, _).
          case actions of
            [action1, action2, action3] \<Rightarrow> taking (\<lambda>_. True) action1 \<and> action2 = NoAction \<and> taking (\<lambda>_. True) action3
          | _ \<Rightarrow> False)"

definition it_test_liquidity_taker_position_limits :: bool where
  "it_test_liquidity_taker_position_limits \<longleftrightarrow>
     passes (on_features_simple (it_make_features 1 10000 100 (Fin 0) (rnd (8 / 10))) 1000000000
         (lt_set_position 1000 (LiquidityTaker_new (lt_with_max_position 1000 (with_threshold (rnd (3 / 10)) (LiquidityTakerConfig_new 1))))))
       (\<lambda>(action, _). action = NoAction)"

definition it_test_liquidity_taker_signal_scaling :: bool where
  "it_test_liquidity_taker_signal_scaling \<longleftrightarrow>
     passes (on_features_simple (it_make_features 1 10000 100 (Fin 0) (rnd (31 / 100))) 1000000000
         (LiquidityTaker_new (with_signal_scaling True (lt_with_max_qty 500 (lt_with_base_qty 100
            (with_threshold (rnd (3 / 10)) (LiquidityTakerConfig_new 1))))))) (\<lambda>(action_low, lt).
       taking (\<lambda>low.
         passes (on_features_simple (it_make_features 1 10000 100 (Fin 0) (Fin 1)) 2000000000 (lt_reset lt)) (\<lambda>(action_high, _).
           taking (\<lambda>high. or_qty low < or_qty high \<and> or_qty high = 500) action_high)) action_low)"

definition it_test_trade_engine_processes_strategy_actions :: bool where
  "it_test_trade_engine_processes_strategy_actions \<longleftrightarrow>
     (let (results, engine) = process_strategy_action (Nanos 0) (Nanos 0) []
            (Quote (QuotePair_new (OrderRequest_buy 1 10000 100) (OrderRequest_sell 1 10100 100))) one_ticker_engine in
      length results = 2 \<and> fst (results ! 0) \<noteq> None \<and> fst (results ! 1) \<noteq> None \<and> pending_order_count engine 1 = 2)"

definition it_test_trade_engine_processes_take_action :: bool where
  "it_test_trade_engine_processes_take_action \<longleftrightarrow>
     (let (results, engine) = process_strategy_action (Nanos 0) (Nanos 0) [] (Take (OrderRequest_buy 1 10100 200)) one_ticker_engine in
      length results = 1 \<and> fst (results ! 0) \<noteq> None \<and> snd (results ! 0) = Allowed \<and> pending_order_count engine 1 = 1)"

lemma market_maker_integration_passes:
  "it_test_market_maker_generates_quotes_from_features" "it_test_market_maker_position_skew"
  "it_test_market_maker_stops_at_max_position"
  by code_simp+

lemma it_features: "it_make_features t v s (Fin 0) x = lt_make_features t v s x"
  by (simp add: it_make_features_def lt_make_features_def)

lemma liquidity_taker_integration_passes:
  "it_test_liquidity_taker_generates_orders_on_signals" "it_test_liquidity_taker_sell_signal"
  "it_test_liquidity_taker_no_action_below_threshold" "it_test_liquidity_taker_position_limits"
  by code_simp+

lemma taker_rate_integration_passes: "it_test_liquidity_taker_rate_limiting"
  using liquidity_taker_rate_tests_pass
  by (simp add: test_rate_limiting_def it_test_liquidity_taker_rate_limiting_def it_features)

lemma taker_scaling_integration_passes: "it_test_liquidity_taker_signal_scaling"
  by code_simp

lemma engine_actions_integration_pass:
  "it_test_trade_engine_processes_strategy_actions" "it_test_trade_engine_processes_take_action"
  by code_simp+

section \<open>Across the system\<close>

text \<open>The quotes and features of a trade engine that has processed the updates.\<close>

definition shows_quotes :: "MarketUpdate list \<Rightarrow> bool" where
  "shows_quotes updates \<longleftrightarrow>
     (let engine = fold (\<lambda>u e. snd (on_market_update u e)) updates one_ticker_engine in
      (case te_get_bbo engine 1 of
         None \<Rightarrow> False
       | Some bbo \<Rightarrow> bb_bid_price bbo = 10000 \<and> bb_bid_qty bbo = 100 \<and> bb_ask_price bbo = 10100 \<and> bb_ask_qty bbo = 50) \<and>
      (case te_get_features engine 1 of
         None \<Rightarrow> False
       | Some features \<Rightarrow> TickerFeatures_is_valid features \<and> tf_mid_price features = 10050 \<and> tf_spread features = 100))"

definition it_test_order_flow_with_market_data_update :: bool where
  "it_test_order_flow_with_market_data_update \<longleftrightarrow>
     replies [1] (ClientRequest_new RNew 1 1 1001 1 10000 100) (\<lambda>_ buy_updates engine.
       then_replies engine (ClientRequest_new RNew 1 1 1002 (- 1) 10100 50) (\<lambda>_ sell_updates engine.
         shows_quotes (buy_updates @ sell_updates)))"

definition it_test_full_trading_cycle :: bool where
  "it_test_full_trading_cycle \<longleftrightarrow>
     (let engine = te_update_bbo 1 (it_make_bbo 10000 100 10100 50) (te_start one_ticker_engine);
          mm = MarketMaker_new (mm_with_base_qty 100 (with_half_spread 50 (MarketMakerConfig_new 1)))
      in case te_get_features engine 1 of
           None \<Rightarrow> False
         | Some features \<Rightarrow>
             (case mm_on_features features mm of
                Inr (Quote pair, _) \<Rightarrow>
                  (case process_strategy_action (Nanos 0) (Nanos 0) [] (Quote pair) engine of (results, engine) \<Rightarrow>
                     length results = 2 \<and> list_all (\<lambda>(id, _). id \<noteq> None) results \<and> pending_order_count engine 1 = 2 \<and>
                     (case on_response (it_make_fill_response 1 1 Buy 9950 100 0) engine of
                        Inl _ \<Rightarrow> False
                      | Inr engine \<Rightarrow>
                          map_option ps_position (te_get_position engine 1) = Some 100 \<and> fills_received (te_stats engine) = 1))
              | _ \<Rightarrow> False))"

definition it_test_run_cycle_processes_events :: bool where
  "it_test_run_cycle_processes_events \<longleftrightarrow>
     (case submit_order (Nanos 0) 1 Buy 10000 100 (te_start one_ticker_engine) of
        (Inl _, _) \<Rightarrow> False
      | (Inr order_id, engine) \<Rightarrow>
          passes (run_cycle list_next list_next [it_make_fill_response order_id 1 Buy 10000 100 0]
              [MarketUpdate_new UAdd 1 1 1 10000 100 1, MarketUpdate_new UAdd 1 2 (- 1) 10100 50 2] engine)
            (\<lambda>(processed, engine).
              processed = 3 \<and> responses_processed (te_stats engine) = 1 \<and>
              market_updates_processed (te_stats engine) = 2 \<and> total_cycles (te_stats engine) = 1))"

definition it_test_risk_blocked_order_in_strategy_flow :: bool where
  "it_test_risk_blocked_order_in_strategy_flow \<longleftrightarrow>
     (let engine = risk_manager_mut (set_limits 1 (RiskLimits_new 50 100 10000 5))
            (TradeEngine_new (with_risk_checks True (with_tickers [1] (TradeEngineConfig_new 1))) ());
          (results, engine) = process_strategy_action (Nanos 0) (Nanos 0) [] (Take (OrderRequest_buy 1 10000 100)) engine
      in length results = 1 \<and> fst (results ! 0) = None \<and> snd (results ! 0) = OrderTooLarge \<and>
         orders_rejected_risk (te_stats engine) = 1)"

lemma flow_shows_quotes:
  "shows_quotes [\<lparr>mu_msg_type = 1, mu_ticker_id = 1, mu_order_id = 1, mu_side = 1, mu_price = 10000, mu_qty = 100, mu_priority = 1\<rparr>,
     \<lparr>mu_msg_type = 1, mu_ticker_id = 1, mu_order_id = 2, mu_side = - 1, mu_price = 10100, mu_qty = 50, mu_priority = 2\<rparr>]"
  by code_simp

lemma order_flow_passes: "it_test_order_flow_with_market_data_update"
  unfolding it_test_order_flow_with_market_data_update_def
  apply (rule replies_start, rule then_replies_abstract, assumption, assumption, simp add: step_evals)
  apply (rule then_replies_abstract, assumption, assumption, simp add: step_evals)
  apply (simp add: flow_shows_quotes)
  done

lemma full_cycle_passes: "it_test_full_trading_cycle"
  by code_simp

lemma risk_blocked_passes: "it_test_risk_blocked_order_in_strategy_flow"
  by code_simp

lemma run_cycle_events_pass: "it_test_run_cycle_processes_events"
  unfolding it_test_run_cycle_processes_events_def
  by (rule run_cycle_three_events) (simp_all add: one_ticker_engine_def te_start_def TradeEngine_new_def reserve_def
      with_risk_checks_def with_tickers_def TradeEngineConfig_new_def TradeEngineConfig_default_def)

section \<open>The gateway\<close>

text \<open>The one unit test of \<open>trading/src/order_gateway.rs\<close>.\<close>

definition test_pending_order_creation :: bool where
  "test_pending_order_creation \<longleftrightarrow>
     (let pending = \<lparr>po_order_id = 1, po_ticker_id = 100, po_side = Buy, po_price = 10050, po_qty = 100,
                     po_sent_time = Nanos 1000000\<rparr> in
      po_order_id pending = 1 \<and> po_ticker_id pending = 100 \<and> po_side pending = Buy \<and> po_price pending = 10050 \<and>
      po_qty pending = 100)"

lemma pending_order_creation_passes: "test_pending_order_creation"
  by code_simp

end
