(* ===== verification/Spec2Isabelle.thy ===== *)
theory Spec2Isabelle
  imports AcqRel Feed TradingClient TradeEngine Logging
    CommonTests WireTests MatchingTests PositionTests FeatureTests StrategyTests EngineTests IntegrationTests
begin

text \<open>
  A verification development for a low-latency trading system in Rust: the crates \<open>common\<close>
  (queues, pools, sockets, clocks), \<open>exchange\<close> (order entry, matching engine, market data) and
  \<open>trading\<close> (a client of the exchange).

  \<^bold>\<open>The program.\<close> Clients connect over TCP to the exchange's order server, which cuts the byte
  stream into requests and gives every request a global sequence number. The event loop of the
  exchange passes each request to the matching engine, which keeps one order book per ticker;
  the response goes back to the connection the request came from, and the market updates go to
  the publisher, which sends them to a multicast group and interleaves snapshots. A trading
  client has an order gateway that numbers and sends orders and collects the responses, a
  market data receiver that maintains the best bid and offer per ticker, a feature engine that
  turns quotes into signals, a market making and a liquidity taking strategy, a position keeper
  that books fills, and a risk manager that checks orders before they are sent. The event loop of
  the trading binary connects these for one ticker; the trade engine connects them for many, with
  callbacks in place of the gateway. A logger moves text off the hot path through a queue.

  \<^bold>\<open>The theories\<close>, in the order of the code they model (paths under \<open>src/\<close>):
  \<^item> \<open>Prelude\<close>: integers of Rust's widths with wrap-around, saturating and signed operations, hash
    maps, faults, runs of operations, and the contract \<open>simulation\<close> by which the refinement of
    single steps extends to runs.
  \<^item> \<open>Types\<close>: \<open>common/src/types.rs\<close>.
  \<^item> \<open>LFQueue\<close>, \<open>SPSC\<close>, \<open>AcqRel\<close>: \<open>common/src/lf_queue.rs\<close>. \<open>LFQueue\<close> has the operations as functions and
    shows that the ring buffer is a bounded queue, for every capacity and across the wrap-around
    of its indices (contract \<open>bounded_fifo\<close>). \<open>SPSC\<close> splits \<open>push\<close> and \<open>pop\<close> into their accesses to
    shared memory and proves order, completeness and freedom from races for every interleaving
    of one producer and one consumer. \<open>AcqRel\<close> does the same under the acquire, release and
    relaxed orderings the source writes: a load may return a stale value, and two accesses to a slot
    that happens-before does not order are a race. \<open>interleavings_included\<close> says that the executions of
    \<open>SPSC\<close> are among those of \<open>AcqRel\<close>, and \<open>every_ordering_needed\<close> that relaxing any of the four
    acquire and release accesses makes a race reachable.
  \<^item> \<open>MemPool\<close>: \<open>common/src/mem_pool.rs\<close>, the slot allocator (contract \<open>slot_pool\<close>).
  \<^item> \<open>F64\<close>: the binary64 arithmetic of the language: finite values as rational numbers, rounding to
    nearest even, infinities and NaN, comparisons, \<open>round\<close> and the saturating conversions; the sign
    of zero is not kept, as explained there.
  \<^item> \<open>Time\<close>: \<open>common/src/time.rs\<close>, timestamps and latency statistics over given clock readings.
  \<^item> \<open>Logging\<close>: \<open>common/src/logging.rs\<close>, the caller and the writer thread as interleaved steps over
    the queue and the three flags, and the text of an entry.
  \<^item> \<open>Net\<close>: \<open>common/src/net/tcp.rs\<close> and \<open>multicast.rs\<close>, the wrappers around the sockets.
  \<^item> \<open>Protocol\<close>: \<open>exchange/src/protocol.rs\<close>, the messages, their bytes (contract \<open>codec\<close>) and the
    cutting of a stream into messages.
  \<^item> \<open>OrderBook\<close>, \<open>MatchingEngine\<close>: \<open>exchange/src/order_book.rs\<close> and \<open>matching_engine.rs\<close>. The book
    is pool slots, price levels, links and an index; the contract \<open>order_store\<close> says that it acts
    like a map from order ids to orders with room for 65536 of them, and the engine is proved
    over that contract against an engine over plain maps.
  \<^item> \<open>OrderServer\<close>: \<open>exchange/src/order_server.rs\<close>, connections, sequencer, polling.
  \<^item> \<open>BestQuote\<close>, \<open>Publisher\<close>, \<open>MarketData\<close>: \<open>exchange/src/market_data.rs\<close> and
    \<open>trading/src/market_data.rs\<close>. Both keep the best quote of each side; the contract
    \<open>quote_tracker\<close> is proved once and interpreted for the two sides of both.
  \<^item> \<open>Exchange\<close>: \<open>exchange/src/main.rs\<close>, command line, start-up and event loop.
  \<^item> \<open>Feed\<close>: the market data path from the event loop of the exchange through the publisher's datagrams
    to a receiver, across \<open>Exchange\<close>, \<open>Publisher\<close>, \<open>Net\<close>, \<open>Protocol\<close> and \<open>MarketData\<close>.
  \<^item> \<open>Position\<close>, \<open>Risk\<close>: \<open>trading/src/position.rs\<close> and \<open>risk.rs\<close>.
  \<^item> \<open>OrderGateway\<close>: \<open>trading/src/order_gateway.rs\<close>.
  \<^item> \<open>Features\<close>, \<open>Strategies\<close>, \<open>MarketMaker\<close>, \<open>LiquidityTaker\<close>: \<open>trading/src/features.rs\<close> and
    \<open>trading/src/strategies/\<close>, the signals and the two strategies that turn them into orders
    (contract \<open>strategy\<close>, on which the client relies).
  \<^item> \<open>TradeEngine\<close>: \<open>trading/src/trade_engine.rs\<close>. The calls on an engine are the steps of a relation;
    its counters are proved consistent with the tracked orders in every reachable state.
  \<^item> \<open>TradingClient\<close>: \<open>trading/src/main.rs\<close>, command line, start-up and event loop of a client, which
    composes the receiver, the features, a strategy, the positions, the risk check and the gateway.
  \<^item> This theory: the path of an order from a client's gateway to the exchange and of the reply
    back, and what of a running client reaches the exchange, across \<open>TradingClient\<close>, \<open>OrderGateway\<close>, \<open>Net\<close>, \<open>Protocol\<close>, \<open>OrderServer\<close>, \<open>MatchingEngine\<close> and \<open>Exchange\<close>.

  \<^bold>\<open>The repository's own tests\<close> are part of the development, as a check of the definitions
  against the outcomes their authors wrote down: each test is a closed truth value over the model,
  named as in the source (with a prefix where two modules use the same name), and is proved, mostly by
  evaluation in the kernel. \<open>CommonTests\<close> has those of the crate \<open>common\<close>, \<open>WireTests\<close> those of the
  sockets, the protocol, the order server and the publisher over scripted sockets, \<open>MatchingTests\<close>
  those of the matching engine through its specification, \<open>PositionTests\<close> those of positions and risk,
  \<open>FeatureTests\<close> those of the receiver, the features and the strategy vocabulary, \<open>StrategyTests\<close> those
  of the two strategies and \<open>EngineTests\<close> those of the trade engine. \<open>IntegrationTests\<close> has the suite
  \<open>trading/tests/integration.rs\<close>, which crosses the components. Tests that only check a derived
  trait, wait for the clock or wait for the writer thread are left out; of the latter, those that
  expect an empty queue after a flush do not hold in every interleaving (\<open>flush_can_return_early\<close>).

  \<^bold>\<open>How the code is represented.\<close> A struct is a record, an enum a datatype, a method a function
  that takes and returns the record it changes. Integers are words of the source's width;
  \<open>usize\<close> has 64 bits. Arithmetic is that of the release profile, in which overflow wraps and
  \<open>debug_assert!\<close> is absent. Panics (index out of range, failed assertion, failed division) and
  reads of uninitialised memory are values of the type \<open>fault\<close>; I/O errors are values of the type
  \<open>io_error\<close>. A hash map is a finite map; where the program iterates over one, the order is an
  argument of the definition, so every theorem holds for every order. Messages are
  \<open>repr(C, packed)\<close> structs whose bytes are their fields in order, least significant byte first,
  the layout on the supported targets. Loops over data are recursive functions; the three loops
  that end only when a socket says so (\<open>accept_connections\<close>, \<open>poll_and_process\<close>, \<open>take_responses\<close>)
  are partial functions whose value \<open>None\<close> means that they never return, and their termination
  is a theorem. The callbacks of the trade engine act on a state the engine cannot see, which is a
  field of the model; an iterator is its \<open>next\<close> function. There is no fuel in the model. Tuples \<open>(result, state)\<close> keep the state after an
  error as the code leaves it.

  \<^bold>\<open>What is assumed.\<close> Sockets of the operating system are an argument, the record \<open>socket_api\<close> of
  their calls, about which nothing is assumed except where a theorem says so: \<open>mode_laws\<close> (the
  mode flag of a socket behaves as documented), \<open>send_logs\<close> and \<open>recv_keeps\<close> (a ghost log of the
  data handed to a socket), \<open>dgram_logs\<close> and \<open>never_refuses\<close> (the same for datagrams), \<open>accepts\<close>, \<open>delivers\<close> and \<open>yields\<close> (a number of connections, datagrams
  or responses is waiting). \<open>script_api\<close> is a socket that replays a script and satisfies these; the witnesses
  use it. Name resolution and clock readings are arguments. The atomics of the lock-free queue are
  those of the language's memory model for locations with one writer: a history of stores per
  location, coherent loads, and release stores that acquire loads synchronise with. The flags of the
  logger are sequentially consistent, one access per step.

  \<^bold>\<open>What the theorems show.\<close> The engine and its books refine their specifications from start-up on
  and never panic, whatever bytes clients send; the market data feed determines the books, what
  is sent is well typed, and a receiver of the datagrams shows the best prices of the books as long
  as orders are only added, or catches up from one snapshot; order
  ids are unique and time priority is monotone; price levels, best prices and the pool are
  consistent in every reachable state. The queue is linear, bounded and race free
  under the memory orderings it uses. Requests and
  responses survive any fragmentation of the TCP stream, requests are totally ordered, replies go
  to the connection they belong to. Positions conserve value up to the rounding of the average
  price, and the risk check decides as specified and bounds the position. Signals stay between -1
  and 1 and the fair value within the quotes, rounding included; quotes never cross and takers keep
  their distance in time. The trading client never panics, its iterations end when the sockets run
  dry, its position is the net of the fills, and it sends no order the risk check refuses; what
  arrives at the exchange from it is exactly its checked orders, and a matching engine with the ticker
  accepts them. The trade
  engine's counters agree with its tracked orders and stay within the limits. The logger keeps every
  accepted entry in order and writes all of them before it is gone. Where the code falls
  short of its documentation a lemma without a claim number exhibits it: \<open>level_loses_its_list\<close>
  (price levels lose their lists after a cancellation), \<open>cancel_ignores_owner\<close>,
  \<open>same_price_orders_lost\<close>, \<open>stale_bid_hides_quotes\<close>, \<open>reducing_orders_bypass_limit\<close>,
  \<open>cancel_reject_forgets_order\<close>, \<open>zero_max_qty_panics\<close>, \<open>unknown_fill_lowers_count\<close>,
  \<open>reset_keeps_open_qty\<close>, \<open>accepted_then_filled_counts_twice\<close>; and \<open>flush_can_return_early\<close> shows that
  a flush of the logger may return too soon.

  \<^bold>\<open>What is not represented\<close>: weak memory effects on the flags of the logger, the
  aliasing rules of references, the sign of a floating-point zero, the cycle counter instructions of
  \<open>common/src/time.rs\<close>, printing, argument parsing, signal handling and sleeping in the two binaries,
  accessors that only return a field, and the benchmarks.
\<close>

section \<open>From the gateway to the exchange and back\<close>

lemma engine_replies_echo:
  assumes "me_ok me" "run_outcome (\<lambda>rq me. process_request me rq) rqs me = Inr (rps, me')"
  shows "list_all2 (\<lambda>rq rp. rs_client_order_id (fst rp) = rq_order_id rq) rqs rps"
proof -
  have "run_spec aengine_step rqs (engine_abs me) = (rps, engine_abs me')"
    using en.run_refines [OF assms(1), of rqs] assms(2) by auto
  moreover have "list_all2 (\<lambda>rq rp. rs_client_order_id (fst rp) = rq_order_id rq) rqs
      (fst (run_spec aengine_step rqs (engine_abs me)))"
    by (rule run_spec_list_all2) (simp add: aengine_step_response)
  ultimately show ?thesis by simp
qed

lemma routed_ids:
  "list_all2 (\<lambda>sr rp. rs_client_order_id (fst rp) = rq_order_id (sr_request sr)) srs rps \<Longrightarrow>
     map (\<lambda>p. rs_client_order_id (fst (snd p))) (filter (\<lambda>(sr, rp). sr_client_id sr = k) (zip srs rps)) =
       map (\<lambda>sr. rq_order_id (sr_request sr)) (filter (\<lambda>sr. sr_client_id sr = k) srs)"
  by (induction rule: list_all2_induct) auto





lemma checked_accepted:
  assumes "list_all (checked_request args) rqs" "ta_ticker args \<in> set ts" "length rqs \<le> ORDER_POOL_SIZE"
  shows "\<exists>rps me. engine_exec ts rqs = Inr (rps, me) \<and>
    list_all2 (\<lambda>rq (rp, us). response_type rp = Some Accepted \<and> rs_client_order_id rp = rq_order_id rq \<and>
      rs_leaves_qty rp = rq_qty rq) rqs rps"
proof -
  obtain rps me where e: "engine_exec ts rqs = Inr (rps, me)" "run_spec aengine_step rqs (aengine_start (set ts)) = (rps, engine_abs me)"
    using engine_exec_ok [of ts rqs] by blast
  have "list_all (\<lambda>rq. request_type rq = Some RNew \<and> rq_ticker_id rq = ta_ticker args \<and> rq_side rq \<in> {1, - 1}) rqs"
    using assms(1) by (auto simp: checked_request_def elim!: list.pred_mono_strong)
  from new_orders_accepted [OF this assms(2,3)] e(2)
  have "rps = map2 accept_reply rqs (map (\<lambda>n. of_nat (Suc n)) [0..<length rqs])" by simp
  then have "list_all2 (\<lambda>rq (rp, us). response_type rp = Some Accepted \<and> rs_client_order_id rp = rq_order_id rq \<and>
      rs_leaves_qty rp = rq_qty rq) rqs rps"
    by (auto simp: list_all2_conv_all_nth accept_reply_def ClientResponse_new_def response_type_def ClientResponseType_from_u8_def)
  with e(1) show ?thesis by blast
qed



end
